theory Spec2Isabelle
  imports Main "HOL-Library.Sublist"
begin

section \<open>Time\<close>

text \<open>
  A \<^verbatim>\<open>time.Time\<close> is a number of nanoseconds counted from Go's zero time, so that
  \<^verbatim>\<open>t.IsZero()\<close> is \<open>t = 0\<close>, \<^verbatim>\<open>a.After(b)\<close> is \<open>b < a\<close> and
  \<^verbatim>\<open>t.Add(d)\<close> is \<open>t + d\<close>. A \<^verbatim>\<open>time.Duration\<close> is a number of nanoseconds too.
\<close>

type_synonym time = int
type_synonym duration = int

definition Nanosecond :: duration where "Nanosecond = 1"
definition Millisecond :: duration where "Millisecond = 1000000"
definition Second :: duration where "Second = 1000000000"
definition Minute :: duration where "Minute = 60 * Second"

section \<open>Pod discovery\<close>

datatype PodPhase = PodPending | PodRunning | PodSucceeded | PodFailed | PodUnknown

text \<open>
  The fields of \<^verbatim>\<open>corev1.Pod\<close> that the controller reads. \<^verbatim>\<open>Status.StartTime\<close> is a
  pointer in the API type and may be nil.
\<close>

record Pod =
  Name :: string
  Phase :: PodPhase
  PodIP :: string
  StartTime :: "time option"

datatype ServiceType = ClusterIP | NodePort | LoadBalancer | ExternalName

record ServicePort =
  Port :: int
  TargetPort :: int

record Service =
  SpecType :: ServiceType
  Ports :: "ServicePort list"
  Ingress :: "string list"
  ExternalIPs :: "string list"

text \<open>
  Every error value of the package is built with \<^verbatim>\<open>fmt.Errorf\<close>; each constructor
  stands for one message, with the values the message quotes. A panic of the Go runtime
  is a constructor as well.
\<close>

datatype error =
    ListPodsFailed string
  | NoPodFound string
  | NilPointerDereference
  | UpdatePodInfoFailed error
  | RconPortNotSet
  | RconConnectFailed error
  | AttachConnectFailed error
  | UnsupportedExecutorType string
  | ConnectRconFailed string
  | RconAuthError string
  | RconAuthRejected
  | RconCommandFailed int string
  | PodInfoIncomplete string string string
  | SPDYExecutorFailed string
  | StreamFailedWithStderr string string
  | StreamFailed string
  | CreateExecutorFailed error
  | ConnectExecutorFailed error
  | SessionNotFound string
  | StreamStillFailing string
  | StreamAndUpdateFailed string error
  | InitStreamFailed error
  | ReadLineFailed string
  | FollowReconnectFailed error

text \<open>
  The loop of \<^verbatim>\<open>findAndUpdatePodInfo\<close> over \<^verbatim>\<open>pods.Items\<close>. The two accumulators are
  \<^verbatim>\<open>latestSucceededPod\<close> and \<^verbatim>\<open>latestSucceededTime\<close>; the result is the pair
  (\<^verbatim>\<open>selectedPod\<close>, \<^verbatim>\<open>latestSucceededPod\<close>) when the loop ends. Reading
  \<^verbatim>\<open>Status.StartTime.Time\<close> through a nil pointer panics.
\<close>

fun scanPods :: "Pod list \<Rightarrow> Pod option \<Rightarrow> time \<Rightarrow> error + (Pod option \<times> Pod option)" where
  "scanPods [] latestSucceededPod latestSucceededTime = Inr (None, latestSucceededPod)"
| "scanPods (p # ps) latestSucceededPod latestSucceededTime =
     (if Phase p = PodRunning then Inr (Some p, latestSucceededPod)
      else if Phase p = PodSucceeded then
        (case StartTime p of
           None \<Rightarrow> Inl NilPointerDereference
         | Some st \<Rightarrow>
             if latestSucceededPod = None \<or> latestSucceededTime < st
             then scanPods ps (Some p) st
             else scanPods ps latestSucceededPod latestSucceededTime)
      else scanPods ps latestSucceededPod latestSucceededTime)"

text \<open>
  The choice of the pod, from the emptiness test to the last fallback
  (\<^verbatim>\<open>selectedPod = &pods.Items[0]\<close>). The argument \<open>selector\<close> is
  \<^verbatim>\<open>m.podLabelSelector\<close>, which the error message quotes.
\<close>

definition selectPod :: "string \<Rightarrow> Pod list \<Rightarrow> error + Pod" where
  "selectPod selector items =
     (case items of
        [] \<Rightarrow> Inl (NoPodFound selector)
      | first # _ \<Rightarrow>
          (case scanPods items None 0 of
             Inl e \<Rightarrow> Inl e
           | Inr (Some p, _) \<Rightarrow> Inr p
           | Inr (None, Some p) \<Rightarrow> Inr p
           | Inr (None, None) \<Rightarrow> Inr first))"

record ServerStatus =
  StatusPodName :: string
  StatusPodStatus :: PodPhase
  StatusClusterIP :: string
  StatusExternalIP :: string

record MinecraftController =
  namespace :: string
  podLabelSelector :: string
  containerName :: string
  currentPodName :: string
  serviceLabelSelector :: string
  serverIP :: string
  lastPodInfoUpdate :: time
  podInfoUpdateInterval :: duration
  gamePort :: int
  rconPort :: int
  rconPassword :: string
  status :: ServerStatus

text \<open>\<^verbatim>\<open>int32(x)\<close>: the conversion keeps the low 32 bits, read as a signed number.\<close>

definition int32 :: "int \<Rightarrow> int" where
  "int32 x = (x + 2147483648) mod 4294967296 - 2147483648"

text \<open>
  The inner loop over the ports of one service: at the first port that matches the game
  port the external address is taken from the load balancer's ingress, else from the
  external addresses, and the loop stops.
\<close>

fun scanPorts :: "int \<Rightarrow> Service \<Rightarrow> ServicePort list \<Rightarrow> string \<Rightarrow> string" where
  "scanPorts gp svc [] ext = ext"
| "scanPorts gp svc (port # ports) ext =
     (if Port port = int32 gp \<or> TargetPort port = int32 gp then
        (case Ingress svc of
           ip # _ \<Rightarrow> ip
         | [] \<Rightarrow> (case ExternalIPs svc of ip # _ \<Rightarrow> ip | [] \<Rightarrow> ext))
      else scanPorts gp svc ports ext)"

fun scanServices :: "int \<Rightarrow> Service list \<Rightarrow> string \<Rightarrow> string" where
  "scanServices gp [] ext = ext"
| "scanServices gp (svc # svcs) ext =
     (if SpecType svc = LoadBalancer \<or> SpecType svc = NodePort
      then scanServices gp svcs (scanPorts gp svc (Ports svc) ext)
      else scanServices gp svcs ext)"

text \<open>
  What the API server answers: the pods and the services listed under the selectors, or
  an error text. The clock reading \<open>now\<close> is \<^verbatim>\<open>time.Now()\<close>.
\<close>

record k8s_api =
  listPods :: "string + Pod list"
  listServices :: "string + Service list"

definition findAndUpdatePodInfo ::
    "k8s_api \<Rightarrow> time \<Rightarrow> MinecraftController \<Rightarrow> error option \<times> MinecraftController" where
  "findAndUpdatePodInfo api now m =
     (case listPods api of
        Inl err \<Rightarrow> (Some (ListPodsFailed err), m)
      | Inr items \<Rightarrow>
          (case selectPod (podLabelSelector m) items of
             Inl e \<Rightarrow> (Some e, m)
           | Inr selectedPod \<Rightarrow>
               let st = (status m)\<lparr>StatusPodName := Name selectedPod,
                                    StatusPodStatus := Phase selectedPod,
                                    StatusClusterIP := PodIP selectedPod\<rparr>;
                   st' = (case listServices api of
                            Inl _ \<Rightarrow> st
                          | Inr svcs \<Rightarrow>
                              st\<lparr>StatusExternalIP := scanServices (gamePort m) svcs (StatusExternalIP st)\<rparr>)
               in (None, m\<lparr>currentPodName := Name selectedPod,
                            serverIP := PodIP selectedPod,
                            status := st',
                            lastPodInfoUpdate := now\<rparr>)))"

text \<open>
  \<^verbatim>\<open>updatePodInfoIfNeeded\<close>: the result is (was a refresh run, its error, the controller).
  The test is made twice in the source, before and after taking the refresh lock; in one
  thread both readings agree.
\<close>

definition updatePodInfoIfNeeded ::
    "k8s_api \<Rightarrow> time \<Rightarrow> bool \<Rightarrow> MinecraftController
       \<Rightarrow> bool \<times> error option \<times> MinecraftController" where
  "updatePodInfoIfNeeded api now forceUpdate m =
     (if \<not> forceUpdate \<and> now - lastPodInfoUpdate m < podInfoUpdateInterval m
      then (False, None, m)
      else (case findAndUpdatePodInfo api now m of (err, m') \<Rightarrow> (True, err, m')))"

section \<open>The RCON executor\<close>

text \<open>
  The RCON client is a library outside the package. Its server is described by what it
  answers to the n-th call of each kind (n counts from 0): \<open>connectReply\<close> is the
  error of \<^verbatim>\<open>client.Connect()\<close>, if any; \<open>authReply\<close> is the result of
  \<^verbatim>\<open>client.Authenticate(password)\<close>; \<open>commandReply\<close> is the result of
  \<^verbatim>\<open>client.Command(cmd)\<close>.
\<close>

record rcon_server =
  connectReply :: "nat \<Rightarrow> string option"
  authReply :: "nat \<Rightarrow> string \<Rightarrow> string + bool"
  commandReply :: "nat \<Rightarrow> string \<Rightarrow> string + string"

text \<open>
  What a run does to the outside is recorded as a trace of events, oldest first, next to
  the clock, which a sleep moves on.
\<close>

datatype event =
    NewClient string int
  | ClientConnect
  | ClientAuthenticate string
  | ClientCommand string
  | ClientDisconnect
  | Sleep duration
  | RegistryLock
  | RegistryUnlock
  | SessionClose string

record io =
  trace :: "event list"
  clock :: time

definition emit :: "event \<Rightarrow> io \<Rightarrow> io" where
  "emit ev s = s\<lparr>trace := trace s @ [ev]\<rparr>"

definition sleep :: "duration \<Rightarrow> io \<Rightarrow> io" where
  "sleep d s = s\<lparr>trace := trace s @ [Sleep d], clock := clock s + d\<rparr>"

fun isConnect :: "event \<Rightarrow> bool" where
  "isConnect ClientConnect = True"
| "isConnect _ = False"

fun isAuthenticate :: "event \<Rightarrow> bool" where
  "isAuthenticate (ClientAuthenticate _) = True"
| "isAuthenticate _ = False"

fun isCommand :: "event \<Rightarrow> bool" where
  "isCommand (ClientCommand _) = True"
| "isCommand _ = False"

fun isSleep :: "event \<Rightarrow> bool" where
  "isSleep (Sleep _) = True"
| "isSleep _ = False"

definition calls :: "(event \<Rightarrow> bool) \<Rightarrow> io \<Rightarrow> nat" where
  "calls P s = length (filter P (trace s))"

record rconExecutor =
  rc_serverIP :: string
  rc_port :: int
  rc_password :: string
  hasClient :: bool
  connected :: bool
  authenticated :: bool
  rc_lastUsed :: time
  maxRetries :: int
  retryDelay :: duration
  maxRetryDelay :: duration

definition newRconExecutor :: "string \<Rightarrow> int \<Rightarrow> string \<Rightarrow> rconExecutor" where
  "newRconExecutor ip port password =
     \<lparr>rc_serverIP = ip, rc_port = port, rc_password = password,
      hasClient = False, connected = False, authenticated = False, rc_lastUsed = 0,
      maxRetries = 5, retryDelay = 500 * Millisecond, maxRetryDelay = 10 * Second\<rparr>"

definition rconExecutor_Connect ::
    "rcon_server \<Rightarrow> rconExecutor \<times> io \<Rightarrow> error option \<times> rconExecutor \<times> io" where
  "rconExecutor_Connect srv = (\<lambda>(e, s).
     if connected e \<and> authenticated e then (None, e, s)
     else
       let s1 = emit (NewClient (rc_serverIP e) (rc_port e)) s;
           e1 = e\<lparr>hasClient := True\<rparr>;
           err = connectReply srv (calls isConnect s1);
           s2 = emit ClientConnect s1
       in case err of
            Some msg \<Rightarrow>
              (Some (ConnectRconFailed msg), e1\<lparr>connected := False, authenticated := False\<rparr>, s2)
          | None \<Rightarrow>
              let e2 = e1\<lparr>connected := True\<rparr>;
                  res = authReply srv (calls isAuthenticate s2) (rc_password e2);
                  s3 = emit (ClientAuthenticate (rc_password e2)) s2
              in case res of
                   Inl msg \<Rightarrow>
                     (Some (RconAuthError msg),
                      e2\<lparr>connected := False, authenticated := False\<rparr>, emit ClientDisconnect s3)
                 | Inr ok \<Rightarrow>
                     if \<not> ok then
                       (Some RconAuthRejected,
                        e2\<lparr>connected := False, authenticated := False\<rparr>, emit ClientDisconnect s3)
                     else (None, e2\<lparr>authenticated := True, rc_lastUsed := clock s3\<rparr>, s3))"

text \<open>
  The delay before the reconnect that follows the failed attempt number \<open>retryCount\<close>:
  \<^verbatim>\<open>time.Duration(float64(e.retryDelay) * math.Pow(1.5, float64(retryCount)))\<close>,
  cut at \<^verbatim>\<open>e.maxRetryDelay\<close>. The conversion to a duration drops the fraction. The value
  is written here with exact arithmetic; with the base of 500 ms and the six values of
  \<open>retryCount\<close> that the loop can reach, the floating-point product is this very integer.
\<close>

definition retryBackoff :: "rconExecutor \<Rightarrow> nat \<Rightarrow> duration" where
  "retryBackoff e retryCount =
     (let delay = (retryDelay e * 3 ^ retryCount) div 2 ^ retryCount
      in if delay > maxRetryDelay e then maxRetryDelay e else delay)"

lemma rconExecutor_Connect_maxRetries:
  "rconExecutor_Connect srv (e, s) = (r, e', s') \<Longrightarrow> maxRetries e' = maxRetries e"
  by (auto simp: rconExecutor_Connect_def Let_def split: option.splits sum.splits if_splits)

text \<open>
  The retry loop of \<^verbatim>\<open>ExecuteCommand\<close>, entered with the loop variable \<open>retryCount\<close>.
  A reconnect that fails goes on with the next round as well (\<^verbatim>\<open>continue\<close>). When the
  loop condition fails the function returns \<^verbatim>\<open>response, err\<close> as they stand, the empty
  string and no error.
\<close>

function commandLoop ::
    "rcon_server \<Rightarrow> string \<Rightarrow> nat \<Rightarrow> rconExecutor \<times> io \<Rightarrow> (error + string) \<times> rconExecutor \<times> io" where
  "commandLoop srv cmd retryCount (e, s) =
     (if int retryCount \<le> maxRetries e then
        if \<not> hasClient e then (Inl NilPointerDereference, e, s)
        else
          let res = commandReply srv (calls isCommand s) cmd;
              s1 = emit (ClientCommand cmd) s
          in case res of
               Inr response \<Rightarrow> (Inr response, e, s1)
             | Inl msg \<Rightarrow>
                 let e1 = e\<lparr>connected := False, authenticated := False\<rparr>
                 in if int retryCount = maxRetries e1
                    then (Inl (RconCommandFailed (int retryCount) msg), e1, s1)
                    else
                      let s2 = sleep (retryBackoff e1 retryCount) s1
                      in case rconExecutor_Connect srv (e1, s2) of
                           (_, e2, s3) \<Rightarrow> commandLoop srv cmd (Suc retryCount) (e2, s3)
      else (Inr [], e, s))"
  by pat_completeness auto
termination
  apply (relation "measure (\<lambda>(srv, cmd, retryCount, e, s). nat (maxRetries e + 1 - int retryCount))")
   apply simp
  apply (auto dest!: rconExecutor_Connect_maxRetries [OF sym])
  done

definition rconExecutor_ExecuteCommand ::
    "rcon_server \<Rightarrow> string \<Rightarrow> rconExecutor \<times> io \<Rightarrow> (error + string) \<times> rconExecutor \<times> io" where
  "rconExecutor_ExecuteCommand srv cmd = (\<lambda>(e, s).
     let e0 = e\<lparr>rc_lastUsed := clock s\<rparr>
     in if \<not> connected e0 \<or> \<not> authenticated e0 then
          (case rconExecutor_Connect srv (e0, s) of
             (Some err, e1, s1) \<Rightarrow> (Inl err, e1, s1)
           | (None, e1, s1) \<Rightarrow> commandLoop srv cmd 0 (e1, s1))
        else commandLoop srv cmd 0 (e0, s))"

definition rconExecutor_Disconnect :: "rconExecutor \<times> io \<Rightarrow> rconExecutor \<times> io" where
  "rconExecutor_Disconnect = (\<lambda>(e, s).
     (e\<lparr>connected := False, authenticated := False\<rparr>,
      if connected e \<and> hasClient e then emit ClientDisconnect s else s))"

definition rconExecutor_IsConnected :: "rconExecutor \<Rightarrow> bool" where
  "rconExecutor_IsConnected e \<longleftrightarrow> connected e \<and> authenticated e"

section \<open>The attach and exec executors\<close>

text \<open>
  The cluster side of \<^verbatim>\<open>remotecommand\<close>: \<open>newSPDYExecutor\<close> is the error of
  \<^verbatim>\<open>NewSPDYExecutor\<close>, if any; \<open>execStream\<close> is what \<^verbatim>\<open>StreamWithContext\<close> leaves in
  the two buffers and returns for an exec request (namespace, pod, container, command,
  timeout of the context); \<open>attachStream\<close> is the error it returns for an attach request
  (namespace, pod, container, bytes written to the standard input, timeout).
\<close>

record remote_result =
  stdout :: string
  stderr :: string
  streamErr :: "string option"

record cluster =
  newSPDYExecutor :: "string option"
  execStream :: "string \<Rightarrow> string \<Rightarrow> string \<Rightarrow> string list \<Rightarrow> duration \<Rightarrow> remote_result"
  attachStream :: "string \<Rightarrow> string \<Rightarrow> string \<Rightarrow> string \<Rightarrow> duration \<Rightarrow> string option"

record attachExecutor =
  at_namespace :: string
  at_podName :: string
  at_containerName :: string
  at_connected :: bool
  at_timeout :: duration

definition newAttachExecutor :: "string \<Rightarrow> string \<Rightarrow> string \<Rightarrow> attachExecutor" where
  "newAttachExecutor ns pod container =
     \<lparr>at_namespace = ns, at_podName = pod, at_containerName = container,
      at_connected = False, at_timeout = 30 * Second\<rparr>"

definition attachExecutor_Connect :: "attachExecutor \<Rightarrow> error option \<times> attachExecutor" where
  "attachExecutor_Connect e =
     (if at_connected e then (None, e)
      else if at_podName e = [] \<or> at_namespace e = [] \<or> at_containerName e = []
      then (Some (PodInfoIncomplete (at_podName e) (at_namespace e) (at_containerName e)), e)
      else (None, e\<lparr>at_connected := True\<rparr>))"

definition attachExecutor_ExecuteCommand :: "cluster \<Rightarrow> string \<Rightarrow> attachExecutor \<Rightarrow> error + string" where
  "attachExecutor_ExecuteCommand cl cmd e =
     (case newSPDYExecutor cl of
        Some msg \<Rightarrow> Inl (SPDYExecutorFailed msg)
      | None \<Rightarrow>
          (case attachStream cl (at_namespace e) (at_podName e) (at_containerName e)
                  (cmd @ [CHR 0x0A]) (at_timeout e) of
             Some msg \<Rightarrow> Inl (StreamFailed msg)
           | None \<Rightarrow> Inr []))"

definition attachExecutor_Disconnect :: "attachExecutor \<Rightarrow> attachExecutor" where
  "attachExecutor_Disconnect e = e\<lparr>at_connected := False\<rparr>"

definition attachExecutor_IsConnected :: "attachExecutor \<Rightarrow> bool" where
  "attachExecutor_IsConnected e = at_connected e"

record execExecutor =
  ex_namespace :: string
  ex_podName :: string
  ex_containerName :: string
  timeout :: duration
  useProcessFd :: bool

definition newExecExecutor :: "string \<Rightarrow> string \<Rightarrow> string \<Rightarrow> execExecutor" where
  "newExecExecutor ns pod container =
     \<lparr>ex_namespace = ns, ex_podName = pod, ex_containerName = container,
      timeout = 30 * Second, useProcessFd = True\<rparr>"

definition execExecutor_Connect :: "execExecutor \<Rightarrow> error option" where
  "execExecutor_Connect e =
     (if ex_podName e = [] \<or> ex_namespace e = [] \<or> ex_containerName e = []
      then Some (PodInfoIncomplete (ex_podName e) (ex_namespace e) (ex_containerName e))
      else None)"

text \<open>
  \<^verbatim>\<open>strings.Replace(cmd, "'", "'\\''", -1)\<close> and the \<^verbatim>\<open>echo\<close> line built around it.
  The quote is the byte 0x27, the backslash 0x5C.
\<close>

definition escapeQuotes :: "string \<Rightarrow> string" where
  "escapeQuotes cmd =
     concat (map (\<lambda>c. if c = CHR 0x27 then [CHR 0x27, CHR 0x5C, CHR 0x27, CHR 0x27] else [c]) cmd)"

definition echoCmd :: "string \<Rightarrow> string" where
  "echoCmd cmd = ''echo '' @ [CHR 0x27] @ escapeQuotes cmd @ [CHR 0x27] @ '' > /proc/1/fd/0''"

definition executeViaProcessFd :: "cluster \<Rightarrow> string \<Rightarrow> execExecutor \<Rightarrow> error + string" where
  "executeViaProcessFd cl cmd e =
     (case newSPDYExecutor cl of
        Some msg \<Rightarrow> Inl (SPDYExecutorFailed msg)
      | None \<Rightarrow>
          let r = execStream cl (ex_namespace e) (ex_podName e) (ex_containerName e)
                    [''sh'', ''-c'', echoCmd cmd] (timeout e)
          in case streamErr r of
               Some msg \<Rightarrow>
                 if length (stderr r) > 0 then Inl (StreamFailedWithStderr (stderr r) msg)
                 else Inl (StreamFailed msg)
             | None \<Rightarrow>
                 if length (stderr r) > 0 then Inr (stderr r)
                 else Inr (stdout r))"

definition executeViaDirectExec :: "cluster \<Rightarrow> string \<Rightarrow> execExecutor \<Rightarrow> error + string" where
  "executeViaDirectExec cl cmd e =
     (case newSPDYExecutor cl of
        Some msg \<Rightarrow> Inl (SPDYExecutorFailed msg)
      | None \<Rightarrow>
          let r = execStream cl (ex_namespace e) (ex_podName e) (ex_containerName e)
                    [''sh'', ''-c'', cmd] (timeout e)
          in case streamErr r of
               Some msg \<Rightarrow>
                 if length (stderr r) > 0 then Inl (StreamFailedWithStderr (stderr r) msg)
                 else Inl (StreamFailed msg)
             | None \<Rightarrow>
                 if length (stdout r) = 0 \<and> length (stderr r) > 0 then Inr (stderr r)
                 else Inr (stdout r))"

definition execExecutor_ExecuteCommand :: "cluster \<Rightarrow> string \<Rightarrow> execExecutor \<Rightarrow> error + string" where
  "execExecutor_ExecuteCommand cl cmd e =
     (if useProcessFd e then executeViaProcessFd cl cmd e else executeViaDirectExec cl cmd e)"

definition SetUseProcessFd :: "bool \<Rightarrow> execExecutor \<Rightarrow> execExecutor" where
  "SetUseProcessFd use e = e\<lparr>useProcessFd := use\<rparr>"

definition execExecutor_IsConnected :: "execExecutor \<Rightarrow> bool" where
  "execExecutor_IsConnected e \<longleftrightarrow> ex_podName e \<noteq> [] \<and> ex_namespace e \<noteq> [] \<and> ex_containerName e \<noteq> []"

section \<open>The executor interface and its construction\<close>

text \<open>
  \<^verbatim>\<open>CommandExecutor\<close> is an interface with three implementations. \<^verbatim>\<open>ExecutorType\<close> is a
  string type with four named values; any other string is \<open>ExecutorOther\<close>.
\<close>

datatype CommandExecutor = Rcon rconExecutor | Attach attachExecutor | Exec execExecutor

datatype ExecutorType =
  ExecutorRcon | ExecutorAttach | ExecutorExec | ExecutorAuto | ExecutorOther string

record world =
  k8s :: k8s_api
  rconServer :: rcon_server
  k8sRemote :: cluster

fun executor_Connect :: "world \<Rightarrow> CommandExecutor \<times> io \<Rightarrow> error option \<times> CommandExecutor \<times> io" where
  "executor_Connect w (Rcon e, s) =
     (case rconExecutor_Connect (rconServer w) (e, s) of (err, e', s') \<Rightarrow> (err, Rcon e', s'))"
| "executor_Connect w (Attach e, s) =
     (case attachExecutor_Connect e of (err, e') \<Rightarrow> (err, Attach e', s))"
| "executor_Connect w (Exec e, s) = (execExecutor_Connect e, Exec e, s)"

fun executor_ExecuteCommand ::
    "world \<Rightarrow> string \<Rightarrow> CommandExecutor \<times> io \<Rightarrow> (error + string) \<times> CommandExecutor \<times> io" where
  "executor_ExecuteCommand w cmd (Rcon e, s) =
     (case rconExecutor_ExecuteCommand (rconServer w) cmd (e, s) of (r, e', s') \<Rightarrow> (r, Rcon e', s'))"
| "executor_ExecuteCommand w cmd (Attach e, s) =
     (attachExecutor_ExecuteCommand (k8sRemote w) cmd e, Attach e, s)"
| "executor_ExecuteCommand w cmd (Exec e, s) =
     (execExecutor_ExecuteCommand (k8sRemote w) cmd e, Exec e, s)"

fun executor_Disconnect :: "CommandExecutor \<times> io \<Rightarrow> CommandExecutor \<times> io" where
  "executor_Disconnect (Rcon e, s) =
     (case rconExecutor_Disconnect (e, s) of (e', s') \<Rightarrow> (Rcon e', s'))"
| "executor_Disconnect (Attach e, s) = (Attach (attachExecutor_Disconnect e), s)"
| "executor_Disconnect (Exec e, s) = (Exec e, s)"

fun executor_IsConnected :: "CommandExecutor \<Rightarrow> bool" where
  "executor_IsConnected (Rcon e) = rconExecutor_IsConnected e"
| "executor_IsConnected (Attach e) = attachExecutor_IsConnected e"
| "executor_IsConnected (Exec e) = execExecutor_IsConnected e"

definition createRconExecutor ::
    "world \<Rightarrow> MinecraftController \<times> io \<Rightarrow> (error + CommandExecutor) \<times> MinecraftController \<times> io" where
  "createRconExecutor w = (\<lambda>(m, s).
     if rconPort m = 0 then (Inl RconPortNotSet, m, s)
     else
       (case updatePodInfoIfNeeded (k8s w) (clock s) False m of
          (_, Some err, m1) \<Rightarrow> (Inl (UpdatePodInfoFailed err), m1, s)
        | (_, None, m1) \<Rightarrow>
            (case rconExecutor_Connect (rconServer w)
                    (newRconExecutor (serverIP m1) (rconPort m1) (rconPassword m1), s) of
               (Some err, e, s1) \<Rightarrow> (Inl (RconConnectFailed err), m1, s1)
             | (None, e, s1) \<Rightarrow> (Inr (Rcon e), m1, s1))))"

definition createAttachExecutor ::
    "world \<Rightarrow> MinecraftController \<times> io \<Rightarrow> (error + CommandExecutor) \<times> MinecraftController \<times> io" where
  "createAttachExecutor w = (\<lambda>(m, s).
     case updatePodInfoIfNeeded (k8s w) (clock s) False m of
       (_, Some err, m1) \<Rightarrow> (Inl (UpdatePodInfoFailed err), m1, s)
     | (_, None, m1) \<Rightarrow>
         (case attachExecutor_Connect
                 (newAttachExecutor (namespace m1) (currentPodName m1) (containerName m1)) of
            (Some err, e) \<Rightarrow> (Inl (AttachConnectFailed err), m1, s)
          | (None, e) \<Rightarrow> (Inr (Attach e), m1, s)))"

definition createExecExecutor ::
    "world \<Rightarrow> MinecraftController \<times> io \<Rightarrow> (error + CommandExecutor) \<times> MinecraftController \<times> io" where
  "createExecExecutor w = (\<lambda>(m, s).
     case updatePodInfoIfNeeded (k8s w) (clock s) False m of
       (_, Some err, m1) \<Rightarrow> (Inl (UpdatePodInfoFailed err), m1, s)
     | (_, None, m1) \<Rightarrow>
         (Inr (Exec (newExecExecutor (namespace m1) (currentPodName m1) (containerName m1))), m1, s))"

definition CreateCommandExecutor ::
    "world \<Rightarrow> ExecutorType \<Rightarrow> MinecraftController \<times> io
       \<Rightarrow> (error + CommandExecutor) \<times> MinecraftController \<times> io" where
  "CreateCommandExecutor w executorType = (\<lambda>(m, s).
     if executorType = ExecutorAuto then
       (case createRconExecutor w (m, s) of
          (Inr executor, m1, s1) \<Rightarrow> (Inr executor, m1, s1)
        | (Inl _, m1, s1) \<Rightarrow>
            (case createAttachExecutor w (m1, s1) of
               (Inr executor, m2, s2) \<Rightarrow> (Inr executor, m2, s2)
             | (Inl _, m2, s2) \<Rightarrow> createExecExecutor w (m2, s2)))
     else
       (case executorType of
          ExecutorRcon \<Rightarrow> createRconExecutor w (m, s)
        | ExecutorAttach \<Rightarrow> createAttachExecutor w (m, s)
        | ExecutorExec \<Rightarrow> createExecExecutor w (m, s)
        | ExecutorAuto \<Rightarrow> (Inl (UnsupportedExecutorType ''auto''), m, s)
        | ExecutorOther t \<Rightarrow> (Inl (UnsupportedExecutorType t), m, s)))"

section \<open>Command sessions\<close>

record CommandSession =
  session_id :: string
  executor :: CommandExecutor
  executorType :: ExecutorType
  lastUsed :: time
  idleTimeout :: duration

text \<open>
  The registry \<^verbatim>\<open>sessionManager.sessions\<close> is a Go map from the identifier to the session.
  It is a list of pairs here, in the order in which \<^verbatim>\<open>range\<close> visits the map, which Go
  leaves open; a registry has each key once.
\<close>

type_synonym sessionManager = "(string \<times> CommandSession) list"

definition store :: "string \<Rightarrow> CommandSession \<Rightarrow> sessionManager \<Rightarrow> sessionManager" where
  "store k v sm = (if k \<in> fst ` set sm then map (\<lambda>(k', v'). if k' = k then (k, v) else (k', v')) sm
                   else sm @ [(k, v)])"

definition delete :: "string \<Rightarrow> sessionManager \<Rightarrow> sessionManager" where
  "delete k sm = filter (\<lambda>(k', v'). k' \<noteq> k) sm"

definition CommandSession_ExecuteCommand ::
    "world \<Rightarrow> string \<Rightarrow> CommandSession \<times> io \<Rightarrow> (error + string) \<times> CommandSession \<times> io" where
  "CommandSession_ExecuteCommand w command = (\<lambda>(sess, s).
     let sess1 = sess\<lparr>lastUsed := clock s\<rparr>
     in case executor_ExecuteCommand w command (executor sess1, s) of
          (r, x, s') \<Rightarrow> (r, sess1\<lparr>executor := x\<rparr>, s'))"

definition CommandSession_Close :: "CommandSession \<times> io \<Rightarrow> CommandSession \<times> io" where
  "CommandSession_Close = (\<lambda>(sess, s).
     case executor_Disconnect (executor sess, emit (SessionClose (session_id sess)) s) of
       (x, s') \<Rightarrow> (sess\<lparr>executor := x\<rparr>, s'))"

definition IsIdle :: "time \<Rightarrow> CommandSession \<Rightarrow> bool" where
  "IsIdle now sess \<longleftrightarrow> now - lastUsed sess > idleTimeout sess"

text \<open>
  \<^verbatim>\<open>CreateCommandSession\<close>; \<open>uuid\<close> is the identifier that \<^verbatim>\<open>uuid.New()\<close> draws.
\<close>

definition CreateCommandSession ::
    "world \<Rightarrow> string \<Rightarrow> duration \<Rightarrow> ExecutorType \<Rightarrow> MinecraftController \<times> sessionManager \<times> io
       \<Rightarrow> (error + CommandSession) \<times> MinecraftController \<times> sessionManager \<times> io" where
  "CreateCommandSession w uuid idle requested = (\<lambda>(m, sm, s).
     let et = (if requested = ExecutorOther [] then ExecutorAuto else requested)
     in case CreateCommandExecutor w et (m, s) of
          (Inl err, m1, s1) \<Rightarrow> (Inl (CreateExecutorFailed err), m1, sm, s1)
        | (Inr x, m1, s1) \<Rightarrow>
            (case executor_Connect w (x, s1) of
               (Some err, x', s2) \<Rightarrow> (Inl (ConnectExecutorFailed err), m1, sm, s2)
             | (None, x', s2) \<Rightarrow>
                 let session = \<lparr>session_id = uuid, executor = x', executorType = et,
                                  lastUsed = clock s2, idleTimeout = idle\<rparr>
                 in (Inr session, m1, store uuid session sm,
                     emit RegistryUnlock (emit RegistryLock s2))))"

definition SessionExecuteCommand ::
    "world \<Rightarrow> string \<Rightarrow> string \<Rightarrow> sessionManager \<times> io \<Rightarrow> (error + string) \<times> sessionManager \<times> io" where
  "SessionExecuteCommand w sessionID command = (\<lambda>(sm, s).
     let s0 = emit RegistryUnlock (emit RegistryLock s)
     in case map_of sm sessionID of
          None \<Rightarrow> (Inl (SessionNotFound sessionID), sm, s0)
        | Some session \<Rightarrow>
            (case CommandSession_ExecuteCommand w command (session, s0) of
               (r, session', s') \<Rightarrow> (r, store sessionID session' sm, s')))"

definition CloseCommandSession ::
    "string \<Rightarrow> sessionManager \<times> io \<Rightarrow> error option \<times> sessionManager \<times> io" where
  "CloseCommandSession sessionID = (\<lambda>(sm, s).
     case map_of sm sessionID of
       None \<Rightarrow> (Some (SessionNotFound sessionID), sm, emit RegistryUnlock (emit RegistryLock s))
     | Some session \<Rightarrow>
         (case CommandSession_Close (session, emit RegistryUnlock (emit RegistryLock s)) of
            (_, s') \<Rightarrow> (None, delete sessionID sm, s')))"

text \<open>
  The second loop of \<^verbatim>\<open>cleanupIdleSessions\<close>, over the identifiers collected by the first.
  It is entered and left with the registry lock held. A session that is no longer in the
  map reads as nil, and closing it panics.
\<close>

fun closeIdle :: "string list \<Rightarrow> sessionManager \<times> io \<Rightarrow> error option \<times> sessionManager \<times> io" where
  "closeIdle [] (sm, s) = (None, sm, s)"
| "closeIdle (k # ks) (sm, s) =
     (case map_of sm k of
        None \<Rightarrow> (Some NilPointerDereference, delete k sm, emit RegistryUnlock s)
      | Some session \<Rightarrow>
          (case CommandSession_Close (session, emit RegistryUnlock s) of
             (_, s') \<Rightarrow> closeIdle ks (delete k sm, emit RegistryLock s')))"

definition cleanupIdleSessions :: "sessionManager \<times> io \<Rightarrow> error option \<times> sessionManager \<times> io" where
  "cleanupIdleSessions = (\<lambda>(sm, s).
     let s1 = emit RegistryLock s;
         idleSessions = map fst (filter (\<lambda>(k, session). IsIdle (clock s1) session) sm)
     in case closeIdle idleSessions (sm, s1) of
          (Some err, sm', s') \<Rightarrow> (Some err, sm', s')
        | (None, sm', s') \<Rightarrow> (None, sm', emit RegistryUnlock s'))"

text \<open>
  The slow calls of a run are the closing of a session and the disconnect of its client.
  \<open>outsideLock held t\<close> says that none of them in the trace \<open>t\<close> happens while the
  registry lock is held, the lock being held at the start as \<open>held\<close> says.
\<close>

fun outsideLock :: "bool \<Rightarrow> event list \<Rightarrow> bool" where
  "outsideLock held [] = True"
| "outsideLock held (RegistryLock # t) = outsideLock True t"
| "outsideLock held (RegistryUnlock # t) = outsideLock False t"
| "outsideLock held (SessionClose k # t) = (\<not> held \<and> outsideLock held t)"
| "outsideLock held (ClientDisconnect # t) = (\<not> held \<and> outsideLock held t)"
| "outsideLock held (_ # t) = outsideLock held t"

section \<open>Log streams\<close>

text \<open>
  An error of a read. \<open>Canceled\<close> stands for the errors that \<^verbatim>\<open>errors.Is\<close> finds to be
  \<^verbatim>\<open>context.Canceled\<close>; \<open>errorText\<close> is \<^verbatim>\<open>err.Error()\<close>.
\<close>

datatype read_error = EOF | Canceled | OtherError string

fun errorText :: "read_error \<Rightarrow> string" where
  "errorText EOF = ''EOF''"
| "errorText Canceled = ''context canceled''"
| "errorText (OtherError msg) = msg"

text \<open>
  A log stream behind its \<^verbatim>\<open>bufio.Reader\<close>: the bytes not read yet, the error that the
  source gives once they are used up, and the error that a read gives after the stream
  was closed.
\<close>

record reader =
  pending :: string
  ending :: read_error
  afterClose :: read_error
  closed :: bool

text \<open>The first line of a byte string, its terminator included, and what follows it.\<close>

fun splitLine :: "string \<Rightarrow> (string \<times> string) option" where
  "splitLine [] = None"
| "splitLine (c # cs) =
     (if c = CHR 0x0A then Some ([c], cs)
      else (case splitLine cs of None \<Rightarrow> None | Some (l, rest) \<Rightarrow> Some (c # l, rest)))"

text \<open>
  \<^verbatim>\<open>reader.ReadString('\n')\<close>: the bytes up to and including the first line feed; when
  there is none, the bytes that are left together with the error.
\<close>

definition ReadString :: "reader \<Rightarrow> (string \<times> read_error option) \<times> reader" where
  "ReadString r =
     (case splitLine (pending r) of
        Some (line, rest) \<Rightarrow> ((line, None), r\<lparr>pending := rest\<rparr>)
      | None \<Rightarrow> ((pending r, Some (if closed r then afterClose r else ending r)), r\<lparr>pending := []\<rparr>))"

definition IndexByte :: "string \<Rightarrow> char \<Rightarrow> int" where
  "IndexByte s c = (if c \<in> set s then int (length (takeWhile (\<lambda>x. x \<noteq> c) s)) else - 1)"

text \<open>\<^verbatim>\<open>strings.TrimRight(s, "\n")\<close> drops every trailing line feed.\<close>

definition TrimRight :: "string \<Rightarrow> string" where
  "TrimRight s = rev (dropWhile (\<lambda>c. c = CHR 0x0A) (rev s))"

fun Contains :: "string \<Rightarrow> string \<Rightarrow> bool" where
  "Contains [] sub = (sub = [])"
| "Contains (c # cs) sub = (prefix sub (c # cs) \<or> Contains cs sub)"

text \<open>
  \<^verbatim>\<open>parseLogLine\<close>. The argument \<open>P\<close> is \<^verbatim>\<open>time.Parse(time.RFC3339Nano, _)\<close> of the
  standard library, \<open>None\<close> where it returns an error.
\<close>

definition parseLogLine :: "(string \<Rightarrow> time option) \<Rightarrow> string \<Rightarrow> string \<times> time \<times> bool" where
  "parseLogLine P line =
     (let tsEnd = IndexByte line CHR '' ''
      in if tsEnd > 0 then
           (case P (take (nat tsEnd) line) of
              Some ts \<Rightarrow> (TrimRight (drop (nat tsEnd + 1) line), ts, True)
            | None \<Rightarrow> (TrimRight line, 0, False))
         else (TrimRight line, 0, False))"

text \<open>
  A stand-in for \<^verbatim>\<open>time.Parse\<close> in the evaluations on concrete inputs below: a string of
  decimal digits is that number of nanoseconds, anything else is no time stamp.
\<close>

fun digitsValue :: "int \<Rightarrow> string \<Rightarrow> int option" where
  "digitsValue acc [] = Some acc"
| "digitsValue acc (c # cs) =
     (let d = (of_char c :: nat)
      in if 48 \<le> d \<and> d \<le> 57 then digitsValue (10 * acc + (int d - 48)) cs else None)"

definition parseDigits :: "string \<Rightarrow> time option" where
  "parseDigits str = (if str = [] then None else digitsValue 0 str)"

record log_request =
  Container :: string
  TailLines :: "int option"
  Previous :: bool
  SinceTime :: "time option"
  Timestamps :: bool
  Follow :: bool

record LogOptions =
  optTailLines :: "int option"
  optSinceTime :: "time option"
  optUntilTime :: "time option"
  optContainer :: string
  optPrevious :: bool
  optBatchSize :: int
  optMaxWaitTime :: duration

datatype signal = CtxDone | StopSignal | NoSignal

text \<open>
  What lies outside the log reader, each answer by the number of the call (from 0):
  \<open>openStream\<close> answers \<^verbatim>\<open>req.Stream(ctx)\<close> for a log request; \<open>refreshReply\<close> is the
  error of \<^verbatim>\<open>updatePodInfoIfNeeded\<close>, if any; \<open>poll\<close> is the case that the \<^verbatim>\<open>select\<close> at
  the head of the read loop takes; \<open>wait\<close> is the case that the \<^verbatim>\<open>select\<close> of the backoff
  takes, \<open>NoSignal\<close> when the delay runs out first; \<open>nowAt\<close> is \<^verbatim>\<open>time.Now()\<close>.
\<close>

record log_backend =
  openStream :: "nat \<Rightarrow> log_request \<Rightarrow> string + reader"
  refreshReply :: "nat \<Rightarrow> error option"
  poll :: "nat \<Rightarrow> signal"
  wait :: "nat \<Rightarrow> signal"
  nowAt :: "nat \<Rightarrow> time"

datatype message =
    PodInfoUnavailable error
  | InitFailed error
  | StoppedBySignal
  | ReachedUntilTime
  | RetriesExhausted int string
  | Reconnecting int int string
  | StoppedWhileWaiting
  | ReconnectFailed int int error
  | Reconnected
  | Unrecoverable string
  | ReadCanceled
  | RefreshBeforeReconnectFailed error
  | CatchUpReadError string
  | CatchUpFailed error

text \<open>\<^verbatim>\<open>callback(lines, "")\<close> is \<open>Lines lines\<close>; \<^verbatim>\<open>callback(nil, text)\<close> is \<open>Status text\<close>.\<close>

datatype callback = Lines "string list" | Status message

datatype log_event = Opened nat log_request | Closed nat | BackoffWait duration

record log_io =
  delivered :: "callback list"
  events :: "log_event list"
  streamCalls :: nat
  refreshCalls :: nat
  polls :: nat
  waits :: nat
  clockReads :: nat

definition log_io0 :: log_io where
  "log_io0 = \<lparr>delivered = [], events = [], streamCalls = 0, refreshCalls = 0, polls = 0,
              waits = 0, clockReads = 0\<rparr>"

definition call :: "callback \<Rightarrow> log_io \<Rightarrow> log_io" where
  "call cb io = io\<lparr>delivered := delivered io @ [cb]\<rparr>"

definition logEvent :: "log_event \<Rightarrow> log_io \<Rightarrow> log_io" where
  "logEvent ev io = io\<lparr>events := events io @ [ev]\<rparr>"

definition Now :: "log_backend \<Rightarrow> log_io \<Rightarrow> time \<times> log_io" where
  "Now be io = (nowAt be (clockReads io), io\<lparr>clockReads := Suc (clockReads io)\<rparr>)"

definition refreshPodInfo :: "log_backend \<Rightarrow> log_io \<Rightarrow> error option \<times> log_io" where
  "refreshPodInfo be io = (refreshReply be (refreshCalls io), io\<lparr>refreshCalls := Suc (refreshCalls io)\<rparr>)"

definition Stream :: "log_backend \<Rightarrow> log_request \<Rightarrow> log_io \<Rightarrow> (string + nat \<times> reader) \<times> log_io" where
  "Stream be opts io =
     (let n = streamCalls io; io' = io\<lparr>streamCalls := Suc n\<rparr>
      in case openStream be n opts of
           Inl msg \<Rightarrow> (Inl msg, io')
         | Inr rd \<Rightarrow> (Inr (n, rd), logEvent (Opened n opts) io'))"

text \<open>
  \<^verbatim>\<open>getStream\<close>: one request; when it fails, one forced refresh of the pod information
  and a second request. A stream is the number of the request that opened it and its
  reader.
\<close>

definition getStream :: "log_backend \<Rightarrow> log_request \<Rightarrow> log_io \<Rightarrow> (error + nat \<times> reader) \<times> log_io" where
  "getStream be opts io =
     (case Stream be opts io of
        (Inr st, io1) \<Rightarrow> (Inr st, io1)
      | (Inl msg, io1) \<Rightarrow>
          (case refreshPodInfo be io1 of
             (None, io2) \<Rightarrow>
               (case Stream be opts io2 of
                  (Inr st, io3) \<Rightarrow> (Inr st, io3)
                | (Inl msg', io3) \<Rightarrow> (Inl (StreamStillFailing msg'), io3))
           | (Some updateErr, io2) \<Rightarrow> (Inl (StreamAndUpdateFailed msg updateErr), io2)))"

lemma splitLine_shorter: "splitLine s = Some (l, rest) \<Longrightarrow> length rest < length s"
  by (induction s arbitrary: l rest) (auto split: if_splits option.splits)

lemma ReadString_shorter:
  "ReadString r = ((line, None), r') \<Longrightarrow> length (pending r') < length (pending r)"
  by (auto simp: ReadString_def split: option.splits dest: splitLine_shorter)

text \<open>
  The read loop of the one-shot mode, with \<^verbatim>\<open>logEntries\<close> as accumulator: the end of the
  stream ends the loop, any other error returns what was gathered with the error.
\<close>

function readEntries ::
    "(string \<Rightarrow> time option) \<Rightarrow> reader \<Rightarrow> string list \<Rightarrow> string list \<times> error option" where
  "readEntries P r logEntries =
     (case ReadString r of
        ((line, Some err), r') \<Rightarrow>
          if err = EOF then (logEntries, None)
          else (logEntries, Some (ReadLineFailed (errorText err)))
      | ((line, None), r') \<Rightarrow>
          if line \<noteq> [] then
            (case parseLogLine P line of
               (content, _, _) \<Rightarrow> readEntries P r' (logEntries @ [content]))
          else readEntries P r' logEntries)"
  by pat_completeness auto
termination
  apply (relation "measure (\<lambda>(P, r, logEntries). length (pending r))")
    apply simp
   apply (auto dest!: ReadString_shorter [OF sym])
  done

text \<open>
  The options of the first log request. \<open>defaultContainer\<close> is \<^verbatim>\<open>m.containerName\<close>;
  \<open>follow\<close> says whether a callback was given.
\<close>

definition podLogOptions :: "string \<Rightarrow> LogOptions \<Rightarrow> bool \<Rightarrow> log_request" where
  "podLogOptions defaultContainer options follow =
     \<lparr>Container = (if optContainer options = [] then defaultContainer else optContainer options),
      TailLines = optTailLines options,
      Previous = optPrevious options,
      SinceTime = optSinceTime options,
      Timestamps = True,
      Follow = follow\<rparr>"

text \<open>\<^verbatim>\<open>FetchLogs\<close> without a callback: the entries and the error that it returns.\<close>

definition FetchLogs ::
    "(string \<Rightarrow> time option) \<Rightarrow> log_backend \<Rightarrow> string \<Rightarrow> LogOptions \<Rightarrow> log_io
       \<Rightarrow> (string list \<times> error option) \<times> log_io" where
  "FetchLogs P be defaultContainer options io =
     (case refreshPodInfo be io of
        (Some err, io1) \<Rightarrow> (([], Some (UpdatePodInfoFailed err)), io1)
      | (None, io1) \<Rightarrow>
          (case getStream be (podLogOptions defaultContainer options False) io1 of
             (Inl err, io2) \<Rightarrow> (([], Some (InitStreamFailed err)), io2)
           | (Inr (h, rd), io2) \<Rightarrow> (readEntries P rd [], logEvent (Closed h) io2)))"

section \<open>Following a log stream\<close>

text \<open>
  One round of the catch-up loop of \<^verbatim>\<open>tryReconnect\<close>, after the read: the line is kept
  when its time stamp is later than \<^verbatim>\<open>latestTimestamp\<close> or when it has none; the batch is
  sent when it is full or when the read failed. The state is \<^verbatim>\<open>missedLogs\<close>,
  \<^verbatim>\<open>currentBatchLatestTimestamp\<close>, \<^verbatim>\<open>latestTimestamp\<close> and the callbacks made.
\<close>

definition catchUpLine ::
    "(string \<Rightarrow> time option) \<Rightarrow> int \<Rightarrow> string \<Rightarrow> bool \<Rightarrow> string list \<times> time \<times> time \<times> log_io
       \<Rightarrow> string list \<times> time \<times> time \<times> log_io" where
  "catchUpLine P batchSize line failed = (\<lambda>(missedLogs, batchLatest, latest, io).
     let (missed1, batch1) =
           (if line \<noteq> [] then
              (case parseLogLine P line of
                 (content, ts, ok) \<Rightarrow>
                   if ok \<and> latest < ts
                   then (missedLogs @ [content], if batchLatest < ts then ts else batchLatest)
                   else if \<not> ok then (missedLogs @ [content], batchLatest)
                   else (missedLogs, batchLatest))
            else (missedLogs, batchLatest))
     in if int (length missed1) \<ge> batchSize \<or> (failed \<and> length missed1 > 0)
        then ([], 0, if latest < batch1 then batch1 else latest, call (Lines missed1) io)
        else (missed1, batch1, latest, io))"

function catchUpLoop ::
    "(string \<Rightarrow> time option) \<Rightarrow> int \<Rightarrow> reader \<Rightarrow> string list \<times> time \<times> time \<times> log_io
       \<Rightarrow> time \<times> log_io" where
  "catchUpLoop P batchSize r acc =
     (case ReadString r of
        ((line, Some err), r') \<Rightarrow>
          (case catchUpLine P batchSize line True acc of
             (_, _, latest, io) \<Rightarrow>
               (latest, if err \<noteq> EOF then call (Status (CatchUpReadError (errorText err))) io else io))
      | ((line, None), r') \<Rightarrow> catchUpLoop P batchSize r' (catchUpLine P batchSize line False acc))"
  by pat_completeness auto
termination
  apply (relation "measure (\<lambda>(P, batchSize, r, acc). length (pending r))")
   apply simp
  apply (auto dest!: ReadString_shorter [OF sym])
  done

declare catchUpLoop.simps [simp del]

text \<open>
  The options of the catch-up query and of the new follow query of \<^verbatim>\<open>tryReconnect\<close>
  (\<^verbatim>\<open>catchUpOpts\<close> and \<^verbatim>\<open>followOpts\<close> there).
\<close>

definition catchUpOpts :: "log_request \<Rightarrow> time \<Rightarrow> log_request" where
  "catchUpOpts podLogOpts lastTimestamp =
     \<lparr>Container = Container podLogOpts, TailLines = None, Previous = Previous podLogOpts,
      SinceTime = Some (lastTimestamp + Nanosecond), Timestamps = True, Follow = False\<rparr>"

definition followOpts :: "log_request \<Rightarrow> LogOptions \<Rightarrow> time \<Rightarrow> log_request" where
  "followOpts podLogOpts options latestTimestamp =
     \<lparr>Container = Container podLogOpts, TailLines = None, Previous = Previous podLogOpts,
      SinceTime = (if latestTimestamp \<noteq> 0 then Some (latestTimestamp + Nanosecond)
                   else optSinceTime options),
      Timestamps = True, Follow = True\<rparr>"

text \<open>
  \<^verbatim>\<open>tryReconnect(lastTimestamp)\<close>: the forced refresh, the catch-up query from one
  nanosecond after \<open>lastTimestamp\<close>, and the new follow query from one nanosecond after
  the time stamp that the catch-up reached. The result is the new stream or the error,
  with that time stamp.
\<close>

definition tryReconnect ::
    "(string \<Rightarrow> time option) \<Rightarrow> log_backend \<Rightarrow> log_request \<Rightarrow> LogOptions \<Rightarrow> int \<Rightarrow> time \<Rightarrow> log_io
       \<Rightarrow> ((error + nat \<times> reader) \<times> time) \<times> log_io" where
  "tryReconnect P be podLogOpts options batchSize lastTimestamp io =
     (let io1 = (case refreshPodInfo be io of
                   (Some updateErr, io') \<Rightarrow> call (Status (RefreshBeforeReconnectFailed updateErr)) io'
                 | (None, io') \<Rightarrow> io');
          (latestTimestamp, io2) =
            (if lastTimestamp \<noteq> 0 then
               (case getStream be (catchUpOpts podLogOpts lastTimestamp) io1 of
                  (Inr (h, rd), io') \<Rightarrow>
                    (case catchUpLoop P batchSize rd ([], 0, lastTimestamp, io') of
                       (latest, io'') \<Rightarrow> (latest, logEvent (Closed h) io''))
                | (Inl catchUpErr, io') \<Rightarrow> (lastTimestamp, call (Status (CatchUpFailed catchUpErr)) io'))
             else (lastTimestamp, io1))
      in case getStream be (followOpts podLogOpts options latestTimestamp) io2 of
           (Inl err, io3) \<Rightarrow> ((Inl (FollowReconnectFailed err), latestTimestamp), io3)
         | (Inr st, io3) \<Rightarrow> ((Inr st, latestTimestamp), io3))"

text \<open>
  The variables of the streaming goroutine. \<open>currentStream\<close> is \<open>None\<close> when the
  variable is nil. \<open>fio\<close> holds the callbacks made and the calls to the outside so far.
\<close>

record follow_state =
  currentStream :: "nat option"
  currentReader :: reader
  buffer :: "string list"
  lastCallbackTime :: time
  lastLogTimestamp :: time
  retryCount :: int
  fio :: log_io

definition followMaxRetries :: int where "followMaxRetries = 5"
definition followRetryDelay :: duration where "followRetryDelay = 1 * Second"
definition followMaxRetryDelay :: duration where "followMaxRetryDelay = 30 * Second"

text \<open>
  How one round of the read loop ends: the loop goes on, the goroutine returns, or it
  panics.
\<close>

datatype step = Continue follow_state | Returned follow_state | Panicked follow_state

definition say :: "message \<Rightarrow> follow_state \<Rightarrow> follow_state" where
  "say msg st = st\<lparr>fio := call (Status msg) (fio st)\<rparr>"

text \<open>The deferred function of the goroutine closes the current stream unless it is nil.\<close>

definition finish :: "follow_state \<Rightarrow> step" where
  "finish st =
     (case currentStream st of
        None \<Rightarrow> Returned st
      | Some h \<Rightarrow> Returned (st\<lparr>currentReader := (currentReader st)\<lparr>closed := True\<rparr>,
                              fio := logEvent (Closed h) (fio st)\<rparr>))"

definition flushRest :: "follow_state \<Rightarrow> follow_state" where
  "flushRest st =
     (if length (buffer st) > 0 then st\<lparr>fio := call (Lines (buffer st)) (fio st)\<rparr> else st)"

definition untilPassed :: "log_backend \<Rightarrow> LogOptions \<Rightarrow> log_io \<Rightarrow> bool \<times> log_io" where
  "untilPassed be options io =
     (case optUntilTime options of
        None \<Rightarrow> (False, io)
      | Some u \<Rightarrow> (case Now be io of (t, io') \<Rightarrow> (u < t, io')))"

definition doFlush :: "log_backend \<Rightarrow> follow_state \<Rightarrow> follow_state" where
  "doFlush be st =
     (case Now be (call (Lines (buffer st)) (fio st)) of
        (t, io') \<Rightarrow> st\<lparr>buffer := [], lastCallbackTime := t, fio := io'\<rparr>)"

text \<open>
  The test that sends the buffer: it is full, or it is not empty and the last callback is
  older than \<^verbatim>\<open>maxWaitTime\<close>, or the read failed and it is not empty. The clock is read
  only where the source reaches \<^verbatim>\<open>time.Since\<close>.
\<close>

definition flushIfDue :: "log_backend \<Rightarrow> int \<Rightarrow> duration \<Rightarrow> bool \<Rightarrow> follow_state \<Rightarrow> follow_state" where
  "flushIfDue be batchSize maxWaitTime failed st =
     (if int (length (buffer st)) \<ge> batchSize then doFlush be st
      else if length (buffer st) > 0 then
        (case Now be (fio st) of
           (t, io') \<Rightarrow>
             if t - lastCallbackTime st > maxWaitTime \<or> failed
             then doFlush be (st\<lparr>fio := io'\<rparr>)
             else st\<lparr>fio := io'\<rparr>)
      else st)"

text \<open>
  \<^verbatim>\<open>time.Duration(math.Min(float64(retryDelay) * math.Pow(2, float64(retryCount-1)),
  float64(maxRetryDelay)))\<close>; a whole number of seconds times a power of two is exact in
  floating point.
\<close>

definition followBackoff :: "int \<Rightarrow> duration" where
  "followBackoff k = min (followRetryDelay * 2 ^ nat (k - 1)) followMaxRetryDelay"

definition isRetryableError :: "read_error \<Rightarrow> bool" where
  "isRetryableError readErr \<longleftrightarrow>
     readErr = Canceled \<or>
     Contains (errorText readErr) ''http2: response body closed'' \<or>
     Contains (errorText readErr) ''connection reset by peer'' \<or>
     Contains (errorText readErr) ''broken pipe'' \<or>
     Contains (errorText readErr) ''unexpected EOF''"

text \<open>The branch of the read loop for a read error that is not the end of the stream.\<close>

definition retryOrFail ::
    "(string \<Rightarrow> time option) \<Rightarrow> log_backend \<Rightarrow> log_request \<Rightarrow> LogOptions \<Rightarrow> int \<Rightarrow> read_error
       \<Rightarrow> follow_state \<Rightarrow> step" where
  "retryOrFail P be podLogOpts options batchSize readErr st =
     (if isRetryableError readErr \<and> readErr \<noteq> Canceled then
        if retryCount st \<ge> followMaxRetries
        then finish (say (RetriesExhausted (retryCount st) (errorText readErr)) st)
        else
          let st1 = say (Reconnecting (retryCount st + 1) followMaxRetries (errorText readErr))
                      (st\<lparr>retryCount := retryCount st + 1\<rparr>)
          in case currentStream st1 of
               None \<Rightarrow> Panicked st1
             | Some h \<Rightarrow>
                 let currentDelay = followBackoff (retryCount st1);
                     io2 = logEvent (BackoffWait currentDelay) (logEvent (Closed h) (fio st1));
                     st2 = st1\<lparr>currentStream := None,
                               currentReader := (currentReader st1)\<lparr>closed := True\<rparr>,
                               fio := io2\<lparr>waits := Suc (waits io2)\<rparr>\<rparr>
                 in case wait be (waits io2) of
                      CtxDone \<Rightarrow> finish st2
                    | StopSignal \<Rightarrow> finish (say StoppedWhileWaiting st2)
                    | NoSignal \<Rightarrow>
                        (case tryReconnect P be podLogOpts options batchSize
                                (lastLogTimestamp st2) (fio st2) of
                           ((Inl reconnectErr, _), io3) \<Rightarrow>
                             Continue (say (ReconnectFailed (retryCount st2) followMaxRetries reconnectErr)
                                         (st2\<lparr>fio := io3\<rparr>))
                         | ((Inr (h', rd'), updatedTimestamp), io3) \<Rightarrow>
                             let st3 = say Reconnected
                                         (st2\<lparr>currentStream := Some h', currentReader := rd',
                                              lastLogTimestamp := updatedTimestamp,
                                              retryCount := 0, fio := io3\<rparr>)
                             in (case Now be (fio st3) of
                                   (t, io4) \<Rightarrow> Continue (st3\<lparr>lastCallbackTime := t, fio := io4\<rparr>)))
      else finish (say (if readErr = Canceled then ReadCanceled
                        else Unrecoverable (errorText readErr)) st))"

definition handleReadError ::
    "(string \<Rightarrow> time option) \<Rightarrow> log_backend \<Rightarrow> log_request \<Rightarrow> LogOptions \<Rightarrow> int \<Rightarrow> read_error
       \<Rightarrow> follow_state \<Rightarrow> step" where
  "handleReadError P be podLogOpts options batchSize readErr st =
     (if readErr = EOF then
        (case untilPassed be options (fio st) of
           (True, io') \<Rightarrow> finish (say ReachedUntilTime (st\<lparr>fio := io'\<rparr>))
         | (False, io') \<Rightarrow>
             retryOrFail P be podLogOpts options batchSize
               (OtherError ''unexpected EOF, attempting reconnect'') (st\<lparr>fio := io'\<rparr>))
      else retryOrFail P be podLogOpts options batchSize readErr st)"

text \<open>The read of one line, the test for the callback and the handling of the error.\<close>

definition readStep ::
    "(string \<Rightarrow> time option) \<Rightarrow> log_backend \<Rightarrow> log_request \<Rightarrow> LogOptions \<Rightarrow> int \<Rightarrow> duration
       \<Rightarrow> follow_state \<Rightarrow> step" where
  "readStep P be podLogOpts options batchSize maxWaitTime st =
     (case ReadString (currentReader st) of
        ((line, readErr), r') \<Rightarrow>
          let st1 = st\<lparr>currentReader := r'\<rparr>;
              st2 = (if line \<noteq> [] then
                       (case parseLogLine P line of
                          (content, ts, ok) \<Rightarrow>
                            st1\<lparr>buffer := buffer st1 @ [content],
                                lastLogTimestamp :=
                                  (if ok \<and> lastLogTimestamp st1 < ts then ts
                                   else lastLogTimestamp st1)\<rparr>)
                     else st1);
              st3 = flushIfDue be batchSize maxWaitTime (readErr \<noteq> None) st2
          in case readErr of
               None \<Rightarrow> Continue (st3\<lparr>retryCount := 0\<rparr>)
             | Some err \<Rightarrow> handleReadError P be podLogOpts options batchSize err st3)"

text \<open>One round of \<^verbatim>\<open>readLoop\<close>, from the \<^verbatim>\<open>select\<close> at its head.\<close>

definition followStep ::
    "(string \<Rightarrow> time option) \<Rightarrow> log_backend \<Rightarrow> log_request \<Rightarrow> LogOptions \<Rightarrow> int \<Rightarrow> duration
       \<Rightarrow> follow_state \<Rightarrow> step" where
  "followStep P be podLogOpts options batchSize maxWaitTime st =
     (let io0 = fio st;
          st0 = st\<lparr>fio := io0\<lparr>polls := Suc (polls io0)\<rparr>\<rparr>
      in case poll be (polls io0) of
           CtxDone \<Rightarrow> finish (flushRest st0)
         | StopSignal \<Rightarrow> finish (say StoppedBySignal (flushRest st0))
         | NoSignal \<Rightarrow>
             (case untilPassed be options (fio st0) of
                (True, io1) \<Rightarrow> finish (flushRest (st0\<lparr>fio := io1\<rparr>))
              | (False, io1) \<Rightarrow>
                  readStep P be podLogOpts options batchSize maxWaitTime (st0\<lparr>fio := io1\<rparr>)))"

text \<open>
  The read loop may run for ever, so it is run for a number of rounds: \<open>Running\<close> is the
  state after that many rounds when the goroutine has not ended by then.
\<close>

datatype outcome = Running follow_state | Finished follow_state | Crashed follow_state

fun followLoop ::
    "nat \<Rightarrow> (string \<Rightarrow> time option) \<Rightarrow> log_backend \<Rightarrow> log_request \<Rightarrow> LogOptions \<Rightarrow> int \<Rightarrow> duration
       \<Rightarrow> follow_state \<Rightarrow> outcome" where
  "followLoop 0 P be podLogOpts options batchSize maxWaitTime st = Running st"
| "followLoop (Suc n) P be podLogOpts options batchSize maxWaitTime st =
     (case followStep P be podLogOpts options batchSize maxWaitTime st of
        Continue st' \<Rightarrow> followLoop n P be podLogOpts options batchSize maxWaitTime st'
      | Returned st' \<Rightarrow> Finished st'
      | Panicked st' \<Rightarrow> Crashed st')"

definition effectiveBatchSize :: "LogOptions \<Rightarrow> int" where
  "effectiveBatchSize options = (if optBatchSize options \<le> 0 then 10 else optBatchSize options)"

definition effectiveMaxWait :: "LogOptions \<Rightarrow> duration" where
  "effectiveMaxWait options = (if optMaxWaitTime options \<le> 0 then Second else optMaxWaitTime options)"

text \<open>
  \<^verbatim>\<open>FetchLogs\<close> with a callback, up to the start of the goroutine: the result is the
  state in which the goroutine enters its read loop, or the error with which the function
  fails before, which has gone to the callback as well.
\<close>

definition startFollow ::
    "log_backend \<Rightarrow> string \<Rightarrow> LogOptions \<Rightarrow> log_io \<Rightarrow> error \<times> log_io + follow_state" where
  "startFollow be defaultContainer options io =
     (case refreshPodInfo be io of
        (Some err, io1) \<Rightarrow>
          Inl (UpdatePodInfoFailed err, call (Status (PodInfoUnavailable err)) io1)
      | (None, io1) \<Rightarrow>
          (case getStream be (podLogOptions defaultContainer options True) io1 of
             (Inl err, io2) \<Rightarrow> Inl (InitStreamFailed err, call (Status (InitFailed err)) io2)
           | (Inr (h, rd), io2) \<Rightarrow>
               (case Now be io2 of
                  (t, io3) \<Rightarrow>
                    Inr \<lparr>currentStream = Some h, currentReader = rd, buffer = [],
                         lastCallbackTime = t,
                         lastLogTimestamp = (case optSinceTime options of
                                               Some t0 \<Rightarrow> t0 | None \<Rightarrow> 0),
                         retryCount = 0, fio = io3\<rparr>)))"

text \<open>\<^verbatim>\<open>FetchLogs\<close> with a callback, followed into its goroutine for \<open>n\<close> rounds of the read loop.\<close>

definition FetchLogsFollow ::
    "nat \<Rightarrow> (string \<Rightarrow> time option) \<Rightarrow> log_backend \<Rightarrow> string \<Rightarrow> LogOptions \<Rightarrow> log_io
       \<Rightarrow> error \<times> log_io + outcome" where
  "FetchLogsFollow n P be defaultContainer options io =
     (case startFollow be defaultContainer options io of
        Inl e \<Rightarrow> Inl e
      | Inr st \<Rightarrow>
          Inr (followLoop n P be (podLogOptions defaultContainer options True) options
                 (effectiveBatchSize options) (effectiveMaxWait options) st))"

section \<open>Notions used in the statements\<close>

text \<open>
  The invariant of the loop over the pods: the remembered pod is a Succeeded pod among
  those seen, the remembered time is its start time, and no Succeeded pod seen so far
  started later.
\<close>

definition latest_of :: "Pod set \<Rightarrow> Pod option \<Rightarrow> time \<Rightarrow> bool" where
  "latest_of seen latest t \<longleftrightarrow>
     (case latest of
        None \<Rightarrow> (\<forall>q\<in>seen. Phase q \<noteq> PodSucceeded)
      | Some r \<Rightarrow> r \<in> seen \<and> Phase r = PodSucceeded \<and> StartTime r = Some t \<and>
                 (\<forall>q\<in>seen. \<forall>u. Phase q = PodSucceeded \<and> StartTime q = Some u \<longrightarrow> u \<le> t))"

text \<open>
  The pod that the specification asks for: the first Running pod; when there is none, a
  Succeeded pod that no Succeeded pod started after; when there is none either, the first
  pod of the list.
\<close>

definition chosen :: "Pod list \<Rightarrow> Pod \<Rightarrow> bool" where
  "chosen items r \<longleftrightarrow>
     (case find (\<lambda>p. Phase p = PodRunning) items of
        Some p \<Rightarrow> r = p
      | None \<Rightarrow>
          if \<exists>p\<in>set items. Phase p = PodSucceeded
          then r \<in> set items \<and> Phase r = PodSucceeded \<and>
               (\<forall>q\<in>set items. Phase q = PodSucceeded \<longrightarrow> the (StartTime q) \<le> the (StartTime r))
          else r = hd items)"


text \<open>
  The events of a run that the retry protocol consists of: the commands sent, the sleeps
  and the clients made for a reconnect.
\<close>

fun isRetryEvent :: "event \<Rightarrow> bool" where
  "isRetryEvent (ClientCommand _) = True"
| "isRetryEvent (Sleep _) = True"
| "isRetryEvent (NewClient _ _) = True"
| "isRetryEvent _ = False"

text \<open>
  The retry events of the rounds from \<open>k\<close> on when the command fails in each of them and
  \<open>n\<close> retries are left: after each failure but the last, the sleep and the new client.
\<close>

fun retryRounds :: "rconExecutor \<Rightarrow> string \<Rightarrow> nat \<Rightarrow> nat \<Rightarrow> event list" where
  "retryRounds e cmd k 0 = [ClientCommand cmd]"
| "retryRounds e cmd k (Suc n) =
     ClientCommand cmd # Sleep (retryBackoff e k) # NewClient (rc_serverIP e) (rc_port e) #
     retryRounds e cmd (Suc k) n"

text \<open>Whether the registry lock is held after the events \<open>t\<close>, from \<open>held\<close> before them.\<close>

fun lockAfter :: "bool \<Rightarrow> event list \<Rightarrow> bool" where
  "lockAfter held [] = held"
| "lockAfter held (RegistryLock # t) = lockAfter True t"
| "lockAfter held (RegistryUnlock # t) = lockAfter False t"
| "lockAfter held (_ # t) = lockAfter held t"

text \<open>A registry has each key once, and each session under its own identifier.\<close>

definition registry :: "sessionManager \<Rightarrow> bool" where
  "registry sm \<longleftrightarrow> distinct (map fst sm) \<and> (\<forall>(k, v)\<in>set sm. session_id v = k)"

text \<open>
  A log line as the API server writes it when time stamps are asked for: the time stamp,
  a space, the message and a line feed.
\<close>

definition stamped :: "string \<times> string \<Rightarrow> string" where
  "stamped = (\<lambda>(ts, msg). ts @ CHR '' '' # msg @ [CHR 0x0A])"

text \<open>
  The time stamp is one that \<open>P\<close> reads, and neither part holds a line feed.
\<close>

definition wellStamped :: "(string \<Rightarrow> time option) \<Rightarrow> string \<times> string \<Rightarrow> bool" where
  "wellStamped P = (\<lambda>(ts, msg). ts \<noteq> [] \<and> CHR '' '' \<notin> set ts \<and> CHR 0x0A \<notin> set ts \<and>
                                  CHR 0x0A \<notin> set msg \<and> P ts \<noteq> None)"

text \<open>
  The strings that successive \<^verbatim>\<open>ReadString\<close> calls yield from a byte string: each line
  with its line feed, and the bytes after the last line feed when there are any. The
  first argument holds the bytes of the line begun.
\<close>

fun rawLines :: "string \<Rightarrow> string \<Rightarrow> string list" where
  "rawLines acc [] = (if acc = [] then [] else [acc])"
| "rawLines acc (c # cs) =
     (if c = CHR 0x0A then (acc @ [c]) # rawLines [] cs else rawLines (acc @ [c]) cs)"

text \<open>The lines that the callbacks \<open>cbs\<close> deliver, in order.\<close>

fun linesOf :: "callback \<Rightarrow> string list" where
  "linesOf (Lines ls) = ls"
| "linesOf (Status _) = []"

text \<open>A line passes the cursor when it has no time stamp or a time stamp after the cursor.\<close>

definition passes :: "(string \<Rightarrow> time option) \<Rightarrow> time \<Rightarrow> string \<Rightarrow> bool" where
  "passes P cursor line = (case parseLogLine P line of (_, ts, ok) \<Rightarrow> ok \<longrightarrow> cursor < ts)"

text \<open>The latest of the cursor and the time stamps of the lines.\<close>

definition latestOf :: "(string \<Rightarrow> time option) \<Rightarrow> time \<Rightarrow> string list \<Rightarrow> time" where
  "latestOf P cursor ls =
     fold (\<lambda>line m. case parseLogLine P line of (_, ts, ok) \<Rightarrow> if ok \<and> m < ts then ts else m) ls cursor"

text \<open>The waits before the reconnect attempts of a run, in their order.\<close>

fun backoffs :: "log_event list \<Rightarrow> duration list" where
  "backoffs [] = []"
| "backoffs (BackoffWait d # evs) = d # backoffs evs"
| "backoffs (e # evs) = backoffs evs"

text \<open>
  The states in which the read loop starts a round: with a stream the counter is zero, and
  without one, which is so after a reconnect attempt that failed, the counter is one and
  the reader has nothing buffered.
\<close>

definition roundStart :: "follow_state \<Rightarrow> bool" where
  "roundStart st \<longleftrightarrow>
     (case currentStream st of
        Some h \<Rightarrow> retryCount st = 0
      | None \<Rightarrow> retryCount st = 1 \<and> pending (currentReader st) = [])"
section \<open>Concrete inputs\<close>

definition pods0 :: "Pod list" where
  "pods0 = [\<lparr>Name = ''a'', Phase = PodPending, PodIP = ''10.0.0.1'', StartTime = None\<rparr>,
            \<lparr>Name = ''b'', Phase = PodSucceeded, PodIP = ''10.0.0.2'', StartTime = Some 5\<rparr>,
            \<lparr>Name = ''c'', Phase = PodSucceeded, PodIP = ''10.0.0.3'', StartTime = Some 9\<rparr>,
            \<lparr>Name = ''d'', Phase = PodFailed, PodIP = ''10.0.0.4'', StartTime = Some 7\<rparr>]"

definition api0 :: k8s_api where
  "api0 = \<lparr>listPods = Inr pods0, listServices = Inl ''none''\<rparr>"

definition m0 :: MinecraftController where
  "m0 = \<lparr>namespace = ''mc'', podLabelSelector = ''app=minecraft'', containerName = ''server'',
         currentPodName = [], serviceLabelSelector = [], serverIP = [], lastPodInfoUpdate = 0,
         podInfoUpdateInterval = 5 * Minute, gamePort = 25565, rconPort = 0, rconPassword = [],
         status = \<lparr>StatusPodName = [], StatusPodStatus = PodUnknown, StatusClusterIP = [],
                   StatusExternalIP = []\<rparr>\<rparr>"

definition remoteBoth :: cluster where
  "remoteBoth = \<lparr>newSPDYExecutor = None,
     execStream = (\<lambda>ns pod c command t. \<lparr>stdout = ''out'', stderr = ''warn'', streamErr = None\<rparr>),
     attachStream = (\<lambda>ns pod c input t. None)\<rparr>"

definition remoteErrOnly :: cluster where
  "remoteErrOnly = \<lparr>newSPDYExecutor = None,
     execStream = (\<lambda>ns pod c command t.
        if t = 30 * Second then \<lparr>stdout = [], stderr = ''not found'', streamErr = None\<rparr>
        else \<lparr>stdout = ''late'', stderr = [], streamErr = None\<rparr>),
     attachStream = (\<lambda>ns pod c input t. None)\<rparr>"

definition rejectingServer :: rcon_server where
  "rejectingServer = \<lparr>connectReply = (\<lambda>n. None),
                       authReply = (\<lambda>n password. Inr (password = ''secret'')),
                       commandReply = (\<lambda>n cmd. Inr ''ok'')\<rparr>"

definition io0 :: io where
  "io0 = \<lparr>trace = [], clock = 1700000000 * Second\<rparr>"

definition failingServer :: rcon_server where
  "failingServer = \<lparr>connectReply = (\<lambda>n. if n = 0 then None else Some ''connection refused''),
                     authReply = (\<lambda>n password. Inr True),
                     commandReply = (\<lambda>n cmd. Inl (if n < 5 then ''i/o timeout'' else ''broken pipe''))\<rparr>"

definition establishedExecutor :: rconExecutor where
  "establishedExecutor =
     (newRconExecutor ''10.0.0.3'' 25575 ''secret'')
       \<lparr>hasClient := True, connected := True, authenticated := True\<rparr>"

definition runningApi :: k8s_api where
  "runningApi = \<lparr>listPods = Inr [\<lparr>Name = ''mc-0'', Phase = PodRunning, PodIP = ''10.0.0.7'',
                                      StartTime = Some (1600000000 * Second)\<rparr>],
                  listServices = Inr []\<rparr>"

definition noRconWorld :: world where
  "noRconWorld = \<lparr>k8s = runningApi, rconServer = rejectingServer, k8sRemote = remoteBoth\<rparr>"

definition mNoContainer :: MinecraftController where
  "mNoContainer = m0\<lparr>containerName := []\<rparr>"

definition mRefreshed :: MinecraftController where
  "mRefreshed = mNoContainer\<lparr>currentPodName := ''mc-0'', serverIP := ''10.0.0.7'',
     status := \<lparr>StatusPodName = ''mc-0'', StatusPodStatus = PodRunning,
                StatusClusterIP = ''10.0.0.7'', StatusExternalIP = []\<rparr>,
     lastPodInfoUpdate := 1700000000 * Second\<rparr>"

definition sessions0 :: sessionManager where
  "sessions0 =
     [(''s1'', \<lparr>session_id = ''s1'', executor = Rcon establishedExecutor, executorType = ExecutorRcon,
               lastUsed = 1700000000 * Second - 11 * Minute, idleTimeout = 10 * Minute\<rparr>),
      (''s2'', \<lparr>session_id = ''s2'', executor = Exec (newExecExecutor ''mc'' ''mc-0'' ''server''),
               executorType = ExecutorExec,
               lastUsed = 1700000000 * Second - 10 * Minute, idleTimeout = 10 * Minute\<rparr>)]"

definition fiftyLines :: reader where
  "fiftyLines = \<lparr>pending = concat (replicate 50 (stamped (''1700000000'', ''[Server thread/INFO]: Done''))),
                  ending = EOF, afterClose = OtherError ''http2: response body closed'',
                  closed = False\<rparr>"

definition fiftyBackend :: log_backend where
  "fiftyBackend = \<lparr>openStream = (\<lambda>n req. if TailLines req = Some 50 \<and> \<not> Follow req
                                            then Inr fiftyLines else Inl ''bad request''),
                    refreshReply = (\<lambda>n. None), poll = (\<lambda>n. NoSignal), wait = (\<lambda>n. NoSignal),
                    nowAt = (\<lambda>n. 1700000000 * Second)\<rparr>"

definition tail50 :: LogOptions where
  "tail50 = \<lparr>optTailLines = Some 50, optSinceTime = None, optUntilTime = None, optContainer = [],
              optPrevious = False, optBatchSize = 0, optMaxWaitTime = 0\<rparr>"

definition forwarded :: "callback list \<Rightarrow> string list" where
  "forwarded cbs = concat (map linesOf cbs)"

definition serverLog :: "(string \<times> time \<times> string) list" where
  "serverLog = [(''1700000000500000000'', 1700000000500000000, ''a''),
                (''1700000000700000000'', 1700000000700000000, ''b'')]"

definition secondGranular :: log_backend where
  "secondGranular =
     \<lparr>openStream = (\<lambda>n req. Inr
        \<lparr>pending = concat (map (\<lambda>(ts, t, msg). stamped (ts, msg))
                       (filter (\<lambda>(ts, t, msg). case SinceTime req of
                                   None \<Rightarrow> True
                                 | Some since \<Rightarrow> (since div Second) * Second \<le> t) serverLog)),
         ending = EOF, afterClose = OtherError ''http2: response body closed'', closed = False\<rparr>),
      refreshReply = (\<lambda>n. None), poll = (\<lambda>n. NoSignal), wait = (\<lambda>n. NoSignal),
      nowAt = (\<lambda>n. 1700000001 * Second)\<rparr>"

definition caughtUp :: reader where
  "caughtUp = \<lparr>pending = stamped (''1700000000500000000'', ''a'') @ stamped (''1700000000700000000'', ''b''),
                ending = EOF, afterClose = OtherError ''http2: response body closed'',
                closed = False\<rparr>"

definition followAll :: LogOptions where
  "followAll = \<lparr>optTailLines = Some 50, optSinceTime = None, optUntilTime = None,
                 optContainer = [], optPrevious = False, optBatchSize = 0, optMaxWaitTime = 0\<rparr>"

definition followEach :: LogOptions where
  "followEach = \<lparr>optTailLines = Some 50, optSinceTime = None, optUntilTime = None,
                  optContainer = [], optPrevious = False, optBatchSize = 1, optMaxWaitTime = 0\<rparr>"

definition firstRequest :: log_request where
  "firstRequest = \<lparr>Container = ''server'', TailLines = Some 50, Previous = False,
                    SinceTime = None, Timestamps = True, Follow = True\<rparr>"

definition drained :: follow_state where
  "drained =
     \<lparr>currentStream = Some 0,
      currentReader = \<lparr>pending = [], ending = EOF,
                        afterClose = OtherError ''http2: response body closed'', closed = False\<rparr>,
      buffer = [], lastCallbackTime = 1700000001000000000,
      lastLogTimestamp = 1700000000700000000, retryCount = 0,
      fio = \<lparr>delivered = [Lines [''a''], Lines [''b'']],
              events = [Opened 0 firstRequest],
              streamCalls = 1, refreshCalls = 1, polls = 2, waits = 0, clockReads = 3\<rparr>\<rparr>"

definition reconnected :: follow_state where
  "reconnected =
     \<lparr>currentStream = Some 2, currentReader = caughtUp,
      buffer = [], lastCallbackTime = 1700000001000000000,
      lastLogTimestamp = 1700000000700000000, retryCount = 0,
      fio = \<lparr>delivered = [Lines [''a''], Lines [''b''],
                           Status (Reconnecting 1 5 ''unexpected EOF, attempting reconnect''),
                           Status Reconnected],
              events = [Opened 0 firstRequest, Closed 0, BackoffWait 1000000000,
                        Opened 1 (catchUpOpts firstRequest 1700000000700000000), Closed 1,
                        Opened 2 (followOpts firstRequest followEach 1700000000700000000)],
              streamCalls = 3, refreshCalls = 2, polls = 3, waits = 1, clockReads = 4\<rparr>\<rparr>"

definition redelivered :: follow_state where
  "redelivered =
     reconnected\<lparr>currentReader := caughtUp\<lparr>pending := stamped (''1700000000700000000'', ''b'')\<rparr>,
                  fio := (fio reconnected)\<lparr>delivered := delivered (fio reconnected) @ [Lines [''a'']],
                                           polls := 4, clockReads := 5\<rparr>\<rparr>"

definition oneLine :: reader where
  "oneLine = \<lparr>pending = stamped (''1700000000500000000'', ''Done''), ending = EOF,
               afterClose = OtherError ''http2: response body closed'', closed = False\<rparr>"

definition lostBackend :: log_backend where
  "lostBackend = \<lparr>openStream = (\<lambda>n req. if n = 0 then Inr oneLine else Inl ''connection refused''),
                   refreshReply = (\<lambda>n. None), poll = (\<lambda>n. NoSignal), wait = (\<lambda>n. NoSignal),
                   nowAt = (\<lambda>n. 1700000001 * Second)\<rparr>"

definition lineDelivered :: follow_state where
  "lineDelivered =
     \<lparr>currentStream = Some 0,
      currentReader = \<lparr>pending = [], ending = EOF,
                        afterClose = OtherError ''http2: response body closed'', closed = False\<rparr>,
      buffer = [], lastCallbackTime = 1700000001000000000,
      lastLogTimestamp = 1700000000500000000, retryCount = 0,
      fio = \<lparr>delivered = [Lines [''Done'']],
              events = [Opened 0 firstRequest],
              streamCalls = 1, refreshCalls = 1, polls = 1, waits = 0, clockReads = 2\<rparr>\<rparr>"

definition refused :: follow_state where
  "refused =
     \<lparr>currentStream = None,
      currentReader = \<lparr>pending = [], ending = EOF,
                        afterClose = OtherError ''http2: response body closed'', closed = True\<rparr>,
      buffer = [], lastCallbackTime = 1700000001000000000,
      lastLogTimestamp = 1700000000500000000, retryCount = 1,
      fio = \<lparr>delivered = [Lines [''Done''],
                           Status (Reconnecting 1 5 ''unexpected EOF, attempting reconnect''),
                           Status (CatchUpFailed (StreamStillFailing ''connection refused'')),
                           Status (ReconnectFailed 1 5
                                     (FollowReconnectFailed (StreamStillFailing ''connection refused'')))],
              events = [Opened 0 firstRequest, Closed 0, BackoffWait 1000000000],
              streamCalls = 5, refreshCalls = 4, polls = 2, waits = 1, clockReads = 2\<rparr>\<rparr>"

definition dereferenced :: follow_state where
  "dereferenced =
     \<lparr>currentStream = None,
      currentReader = \<lparr>pending = [], ending = EOF,
                        afterClose = OtherError ''http2: response body closed'', closed = True\<rparr>,
      buffer = [], lastCallbackTime = 1700000001000000000,
      lastLogTimestamp = 1700000000500000000, retryCount = 2,
      fio = \<lparr>delivered = [Lines [''Done''],
                           Status (Reconnecting 1 5 ''unexpected EOF, attempting reconnect''),
                           Status (CatchUpFailed (StreamStillFailing ''connection refused'')),
                           Status (ReconnectFailed 1 5
                                     (FollowReconnectFailed (StreamStillFailing ''connection refused''))),
                           Status (Reconnecting 2 5 ''http2: response body closed'')],
              events = [Opened 0 firstRequest, Closed 0, BackoffWait 1000000000],
              streamCalls = 5, refreshCalls = 4, polls = 3, waits = 1, clockReads = 2\<rparr>\<rparr>"

definition emptyStream :: reader where
  "emptyStream = \<lparr>pending = [], ending = EOF,
                   afterClose = OtherError ''http2: response body closed'', closed = False\<rparr>"

definition endingBackend :: log_backend where
  "endingBackend = \<lparr>openStream = (\<lambda>n req. Inr emptyStream),
                     refreshReply = (\<lambda>n. None), poll = (\<lambda>n. NoSignal), wait = (\<lambda>n. NoSignal),
                     nowAt = (\<lambda>n. 1700000001 * Second)\<rparr>"

definition endedOnce :: follow_state where
  "endedOnce =
     \<lparr>currentStream = Some 1, currentReader = emptyStream,
      buffer = [], lastCallbackTime = 1700000001000000000,
      lastLogTimestamp = 0, retryCount = 0,
      fio = \<lparr>delivered = [Status (Reconnecting 1 5 ''unexpected EOF, attempting reconnect''),
                           Status Reconnected],
              events = [Opened 0 firstRequest, Closed 0, BackoffWait 1000000000,
                        Opened 1 (followOpts firstRequest followEach 0)],
              streamCalls = 2, refreshCalls = 2, polls = 1, waits = 1, clockReads = 2\<rparr>\<rparr>"

definition endedTwice :: follow_state where
  "endedTwice =
     \<lparr>currentStream = Some 2, currentReader = emptyStream,
      buffer = [], lastCallbackTime = 1700000001000000000,
      lastLogTimestamp = 0, retryCount = 0,
      fio = \<lparr>delivered = [Status (Reconnecting 1 5 ''unexpected EOF, attempting reconnect''),
                           Status Reconnected,
                           Status (Reconnecting 1 5 ''unexpected EOF, attempting reconnect''),
                           Status Reconnected],
              events = [Opened 0 firstRequest, Closed 0, BackoffWait 1000000000,
                        Opened 1 (followOpts firstRequest followEach 0),
                        Closed 1, BackoffWait 1000000000,
                        Opened 2 (followOpts firstRequest followEach 0)],
              streamCalls = 3, refreshCalls = 3, polls = 2, waits = 2, clockReads = 3\<rparr>\<rparr>"

section \<open>Pod selection\<close>

lemma scanPods_running:
  assumes "\<forall>p\<in>set items. Phase p = PodSucceeded \<longrightarrow> StartTime p \<noteq> None"
    and "find (\<lambda>p. Phase p = PodRunning) items = Some r"
  shows "\<exists>l. scanPods items latest t = Inr (Some r, l)"
  using assms
  by (induction items arbitrary: latest t) (auto split: if_splits option.splits)

lemma scanPods_no_running:
  assumes "\<forall>p\<in>set items. Phase p = PodSucceeded \<longrightarrow> StartTime p \<noteq> None"
    and "find (\<lambda>p. Phase p = PodRunning) items = None"
  shows "\<exists>l. scanPods items latest t = Inr (None, l)"
  using assms
  by (induction items arbitrary: latest t) (auto split: if_splits option.splits)

lemma scanPods_latest:
  assumes "latest_of seen latest t"
    and "scanPods items latest t = Inr (None, l)"
  shows "\<exists>t'. latest_of (seen \<union> set items) l t'"
  using assms
proof (induction items arbitrary: seen latest t)
  case Nil
  then show ?case by auto
next
  case (Cons p ps)
  show ?case
  proof (cases "Phase p = PodSucceeded")
    case False
    with Cons.prems have run: "scanPods ps latest t = Inr (None, l)"
      by (auto split: if_splits)
    from False Cons.prems(1) have "latest_of (insert p seen) latest t"
      by (auto simp: latest_of_def split: option.splits)
    from Cons.IH [OF this run] show ?thesis by simp
  next
    case True
    with Cons.prems(2) obtain st where st: "StartTime p = Some st"
      by (auto split: option.splits)
    show ?thesis
    proof (cases "latest = None \<or> t < st")
      case True
      with \<open>Phase p = PodSucceeded\<close> st Cons.prems(2)
      have run: "scanPods ps (Some p) st = Inr (None, l)"
        by (auto split: if_splits)
      from True \<open>Phase p = PodSucceeded\<close> st Cons.prems(1)
      have "latest_of (insert p seen) (Some p) st"
        by (fastforce simp: latest_of_def split: option.splits)
      from Cons.IH [OF this run] show ?thesis by simp
    next
      case False
      with \<open>Phase p = PodSucceeded\<close> st Cons.prems(2)
      have run: "scanPods ps latest t = Inr (None, l)"
        by (auto split: if_splits)
      from False \<open>Phase p = PodSucceeded\<close> st Cons.prems(1)
      have "latest_of (insert p seen) latest t"
        by (fastforce simp: latest_of_def split: option.splits)
      from Cons.IH [OF this run] show ?thesis by simp
    qed
  qed
qed

lemma selectPod_empty: "selectPod sel [] = Inl (NoPodFound sel)"
  by (simp add: selectPod_def)

lemma selectPod_running:
  assumes "\<forall>p\<in>set items. Phase p = PodSucceeded \<longrightarrow> StartTime p \<noteq> None"
    and "find (\<lambda>p. Phase p = PodRunning) items = Some r"
  shows "selectPod sel items = Inr r"
proof -
  from scanPods_running [OF assms] obtain l where "scanPods items None 0 = Inr (Some r, l)"
    by blast
  moreover from assms(2) have "items \<noteq> []" by auto
  ultimately show ?thesis by (auto simp: selectPod_def split: list.splits)
qed

lemma selectPod_succeeded:
  assumes wf: "\<forall>p\<in>set items. Phase p = PodSucceeded \<longrightarrow> StartTime p \<noteq> None"
    and nr: "find (\<lambda>p. Phase p = PodRunning) items = None"
    and ex: "\<exists>p\<in>set items. Phase p = PodSucceeded"
  shows "\<exists>r. selectPod sel items = Inr r \<and> r \<in> set items \<and> Phase r = PodSucceeded \<and>
           (\<forall>q\<in>set items. Phase q = PodSucceeded \<longrightarrow> the (StartTime q) \<le> the (StartTime r))"
proof -
  from scanPods_no_running [OF wf nr] obtain l where run: "scanPods items None 0 = Inr (None, l)"
    by blast
  have "latest_of {} None 0" by (simp add: latest_of_def)
  from scanPods_latest [OF this run] obtain t' where inv: "latest_of (set items) l t'" by auto
  with ex obtain r where l: "l = Some r" by (cases l) (auto simp: latest_of_def)
  from inv l have r: "r \<in> set items" "Phase r = PodSucceeded" "StartTime r = Some t'"
    and le: "\<forall>q\<in>set items. \<forall>u. Phase q = PodSucceeded \<and> StartTime q = Some u \<longrightarrow> u \<le> t'"
    by (auto simp: latest_of_def)
  from ex have "items \<noteq> []" by auto
  with run l have "selectPod sel items = Inr r"
    by (auto simp: selectPod_def split: list.splits)
  moreover from wf le r have "\<forall>q\<in>set items. Phase q = PodSucceeded \<longrightarrow> the (StartTime q) \<le> the (StartTime r)"
    by fastforce
  ultimately show ?thesis using r by blast
qed

lemma scanPods_neither:
  assumes "\<forall>p\<in>set items. Phase p \<noteq> PodRunning \<and> Phase p \<noteq> PodSucceeded"
  shows "scanPods items latest t = Inr (None, latest)"
  using assms by (induction items arbitrary: latest t) auto

lemma selectPod_first:
  assumes "items \<noteq> []" and "\<forall>p\<in>set items. Phase p \<noteq> PodRunning \<and> Phase p \<noteq> PodSucceeded"
  shows "selectPod sel items = Inr (hd items)"
  using assms scanPods_neither [OF assms(2), of None 0]
  by (auto simp: selectPod_def split: list.splits)

lemma selectPod_chosen:
  assumes wf: "\<forall>p\<in>set items. Phase p = PodSucceeded \<longrightarrow> StartTime p \<noteq> None"
    and ne: "items \<noteq> []"
  shows "\<exists>r. selectPod sel items = Inr r \<and> chosen items r"
proof (cases "find (\<lambda>p. Phase p = PodRunning) items")
  case (Some p)
  with selectPod_running [OF wf Some] show ?thesis by (simp add: chosen_def)
next
  case None
  show ?thesis
  proof (cases "\<exists>p\<in>set items. Phase p = PodSucceeded")
    case True
    from selectPod_succeeded [OF wf None True, of sel] True None show ?thesis
      by (auto simp: chosen_def)
  next
    case False
    from None have "\<forall>p\<in>set items. Phase p \<noteq> PodRunning" by (simp add: find_None_iff)
    with False have "\<forall>p\<in>set items. Phase p \<noteq> PodRunning \<and> Phase p \<noteq> PodSucceeded" by blast
    from selectPod_first [OF ne this, of sel] None False show ?thesis
      by (auto simp: chosen_def)
  qed
qed

text \<open>
  C4. The pods listed under the selector are \<open>items\<close>, each Succeeded pod with its start
  time. For the empty list the refresh fails with the error that no pod matches and
  leaves the controller as it was. Otherwise it succeeds and the pod it records is the
  first Running pod; when no pod is Running, a Succeeded pod with the latest start time;
  when no pod is Succeeded either, the first pod of the list.
\<close>

theorem findAndUpdatePodInfo_selection:
  assumes "listPods api = Inr items"
    and "\<forall>p\<in>set items. Phase p = PodSucceeded \<longrightarrow> StartTime p \<noteq> None"
  shows "case findAndUpdatePodInfo api now m of
           (err, m') \<Rightarrow>
             if items = [] then err = Some (NoPodFound (podLabelSelector m)) \<and> m' = m
             else err = None \<and>
                  (\<exists>r. chosen items r \<and> currentPodName m' = Name r \<and> serverIP m' = PodIP r)"
proof (cases "items = []")
  case True
  with assms(1) show ?thesis by (simp add: findAndUpdatePodInfo_def selectPod_def)
next
  case False
  from selectPod_chosen [OF assms(2) False, of "podLabelSelector m"]
  obtain r where "selectPod (podLabelSelector m) items = Inr r" "chosen items r" by blast
  with assms(1) False show ?thesis
    by (auto simp: findAndUpdatePodInfo_def Let_def split: sum.splits)
qed

theorem findAndUpdatePodInfo_selection_witness:
  "listPods api0 = Inr pods0 \<and> fst (findAndUpdatePodInfo api0 100 m0) = None \<and>
   currentPodName (snd (findAndUpdatePodInfo api0 100 m0)) = ''c''"
proof -
  have a: "listPods api0 = Inr pods0" by (simp add: api0_def)
  have b: "\<forall>p\<in>set pods0. Phase p = PodSucceeded \<longrightarrow> StartTime p \<noteq> None"
    by (simp add: pods0_def)
  have c: "\<And>r. chosen pods0 r \<Longrightarrow> Name r = ''c''"
    by (auto simp: chosen_def pods0_def)
  from findAndUpdatePodInfo_selection [OF a b, where now = 100 and m = m0] a c show ?thesis
    by (auto simp: pods0_def split: prod.splits if_splits)
qed

section \<open>The exec executor\<close>

text \<open>
  C9, as the code has it. An executor made by \<^verbatim>\<open>newExecExecutor\<close> runs its command with
  a timeout of 30 seconds, whichever way \<^verbatim>\<open>SetUseProcessFd\<close> has set it. When the remote
  call succeeds, the way through the standard input of process 1 (the default) returns
  the standard error whenever that is not empty, and the standard output otherwise; the
  direct way returns the standard error when the standard output is empty and the
  standard error is not, and the standard output otherwise.
\<close>

theorem execExecutor_output:
  assumes "newSPDYExecutor cl = None"
    and "e = SetUseProcessFd fd (newExecExecutor ns pod c)"
    and "r = execStream cl ns pod c [''sh'', ''-c'', if fd then echoCmd cmd else cmd] (30 * Second)"
    and "streamErr r = None"
  shows "timeout e = 30 * Second \<and>
         execExecutor_ExecuteCommand cl cmd e =
           Inr (if fd then (if stderr r \<noteq> [] then stderr r else stdout r)
                else (if stdout r = [] \<and> stderr r \<noteq> [] then stderr r else stdout r))"
  using assms
  by (auto simp: execExecutor_ExecuteCommand_def executeViaProcessFd_def executeViaDirectExec_def
      SetUseProcessFd_def newExecExecutor_def Let_def)

theorem execExecutor_output_witness:
  "execExecutor_ExecuteCommand remoteErrOnly ''list''
     (SetUseProcessFd False (newExecExecutor ''mc'' ''mc-0'' ''server'')) = Inr ''not found''"
proof -
  have "newSPDYExecutor remoteErrOnly = None" by (simp add: remoteErrOnly_def)
  from execExecutor_output [OF this refl refl, where fd = False and ns = "''mc''"
      and pod = "''mc-0''" and c = "''server''" and cmd = "''list''"]
  show ?thesis by (simp add: remoteErrOnly_def)
qed

text \<open>
  C9 as stated fails on the default way: with both buffers filled the code returns the
  standard error, not the standard output.
\<close>

theorem execExecutor_stderr_counterexample:
  "stdout (execStream remoteBoth ''mc'' ''mc-0'' ''server'' [''sh'', ''-c'', echoCmd ''list''] (30 * Second)) = ''out'' \<and>
   execExecutor_ExecuteCommand remoteBoth ''list'' (newExecExecutor ''mc'' ''mc-0'' ''server'') = Inr ''warn''"
  by (simp add: remoteBoth_def execExecutor_ExecuteCommand_def executeViaProcessFd_def
      newExecExecutor_def)

section \<open>The RCON executor: a rejected credential\<close>

text \<open>
  C3. The executor is not yet authenticated, the server accepts the connection and
  answers the authentication with \<open>false\<close>. Then \<^verbatim>\<open>Connect\<close> makes one client, one
  connection and one authentication attempt, disconnects, returns the error of the
  rejected password and leaves the executor neither connected nor authenticated; and
  \<^verbatim>\<open>ExecuteCommand\<close> returns that error after the same four calls, so without any
  \<^verbatim>\<open>Command\<close> call, any sleep or any second attempt.
\<close>

theorem rconExecutor_rejected_credential:
  assumes "\<not> (connected e \<and> authenticated e)"
    and "connectReply srv (calls isConnect s) = None"
    and "authReply srv (calls isAuthenticate s) (rc_password e) = Inr False"
  shows "(case rconExecutor_Connect srv (e, s) of
            (err, e', s') \<Rightarrow>
              err = Some RconAuthRejected \<and> \<not> connected e' \<and> \<not> authenticated e' \<and>
              trace s' = trace s @ [NewClient (rc_serverIP e) (rc_port e), ClientConnect,
                                    ClientAuthenticate (rc_password e), ClientDisconnect]) \<and>
         (case rconExecutor_ExecuteCommand srv cmd (e, s) of
            (res, e', s') \<Rightarrow>
              res = Inl RconAuthRejected \<and> \<not> connected e' \<and> \<not> authenticated e' \<and>
              trace s' = trace s @ [NewClient (rc_serverIP e) (rc_port e), ClientConnect,
                                    ClientAuthenticate (rc_password e), ClientDisconnect])"
  using assms
  by (auto simp: rconExecutor_Connect_def rconExecutor_ExecuteCommand_def Let_def emit_def calls_def)

theorem rconExecutor_rejected_credential_witness:
  "fst (rconExecutor_ExecuteCommand rejectingServer ''list''
          (newRconExecutor ''10.0.0.3'' 25575 ''guess'', io0)) = Inl RconAuthRejected \<and>
   trace (snd (snd (rconExecutor_ExecuteCommand rejectingServer ''list''
          (newRconExecutor ''10.0.0.3'' 25575 ''guess'', io0)))) =
     [NewClient ''10.0.0.3'' 25575, ClientConnect, ClientAuthenticate ''guess'', ClientDisconnect]"
proof -
  have a: "\<not> (connected (newRconExecutor ''10.0.0.3'' 25575 ''guess'') \<and>
               authenticated (newRconExecutor ''10.0.0.3'' 25575 ''guess''))"
    by (simp add: newRconExecutor_def)
  have b: "connectReply rejectingServer (calls isConnect io0) = None"
    by (simp add: rejectingServer_def)
  have c: "authReply rejectingServer (calls isAuthenticate io0)
             (rc_password (newRconExecutor ''10.0.0.3'' 25575 ''guess'')) = Inr False"
    by (simp add: rejectingServer_def newRconExecutor_def)
  from rconExecutor_rejected_credential [OF a b c, where cmd = "''list''"] show ?thesis
    by (auto simp: newRconExecutor_def io0_def split: prod.splits)
qed

section \<open>The RCON executor: retries\<close>

lemma Connect_fields:
  assumes "rconExecutor_Connect srv (e, s) = (r, e', s')"
  shows "maxRetries e' = maxRetries e" "retryDelay e' = retryDelay e"
    "maxRetryDelay e' = maxRetryDelay e" "rc_serverIP e' = rc_serverIP e" "rc_port e' = rc_port e"
  using assms
  by (auto simp: rconExecutor_Connect_def Let_def split: option.splits sum.splits if_splits)

lemma Connect_commands:
  assumes "rconExecutor_Connect srv (e, s) = (r, e', s')"
  shows "calls isCommand s' = calls isCommand s"
  using assms
  by (auto simp: rconExecutor_Connect_def Let_def emit_def calls_def
      split: option.splits sum.splits if_splits)

lemma Connect_reconnect:
  assumes "rconExecutor_Connect srv (e, s) = (r, e', s')" and "\<not> connected e"
  shows "hasClient e' \<and>
         (\<exists>evs. trace s' = trace s @ NewClient (rc_serverIP e) (rc_port e) # evs \<and>
                filter isRetryEvent evs = [])"
  using assms
  by (auto simp: rconExecutor_Connect_def Let_def emit_def
      split: option.splits sum.splits if_splits)

lemma retryRounds_cong:
  assumes "retryDelay e' = retryDelay e" "maxRetryDelay e' = maxRetryDelay e"
    "rc_serverIP e' = rc_serverIP e" "rc_port e' = rc_port e"
  shows "retryRounds e' cmd k n = retryRounds e cmd k n"
  using assms by (induction n arbitrary: k) (simp_all add: retryBackoff_def Let_def)

lemma commandLoop_bound:
  "nat (maxRetries e + 1 - int k) = n \<Longrightarrow>
   calls isCommand (snd (snd (commandLoop srv cmd k (e, s)))) \<le> calls isCommand s + n"
proof (induction n arbitrary: k e s)
  case 0
  then have "\<not> int k \<le> maxRetries e" by simp
  then show ?case by (subst commandLoop.simps) simp
next
  case (Suc n)
  then have le: "int k \<le> maxRetries e" by simp
  show ?case
  proof (cases "hasClient e")
    case False
    with le show ?thesis by (subst commandLoop.simps) simp
  next
    case True
    show ?thesis
    proof (cases "commandReply srv (calls isCommand s) cmd")
      case (Inr response)
      with le True show ?thesis
        by (subst commandLoop.simps) (simp add: Let_def emit_def calls_def)
    next
      case (Inl msg)
      let ?e1 = "e\<lparr>connected := False, authenticated := False\<rparr>"
      let ?s1 = "emit (ClientCommand cmd) s"
      let ?s2 = "sleep (retryBackoff ?e1 k) ?s1"
      have c1: "calls isCommand ?s2 = Suc (calls isCommand s)"
        by (simp add: emit_def sleep_def calls_def)
      show ?thesis
      proof (cases "int k = maxRetries e")
        case True
        with le \<open>hasClient e\<close> Inl show ?thesis
          by (subst commandLoop.simps) (simp add: Let_def emit_def calls_def)
      next
        case False
        obtain r e2 s3 where con: "rconExecutor_Connect srv (?e1, ?s2) = (r, e2, s3)"
          by (metis prod_cases3)
        from Connect_fields(1) [OF con] have mr: "maxRetries e2 = maxRetries e" by simp
        from Connect_commands [OF con] c1 have c3: "calls isCommand s3 = Suc (calls isCommand s)"
          by simp
        from Suc.prems mr have "nat (maxRetries e2 + 1 - int (Suc k)) = n" by simp
        from Suc.IH [OF this, of s3] c3
        have "calls isCommand (snd (snd (commandLoop srv cmd (Suc k) (e2, s3))))
                \<le> calls isCommand s + Suc n" by simp
        moreover from le \<open>hasClient e\<close> Inl False con
        have "commandLoop srv cmd k (e, s) = commandLoop srv cmd (Suc k) (e2, s3)"
          by (subst commandLoop.simps) (simp add: Let_def)
        ultimately show ?thesis by simp
      qed
    qed
  qed
qed

lemma commandLoop_all_fail:
  assumes fail: "\<forall>i. isl (commandReply srv i cmd)"
  shows "hasClient e \<Longrightarrow> maxRetries e = int (k + n) \<Longrightarrow>
         \<exists>e' s' evs. commandLoop srv cmd k (e, s) =
             (Inl (RconCommandFailed (maxRetries e)
                     (projl (commandReply srv (calls isCommand s + n) cmd))), e', s') \<and>
           \<not> connected e' \<and> \<not> authenticated e' \<and>
           trace s' = trace s @ evs \<and> filter isRetryEvent evs = retryRounds e cmd k n"
proof (induction n arbitrary: k e s)
  case 0
  from fail obtain msg where msg: "commandReply srv (calls isCommand s) cmd = Inl msg"
    by (metis sum.collapse(1))
  with 0 show ?case
    by (subst commandLoop.simps) (simp add: Let_def emit_def)
next
  case (Suc n)
  from fail obtain msg where msg: "commandReply srv (calls isCommand s) cmd = Inl msg"
    by (metis sum.collapse(1))
  let ?e1 = "e\<lparr>connected := False, authenticated := False\<rparr>"
  let ?s1 = "emit (ClientCommand cmd) s"
  let ?s2 = "sleep (retryBackoff ?e1 k) ?s1"
  obtain r e2 s3 where con: "rconExecutor_Connect srv (?e1, ?s2) = (r, e2, s3)"
    by (metis prod_cases3)
  note f = Connect_fields [OF con]
  from Connect_reconnect [OF con] obtain evs where
    hc: "hasClient e2" and tr: "trace s3 = trace ?s2 @ NewClient (rc_serverIP e) (rc_port e) # evs"
    and nil: "filter isRetryEvent evs = []"
    by auto
  from Connect_commands [OF con] have c3: "calls isCommand s3 = Suc (calls isCommand s)"
    by (simp add: emit_def sleep_def calls_def)
  from Suc.prems f(1) have "maxRetries e2 = int (Suc k + n)" by simp
  from Suc.IH [OF hc this, of s3] obtain e' s' evs' where
    run: "commandLoop srv cmd (Suc k) (e2, s3) =
            (Inl (RconCommandFailed (maxRetries e2)
                    (projl (commandReply srv (calls isCommand s3 + n) cmd))), e', s')"
    and dis: "\<not> connected e'" "\<not> authenticated e'"
    and tr': "trace s' = trace s3 @ evs'"
    and ev': "filter isRetryEvent evs' = retryRounds e2 cmd (Suc k) n"
    by blast
  from f have rr: "retryRounds e2 cmd (Suc k) n = retryRounds e cmd (Suc k) n"
    by (intro retryRounds_cong) simp_all
  from Suc.prems msg con
  have "commandLoop srv cmd k (e, s) = commandLoop srv cmd (Suc k) (e2, s3)"
    by (subst commandLoop.simps) (simp add: Let_def)
  with run f(1) c3
  have "commandLoop srv cmd k (e, s) =
          (Inl (RconCommandFailed (maxRetries e)
                  (projl (commandReply srv (calls isCommand s + Suc n) cmd))), e', s')"
    by simp
  moreover have "trace s' = trace s @
      (ClientCommand cmd # Sleep (retryBackoff ?e1 k) # NewClient (rc_serverIP e) (rc_port e) # evs @ evs')"
    using tr tr' by (simp add: emit_def sleep_def)
  moreover have "filter isRetryEvent
      (ClientCommand cmd # Sleep (retryBackoff ?e1 k) # NewClient (rc_serverIP e) (rc_port e) # evs @ evs')
      = retryRounds e cmd k (Suc n)"
    using nil ev' rr by (simp add: retryBackoff_def Let_def)
  ultimately show ?case using dis by blast
qed

text \<open>
  C2, as the code has it. The executor has the settings of \<^verbatim>\<open>newRconExecutor\<close>. Whatever the
  server answers, one \<^verbatim>\<open>ExecuteCommand\<close> sends the command at most six times: the loop
  runs for \<open>retryCount\<close> from 0 to \<^verbatim>\<open>maxRetries\<close> inclusive, a first attempt and five
  retries. On an established session whose every command fails, it sends the command six
  times; after each failure but the last it sleeps 500 ms times 1.5 to the power of the
  number of the attempt (0.5 s, 0.75 s, 1.125 s, 1.6875 s, 2.53125 s, all below the cap
  of 10 s) and makes a new client to reconnect; it ends disconnected with the error that
  quotes five retries and the error of the last attempt.
\<close>

theorem rconExecutor_retries:
  assumes "maxRetries e = 5" and "retryDelay e = 500 * Millisecond"
    and "maxRetryDelay e = 10 * Second"
  shows "calls isCommand (snd (snd (rconExecutor_ExecuteCommand srv cmd (e, s))))
           \<le> calls isCommand s + 6 \<and>
         ((\<forall>i. isl (commandReply srv i cmd)) \<and> connected e \<and> authenticated e \<and> hasClient e \<longrightarrow>
          (\<exists>e' s' evs.
             rconExecutor_ExecuteCommand srv cmd (e, s) =
               (Inl (RconCommandFailed 5 (projl (commandReply srv (calls isCommand s + 5) cmd))),
                e', s') \<and>
             \<not> connected e' \<and> \<not> authenticated e' \<and> trace s' = trace s @ evs \<and>
             filter isRetryEvent evs =
               [ClientCommand cmd, Sleep 500000000, NewClient (rc_serverIP e) (rc_port e),
                ClientCommand cmd, Sleep 750000000, NewClient (rc_serverIP e) (rc_port e),
                ClientCommand cmd, Sleep 1125000000, NewClient (rc_serverIP e) (rc_port e),
                ClientCommand cmd, Sleep 1687500000, NewClient (rc_serverIP e) (rc_port e),
                ClientCommand cmd, Sleep 2531250000, NewClient (rc_serverIP e) (rc_port e),
                ClientCommand cmd]))"
proof (intro conjI impI)
  let ?e0 = "e\<lparr>rc_lastUsed := clock s\<rparr>"
  show "calls isCommand (snd (snd (rconExecutor_ExecuteCommand srv cmd (e, s))))
          \<le> calls isCommand s + 6"
  proof (cases "\<not> connected ?e0 \<or> \<not> authenticated ?e0")
    case False
    from assms(1) have "nat (maxRetries ?e0 + 1 - int 0) = 6" by simp
    from commandLoop_bound [OF this, of srv cmd s] False show ?thesis
      by (simp add: rconExecutor_ExecuteCommand_def Let_def)
  next
    case True
    obtain r e1 s1 where con: "rconExecutor_Connect srv (?e0, s) = (r, e1, s1)"
      by (metis prod_cases3)
    show ?thesis
    proof (cases r)
      case (Some err)
      with True con Connect_commands [OF con] show ?thesis
        by (simp add: rconExecutor_ExecuteCommand_def Let_def)
    next
      case None
      from Connect_fields(1) [OF con] assms(1) have "nat (maxRetries e1 + 1 - int 0) = 6" by simp
      from commandLoop_bound [OF this, of srv cmd s1] Connect_commands [OF con] True con None
      show ?thesis
        by (simp add: rconExecutor_ExecuteCommand_def Let_def)
    qed
  qed
next
  let ?e0 = "e\<lparr>rc_lastUsed := clock s\<rparr>"
  assume a: "(\<forall>i. isl (commandReply srv i cmd)) \<and> connected e \<and> authenticated e \<and> hasClient e"
  then have fail: "\<forall>i. isl (commandReply srv i cmd)" and hc: "hasClient ?e0" by simp_all
  from assms(1) have mr: "maxRetries ?e0 = int (0 + 5)" by simp
  from commandLoop_all_fail [OF fail hc mr, of s] obtain e' s' evs where
    run: "commandLoop srv cmd 0 (?e0, s) =
            (Inl (RconCommandFailed (maxRetries ?e0)
                    (projl (commandReply srv (calls isCommand s + 5) cmd))), e', s')"
    and rest: "\<not> connected e'" "\<not> authenticated e'" "trace s' = trace s @ evs"
      "filter isRetryEvent evs = retryRounds ?e0 cmd 0 5"
    by blast
  have "retryRounds ?e0 cmd 0 5 =
      [ClientCommand cmd, Sleep 500000000, NewClient (rc_serverIP e) (rc_port e),
       ClientCommand cmd, Sleep 750000000, NewClient (rc_serverIP e) (rc_port e),
       ClientCommand cmd, Sleep 1125000000, NewClient (rc_serverIP e) (rc_port e),
       ClientCommand cmd, Sleep 1687500000, NewClient (rc_serverIP e) (rc_port e),
       ClientCommand cmd, Sleep 2531250000, NewClient (rc_serverIP e) (rc_port e),
       ClientCommand cmd]"
    using assms
    by (simp add: eval_nat_numeral retryBackoff_def Millisecond_def Second_def Let_def)
  with run rest a assms(1) show "\<exists>e' s' evs.
             rconExecutor_ExecuteCommand srv cmd (e, s) =
               (Inl (RconCommandFailed 5 (projl (commandReply srv (calls isCommand s + 5) cmd))),
                e', s') \<and>
             \<not> connected e' \<and> \<not> authenticated e' \<and> trace s' = trace s @ evs \<and>
             filter isRetryEvent evs =
               [ClientCommand cmd, Sleep 500000000, NewClient (rc_serverIP e) (rc_port e),
                ClientCommand cmd, Sleep 750000000, NewClient (rc_serverIP e) (rc_port e),
                ClientCommand cmd, Sleep 1125000000, NewClient (rc_serverIP e) (rc_port e),
                ClientCommand cmd, Sleep 1687500000, NewClient (rc_serverIP e) (rc_port e),
                ClientCommand cmd, Sleep 2531250000, NewClient (rc_serverIP e) (rc_port e),
                ClientCommand cmd]"
    by (simp add: rconExecutor_ExecuteCommand_def Let_def)
qed

theorem rconExecutor_retries_witness:
  "fst (rconExecutor_ExecuteCommand failingServer ''list'' (establishedExecutor, io0)) =
     Inl (RconCommandFailed 5 ''broken pipe'') \<and>
   calls isSleep (snd (snd (rconExecutor_ExecuteCommand failingServer ''list'' (establishedExecutor, io0)))) = 5"
proof -
  have cfg: "maxRetries establishedExecutor = 5" "retryDelay establishedExecutor = 500 * Millisecond"
    "maxRetryDelay establishedExecutor = 10 * Second"
    by (simp_all add: establishedExecutor_def newRconExecutor_def)
  have pre: "(\<forall>i. isl (commandReply failingServer i ''list'')) \<and> connected establishedExecutor \<and>
      authenticated establishedExecutor \<and> hasClient establishedExecutor"
    by (simp add: establishedExecutor_def newRconExecutor_def failingServer_def)
  from rconExecutor_retries [OF cfg, of failingServer "''list''" io0] pre
  obtain e' s' evs where
    run: "rconExecutor_ExecuteCommand failingServer ''list'' (establishedExecutor, io0) =
            (Inl (RconCommandFailed 5
                    (projl (commandReply failingServer (calls isCommand io0 + 5) ''list''))), e', s')"
    and tr: "trace s' = trace io0 @ evs"
    and ev: "filter isRetryEvent evs =
               [ClientCommand ''list'', Sleep 500000000,
                NewClient (rc_serverIP establishedExecutor) (rc_port establishedExecutor),
                ClientCommand ''list'', Sleep 750000000,
                NewClient (rc_serverIP establishedExecutor) (rc_port establishedExecutor),
                ClientCommand ''list'', Sleep 1125000000,
                NewClient (rc_serverIP establishedExecutor) (rc_port establishedExecutor),
                ClientCommand ''list'', Sleep 1687500000,
                NewClient (rc_serverIP establishedExecutor) (rc_port establishedExecutor),
                ClientCommand ''list'', Sleep 2531250000,
                NewClient (rc_serverIP establishedExecutor) (rc_port establishedExecutor),
                ClientCommand ''list'']"
    by blast
  have sub: "filter isSleep evs = filter isSleep (filter isRetryEvent evs)"
    by (simp add: filter_filter) (metis (mono_tags, lifting) filter_cong isRetryEvent.simps(2) isSleep.elims(2))
  from run have "fst (rconExecutor_ExecuteCommand failingServer ''list'' (establishedExecutor, io0)) =
     Inl (RconCommandFailed 5 ''broken pipe'')"
    by (simp add: failingServer_def io0_def calls_def)
  moreover from run tr sub ev
  have "calls isSleep (snd (snd (rconExecutor_ExecuteCommand failingServer ''list'' (establishedExecutor, io0)))) = 5"
    by (simp add: calls_def io0_def)
  ultimately show ?thesis by simp
qed

text \<open>
  C2 as stated fails: against a server that fails every command the call is made six
  times, not at most five.
\<close>

theorem rconExecutor_six_attempts_counterexample:
  "calls isCommand io0 = 0 \<and>
   calls isCommand (snd (snd (rconExecutor_ExecuteCommand failingServer ''list''
      (establishedExecutor, io0)))) = 6"
  by code_simp

section \<open>Choosing an executor\<close>

lemma Connect_ok:
  assumes "rconExecutor_Connect srv (e, s) = (None, e', s')"
  shows "connected e' \<and> authenticated e'"
  using assms
  by (auto simp: rconExecutor_Connect_def Let_def split: option.splits sum.splits if_splits)

lemma createRconExecutor_ok:
  assumes "createRconExecutor w (m, s) = (Inr x, m', s')"
  shows "rconPort m \<noteq> 0 \<and> (\<exists>e. x = Rcon e \<and> connected e \<and> authenticated e)"
proof -
  from assms have port: "rconPort m \<noteq> 0"
    by (auto simp: createRconExecutor_def)
  obtain u err m1 where up: "updatePodInfoIfNeeded (k8s w) (clock s) False m = (u, err, m1)"
    by (metis prod_cases3)
  obtain r e s1 where con: "rconExecutor_Connect (rconServer w)
      (newRconExecutor (serverIP m1) (rconPort m1) (rconPassword m1), s) = (r, e, s1)"
    by (metis prod_cases3)
  from assms port up con have "err = None \<and> r = None \<and> x = Rcon e"
    by (simp add: createRconExecutor_def split: option.splits)
  with Connect_ok [of "rconServer w" _ s e s1] con port show ?thesis by auto
qed

lemma createRconExecutor_unset:
  "rconPort m = 0 \<Longrightarrow> createRconExecutor w (m, s) = (Inl RconPortNotSet, m, s)"
  by (simp add: createRconExecutor_def)

lemma createAttachExecutor_ok:
  assumes "createAttachExecutor w (m, s) = (Inr x, m', s')"
  shows "\<exists>a. x = Attach a \<and> at_connected a"
proof -
  obtain u err m1 where up: "updatePodInfoIfNeeded (k8s w) (clock s) False m = (u, err, m1)"
    by (metis prod_cases3)
  obtain r a where con: "attachExecutor_Connect
      (newAttachExecutor (namespace m1) (currentPodName m1) (containerName m1)) = (r, a)"
    by (metis surj_pair)
  from assms up con have "err = None \<and> r = None \<and> x = Attach a"
    by (simp add: createAttachExecutor_def split: option.splits)
  moreover from con this have "at_connected a"
    by (auto simp: attachExecutor_Connect_def newAttachExecutor_def split: if_splits)
  ultimately show ?thesis by blast
qed

lemma createAttachExecutor_io:
  "createAttachExecutor w (m, s) = (r, m', s') \<Longrightarrow> s' = s"
proof -
  assume a: "createAttachExecutor w (m, s) = (r, m', s')"
  obtain u err m1 where up: "updatePodInfoIfNeeded (k8s w) (clock s) False m = (u, err, m1)"
    by (metis prod_cases3)
  obtain r a where con: "attachExecutor_Connect
      (newAttachExecutor (namespace m1) (currentPodName m1) (containerName m1)) = (r, a)"
    by (metis surj_pair)
  from a up con show ?thesis
    by (simp add: createAttachExecutor_def split: option.splits)
qed

lemma createExecExecutor_cases:
  assumes "createExecExecutor w (m, s) = (res, m', s')"
  shows "if fst (snd (updatePodInfoIfNeeded (k8s w) (clock s) False m)) = None
         then res = Inr (Exec (newExecExecutor (namespace m') (currentPodName m') (containerName m')))
         else \<exists>cause. res = Inl (UpdatePodInfoFailed cause)"
proof -
  obtain u err m1 where up: "updatePodInfoIfNeeded (k8s w) (clock s) False m = (u, err, m1)"
    by (metis prod_cases3)
  with assms show ?thesis
    by (cases err) (auto simp: createExecExecutor_def)
qed

text \<open>
  C5, as the code has it. With the type \<open>ExecutorAuto\<close> the RCON executor is made first
  and returned when its construction and its \<^verbatim>\<open>Connect\<close> succeed; when that fails the
  attach executor is made and returned when its construction and its \<^verbatim>\<open>Connect\<close> succeed;
  when that fails too the exec executor is made from the namespace, the pod name and the
  container name of the controller and returned without any \<^verbatim>\<open>Connect\<close>, and the call
  fails only when the pod information cannot be refreshed. In particular, when the RCON
  port is unset, the attach executor cannot be made and the pod information is
  available, the result is an exec executor.
\<close>

theorem CreateCommandExecutor_auto:
  assumes "CreateCommandExecutor w ExecutorAuto (m, s) = (res, m', s')"
  shows "(case res of
            Inr (Rcon e) \<Rightarrow>
              createRconExecutor w (m, s) = (Inr (Rcon e), m', s') \<and> connected e \<and> authenticated e
          | Inr (Attach a) \<Rightarrow>
              isl (fst (createRconExecutor w (m, s))) \<and>
              createAttachExecutor w (snd (createRconExecutor w (m, s))) = (Inr (Attach a), m', s') \<and>
              at_connected a
          | Inr (Exec x) \<Rightarrow>
              isl (fst (createRconExecutor w (m, s))) \<and>
              isl (fst (createAttachExecutor w (snd (createRconExecutor w (m, s))))) \<and>
              x = newExecExecutor (namespace m') (currentPodName m') (containerName m')
          | Inl err \<Rightarrow>
              isl (fst (createRconExecutor w (m, s))) \<and>
              isl (fst (createAttachExecutor w (snd (createRconExecutor w (m, s))))) \<and>
              (\<exists>cause. err = UpdatePodInfoFailed cause)) \<and>
         (rconPort m = 0 \<and> isl (fst (createAttachExecutor w (m, s))) \<and>
          fst (snd (updatePodInfoIfNeeded (k8s w) (clock s) False
                      (fst (snd (createAttachExecutor w (m, s)))))) = None
          \<longrightarrow> (\<exists>x. res = Inr (Exec x)))"
proof -
  obtain r1 m1 s1 where c1: "createRconExecutor w (m, s) = (r1, m1, s1)" by (metis prod_cases3)
  obtain r2 m2 s2 where c2: "createAttachExecutor w (m1, s1) = (r2, m2, s2)" by (metis prod_cases3)
  obtain r3 m3 s3 where c3: "createExecExecutor w (m2, s2) = (r3, m3, s3)" by (metis prod_cases3)
  from createAttachExecutor_io [OF c2] have s2: "s2 = s1" .
  have port: "rconPort m = 0 \<Longrightarrow> r1 = Inl RconPortNotSet \<and> m1 = m \<and> s1 = s"
    using c1 by (simp add: createRconExecutor_unset)
  show ?thesis
  proof (cases r1)
    case (Inr x)
    with c1 assms have eq: "res = Inr x" "m' = m1" "s' = s1"
      by (simp_all add: CreateCommandExecutor_def)
    from createRconExecutor_ok [of w m s x m1 s1] c1 Inr obtain e where
      e: "rconPort m \<noteq> 0" "x = Rcon e" "connected e" "authenticated e" by auto
    have A: "case res of
            Inr (Rcon e) \<Rightarrow>
              createRconExecutor w (m, s) = (Inr (Rcon e), m', s') \<and> connected e \<and> authenticated e
          | Inr (Attach a) \<Rightarrow>
              isl (fst (createRconExecutor w (m, s))) \<and>
              createAttachExecutor w (snd (createRconExecutor w (m, s))) = (Inr (Attach a), m', s') \<and>
              at_connected a
          | Inr (Exec x) \<Rightarrow>
              isl (fst (createRconExecutor w (m, s))) \<and>
              isl (fst (createAttachExecutor w (snd (createRconExecutor w (m, s))))) \<and>
              x = newExecExecutor (namespace m') (currentPodName m') (containerName m')
          | Inl err \<Rightarrow>
              isl (fst (createRconExecutor w (m, s))) \<and>
              isl (fst (createAttachExecutor w (snd (createRconExecutor w (m, s))))) \<and>
              (\<exists>cause. err = UpdatePodInfoFailed cause)"
      using eq e c1 Inr by simp
    from A e(1) show ?thesis by simp
  next
    case l1: (Inl e1)
    show ?thesis
    proof (cases r2)
      case (Inr x)
      with l1 c1 c2 assms have eq: "res = Inr x" "m' = m2" "s' = s2"
        by (simp_all add: CreateCommandExecutor_def)
      from createAttachExecutor_ok [of w m1 s1 x m2 s2] c2 Inr obtain a where
        a: "x = Attach a" "at_connected a" by auto
      have A: "case res of
            Inr (Rcon e) \<Rightarrow>
              createRconExecutor w (m, s) = (Inr (Rcon e), m', s') \<and> connected e \<and> authenticated e
          | Inr (Attach a) \<Rightarrow>
              isl (fst (createRconExecutor w (m, s))) \<and>
              createAttachExecutor w (snd (createRconExecutor w (m, s))) = (Inr (Attach a), m', s') \<and>
              at_connected a
          | Inr (Exec x) \<Rightarrow>
              isl (fst (createRconExecutor w (m, s))) \<and>
              isl (fst (createAttachExecutor w (snd (createRconExecutor w (m, s))))) \<and>
              x = newExecExecutor (namespace m') (currentPodName m') (containerName m')
          | Inl err \<Rightarrow>
              isl (fst (createRconExecutor w (m, s))) \<and>
              isl (fst (createAttachExecutor w (snd (createRconExecutor w (m, s))))) \<and>
              (\<exists>cause. err = UpdatePodInfoFailed cause)"
        using eq a c1 c2 l1 Inr by simp
      have B: "\<not> (rconPort m = 0 \<and> isl (fst (createAttachExecutor w (m, s))))"
        using port c2 Inr by auto
      from A B show ?thesis by blast
    next
      case l2: (Inl e2)
      with l1 c1 c2 c3 assms have eq: "res = r3" "m' = m3" "s' = s3"
        by (simp_all add: CreateCommandExecutor_def)
      note ce = createExecExecutor_cases [OF c3]
      have A: "case res of
            Inr (Rcon e) \<Rightarrow>
              createRconExecutor w (m, s) = (Inr (Rcon e), m', s') \<and> connected e \<and> authenticated e
          | Inr (Attach a) \<Rightarrow>
              isl (fst (createRconExecutor w (m, s))) \<and>
              createAttachExecutor w (snd (createRconExecutor w (m, s))) = (Inr (Attach a), m', s') \<and>
              at_connected a
          | Inr (Exec x) \<Rightarrow>
              isl (fst (createRconExecutor w (m, s))) \<and>
              isl (fst (createAttachExecutor w (snd (createRconExecutor w (m, s))))) \<and>
              x = newExecExecutor (namespace m') (currentPodName m') (containerName m')
          | Inl err \<Rightarrow>
              isl (fst (createRconExecutor w (m, s))) \<and>
              isl (fst (createAttachExecutor w (snd (createRconExecutor w (m, s))))) \<and>
              (\<exists>cause. err = UpdatePodInfoFailed cause)"
      proof (cases "fst (snd (updatePodInfoIfNeeded (k8s w) (clock s2) False m2)) = None")
        case True
        with ce eq have "res = Inr (Exec (newExecExecutor (namespace m') (currentPodName m') (containerName m')))"
          by simp
        with c1 c2 l1 l2 show ?thesis by simp
      next
        case False
        with ce eq obtain cause where "res = Inl (UpdatePodInfoFailed cause)" by auto
        with c1 c2 l1 l2 show ?thesis by simp
      qed
      have B: "rconPort m = 0 \<and> isl (fst (createAttachExecutor w (m, s))) \<and>
          fst (snd (updatePodInfoIfNeeded (k8s w) (clock s) False
                      (fst (snd (createAttachExecutor w (m, s)))))) = None
          \<longrightarrow> (\<exists>x. res = Inr (Exec x))"
      proof
        assume h: "rconPort m = 0 \<and> isl (fst (createAttachExecutor w (m, s))) \<and>
          fst (snd (updatePodInfoIfNeeded (k8s w) (clock s) False
                      (fst (snd (createAttachExecutor w (m, s)))))) = None"
        with port have "m1 = m" "s1 = s" by simp_all
        with c2 s2 h have "fst (snd (updatePodInfoIfNeeded (k8s w) (clock s2) False m2)) = None"
          by simp
        with ce eq show "\<exists>x. res = Inr (Exec x)" by simp
      qed
      from A B show ?thesis by blast
    qed
  qed
qed

lemma CreateCommandExecutor_auto_run:
  "CreateCommandExecutor noRconWorld ExecutorAuto (mNoContainer, io0) =
     (Inr (Exec (newExecExecutor ''mc'' ''mc-0'' [])), mRefreshed, io0)"
  by code_simp

theorem CreateCommandExecutor_auto_witness:
  "fst (CreateCommandExecutor noRconWorld ExecutorAuto (mNoContainer, io0)) =
     Inr (Exec (newExecExecutor (namespace mRefreshed) (currentPodName mRefreshed)
                  (containerName mRefreshed)))"
proof -
  from CreateCommandExecutor_auto [OF CreateCommandExecutor_auto_run]
  have "newExecExecutor ''mc'' ''mc-0'' [] =
          newExecExecutor (namespace mRefreshed) (currentPodName mRefreshed) (containerName mRefreshed)"
    by simp
  with CreateCommandExecutor_auto_run show ?thesis by simp
qed

text \<open>
  C5 as stated fails: with the RCON port unset and no container name configured, the
  attach executor fails to connect and the call returns an exec executor whose own
  \<^verbatim>\<open>Connect\<close> fails and whose \<^verbatim>\<open>IsConnected\<close> is false.
\<close>

theorem CreateCommandExecutor_unconnected_counterexample:
  "rconPort mNoContainer = 0 \<and>
   isl (fst (createAttachExecutor noRconWorld (mNoContainer, io0))) \<and>
   fst (CreateCommandExecutor noRconWorld ExecutorAuto (mNoContainer, io0)) =
     Inr (Exec (newExecExecutor ''mc'' ''mc-0'' [])) \<and>
   \<not> executor_IsConnected (Exec (newExecExecutor ''mc'' ''mc-0'' [])) \<and>
   fst (executor_Connect noRconWorld (Exec (newExecExecutor ''mc'' ''mc-0'' []), io0)) =
     Some (PodInfoIncomplete ''mc-0'' ''mc'' [])"
  by code_simp

section \<open>The sweep of idle sessions\<close>

lemma outsideLock_append:
  "outsideLock held (a @ b) \<longleftrightarrow> outsideLock held a \<and> outsideLock (lockAfter held a) b"
  by (induction held a rule: outsideLock.induct) auto

lemma lockAfter_append: "lockAfter held (a @ b) = lockAfter (lockAfter held a) b"
  by (induction held a rule: lockAfter.induct) auto

lemma executor_Disconnect_trace:
  assumes "executor_Disconnect (x, s) = (x', s')"
  shows "clock s' = clock s \<and> (trace s' = trace s \<or> trace s' = trace s @ [ClientDisconnect])"
  using assms
  by (cases x) (auto simp: rconExecutor_Disconnect_def emit_def split: if_splits)

lemma CommandSession_Close_trace:
  assumes "CommandSession_Close (sess, s) = (sess', s')"
  shows "clock s' = clock s \<and>
         (\<exists>ds. trace s' = trace s @ SessionClose (session_id sess) # ds \<and>
               outsideLock False ds \<and> \<not> lockAfter False ds)"
proof -
  obtain x s1 where d: "executor_Disconnect (executor sess, emit (SessionClose (session_id sess)) s) = (x, s1)"
    by (metis surj_pair)
  with assms have "s' = s1" by (simp add: CommandSession_Close_def)
  with executor_Disconnect_trace [OF d] show ?thesis
    by (auto simp: emit_def)
qed

lemma map_of_delete: "map_of (delete k sm) k' = (if k' = k then None else map_of sm k')"
  by (induction sm) (auto simp: delete_def)

lemma delete_filter:
  "delete k (filter (\<lambda>(k', v). k' \<notin> A) sm) = filter (\<lambda>(k', v). k' \<notin> insert k A) sm"
  by (induction sm) (auto simp: delete_def)

lemma closeIdle_run:
  assumes "\<forall>k\<in>set ks. map_of sm k \<noteq> None" and "distinct ks"
    and "\<forall>(k, v)\<in>set sm. session_id v = k"
  shows "\<exists>s' evs. closeIdle ks (sm, s) = (None, filter (\<lambda>(k, v). k \<notin> set ks) sm, s') \<and>
           clock s' = clock s \<and> trace s' = trace s @ evs \<and>
           outsideLock True evs \<and> lockAfter True evs \<and>
           (\<forall>k\<in>set ks. SessionClose k \<in> set evs)"
  using assms
proof (induction ks arbitrary: sm s)
  case Nil
  then show ?case by simp
next
  case (Cons k ks)
  from Cons.prems(1) obtain session where look: "map_of sm k = Some session" by auto
  with Cons.prems(3) have sid: "session_id session = k" by (auto dest: map_of_SomeD)
  obtain sess' s1 where cl: "CommandSession_Close (session, emit RegistryUnlock s) = (sess', s1)"
    by (metis surj_pair)
  from CommandSession_Close_trace [OF cl] sid obtain ds where
    c1: "clock s1 = clock s" and t1: "trace s1 = trace s @ RegistryUnlock # SessionClose k # ds"
    and o1: "outsideLock False ds" and l1: "\<not> lockAfter False ds"
    by (auto simp: emit_def)
  let ?sm = "delete k sm" and ?s = "emit RegistryLock s1"
  from Cons.prems(1,2) have p1: "\<forall>k'\<in>set ks. map_of ?sm k' \<noteq> None"
    by (auto simp: map_of_delete)
  from Cons.prems(2) have p2: "distinct ks" by simp
  from Cons.prems(3) have p3: "\<forall>(k, v)\<in>set ?sm. session_id v = k"
    by (auto simp: delete_def)
  from Cons.IH [OF p1 p2 p3, of ?s] obtain s' evs where
    run: "closeIdle ks (?sm, ?s) = (None, filter (\<lambda>(k, v). k \<notin> set ks) ?sm, s')"
    and c2: "clock s' = clock ?s" and t2: "trace s' = trace ?s @ evs"
    and o2: "outsideLock True evs" and l2: "lockAfter True evs"
    and all: "\<forall>k\<in>set ks. SessionClose k \<in> set evs"
    by blast
  let ?evs = "RegistryUnlock # SessionClose k # ds @ RegistryLock # evs"
  have sm: "filter (\<lambda>(k, v). k \<notin> set ks) ?sm = filter (\<lambda>(k', v). k' \<notin> set (k # ks)) sm"
    by (induction sm) (auto simp: delete_def)
  from look cl run sm have "closeIdle (k # ks) (sm, s) =
      (None, filter (\<lambda>(k', v). k' \<notin> set (k # ks)) sm, s')" by simp
  moreover from c1 c2 have "clock s' = clock s" by (simp add: emit_def)
  moreover from t1 t2 have "trace s' = trace s @ ?evs" by (simp add: emit_def)
  moreover from o1 l1 o2 have "outsideLock True ?evs"
    by (simp add: outsideLock_append)
  moreover from l2 have "lockAfter True ?evs" by (simp add: lockAfter_append)
  moreover from all have "\<forall>k'\<in>set (k # ks). SessionClose k' \<in> set ?evs" by auto
  ultimately show ?case by blast
qed

lemma filter_keys:
  assumes "distinct (map fst sm)"
  shows "filter (\<lambda>(k, v). k \<notin> set (map fst (filter (\<lambda>(k, v). P v) sm))) sm =
         filter (\<lambda>(k, v). \<not> P v) sm"
proof (rule filter_cong [OF refl])
  fix x assume x: "x \<in> set sm"
  obtain k v where kv: "x = (k, v)" by (cases x)
  have "k \<in> set (map fst (filter (\<lambda>(k, v). P v) sm)) \<longleftrightarrow> P v"
  proof
    assume "k \<in> set (map fst (filter (\<lambda>(k, v). P v) sm))"
    then obtain v' where v': "(k, v') \<in> set sm" "P v'" by auto
    with assms x kv have "v' = v" by (meson eq_key_imp_eq_value)
    with v' show "P v" by simp
  next
    assume "P v"
    with x kv show "k \<in> set (map fst (filter (\<lambda>(k, v). P v) sm))" by force
  qed
  with kv show "(case x of (k, v) \<Rightarrow> k \<notin> set (map fst (filter (\<lambda>(k, v). P v) sm))) =
                (case x of (k, v) \<Rightarrow> \<not> P v)" by simp
qed

lemma swept_absent:
  assumes "distinct (map fst sm)" and "(k, v) \<in> set sm" and "P v"
  shows "map_of (filter (\<lambda>(k, v). \<not> P v) sm) k = None"
proof -
  have "k \<notin> fst ` set (filter (\<lambda>(k, v). \<not> P v) sm)"
  proof
    assume "k \<in> fst ` set (filter (\<lambda>(k, v). \<not> P v) sm)"
    then obtain v' where v': "(k, v') \<in> set sm" "\<not> P v'" by auto
    with assms have "v' = v" by (meson eq_key_imp_eq_value)
    with v' assms(3) show False by simp
  qed
  then show ?thesis by (simp add: map_of_eq_None_iff)
qed

text \<open>
  C8. One sweep over a registry at the clock reading \<open>clock s\<close> ends without error and
  keeps exactly the sessions that are not idle, so every session with
  \<open>clock s - lastUsed > idleTimeout\<close> is removed. In the events of the sweep no session is
  closed and no client is disconnected while the registry lock is held, and each removed
  session is closed. Afterwards \<^verbatim>\<open>SessionExecuteCommand\<close> with the identifier of a removed
  session fails with the error that the session does not exist.
\<close>

theorem cleanupIdleSessions_sweeps:
  assumes "registry sm"
  shows "\<exists>s' evs.
           cleanupIdleSessions (sm, s) = (None, filter (\<lambda>(k, v). \<not> IsIdle (clock s) v) sm, s') \<and>
           trace s' = trace s @ evs \<and> outsideLock False evs \<and>
           (\<forall>k v. (k, v) \<in> set sm \<and> IsIdle (clock s) v \<longrightarrow>
              SessionClose k \<in> set evs \<and>
              (\<forall>cmd s2. fst (SessionExecuteCommand w k cmd
                                (filter (\<lambda>(k, v). \<not> IsIdle (clock s) v) sm, s2)) =
                           Inl (SessionNotFound k)))"
proof -
  from assms have d: "distinct (map fst sm)" and ids: "\<forall>(k, v)\<in>set sm. session_id v = k"
    by (simp_all add: registry_def)
  let ?s1 = "emit RegistryLock s"
  let ?idle = "map fst (filter (\<lambda>(k, session). IsIdle (clock ?s1) session) sm)"
  have clk: "clock ?s1 = clock s" by (simp add: emit_def)
  have p1: "\<forall>k\<in>set ?idle. map_of sm k \<noteq> None"
    by (auto simp: map_of_eq_None_iff intro: rev_image_eqI)
  from d have p2: "distinct ?idle" by (simp add: distinct_map_filter)
  from closeIdle_run [OF p1 p2 ids, of ?s1] obtain s' evs where
    run: "closeIdle ?idle (sm, ?s1) = (None, filter (\<lambda>(k, v). k \<notin> set ?idle) sm, s')"
    and t: "trace s' = trace ?s1 @ evs" and o: "outsideLock True evs" and l: "lockAfter True evs"
    and all: "\<forall>k\<in>set ?idle. SessionClose k \<in> set evs"
    by blast
  let ?sm' = "filter (\<lambda>(k, v). \<not> IsIdle (clock s) v) sm"
  let ?evs = "RegistryLock # evs @ [RegistryUnlock]"
  from filter_keys [OF d, of "IsIdle (clock s)"] clk
  have sm': "filter (\<lambda>(k, v). k \<notin> set ?idle) sm = ?sm'" by simp
  from run sm' have "cleanupIdleSessions (sm, s) = (None, ?sm', emit RegistryUnlock s')"
    by (simp add: cleanupIdleSessions_def Let_def)
  moreover from t have "trace (emit RegistryUnlock s') = trace s @ ?evs" by (simp add: emit_def)
  moreover from o have "outsideLock False ?evs" by (simp add: outsideLock_append)
  moreover have "\<forall>k v. (k, v) \<in> set sm \<and> IsIdle (clock s) v \<longrightarrow>
              SessionClose k \<in> set ?evs \<and>
              (\<forall>cmd s2. fst (SessionExecuteCommand w k cmd (?sm', s2)) = Inl (SessionNotFound k))"
  proof (intro allI impI)
    fix k v assume kv: "(k, v) \<in> set sm \<and> IsIdle (clock s) v"
    with clk have "k \<in> set ?idle" by force
    with all have a: "SessionClose k \<in> set ?evs" by auto
    from swept_absent [OF d, of k v "IsIdle (clock s)"] kv have "map_of ?sm' k = None" by simp
    then have "\<forall>cmd s2. fst (SessionExecuteCommand w k cmd (?sm', s2)) = Inl (SessionNotFound k)"
      by (simp add: SessionExecuteCommand_def Let_def)
    with a show "SessionClose k \<in> set ?evs \<and>
              (\<forall>cmd s2. fst (SessionExecuteCommand w k cmd (?sm', s2)) = Inl (SessionNotFound k))"
      by blast
  qed
  ultimately show ?thesis by blast
qed

theorem cleanupIdleSessions_sweeps_witness:
  "map fst (fst (snd (cleanupIdleSessions (sessions0, io0)))) = [''s2''] \<and>
   fst (SessionExecuteCommand noRconWorld ''s1'' ''list''
          (fst (snd (cleanupIdleSessions (sessions0, io0))),
           snd (snd (cleanupIdleSessions (sessions0, io0))))) = Inl (SessionNotFound ''s1'')"
proof -
  have reg: "registry sessions0" by (simp add: registry_def sessions0_def)
  have idle: "filter (\<lambda>(k, v). \<not> IsIdle (clock io0) v) sessions0 = [sessions0 ! 1]"
    by (simp add: sessions0_def IsIdle_def io0_def Minute_def Second_def)
  have one: "(''s1'', snd (sessions0 ! 0)) \<in> set sessions0 \<and> IsIdle (clock io0) (snd (sessions0 ! 0))"
    by (simp add: sessions0_def IsIdle_def io0_def Minute_def Second_def)
  from cleanupIdleSessions_sweeps [OF reg, of io0 noRconWorld] obtain s' evs where
    run: "cleanupIdleSessions (sessions0, io0) =
            (None, filter (\<lambda>(k, v). \<not> IsIdle (clock io0) v) sessions0, s')"
    and gone: "\<forall>k v. (k, v) \<in> set sessions0 \<and> IsIdle (clock io0) v \<longrightarrow>
              SessionClose k \<in> set evs \<and>
              (\<forall>cmd s2. fst (SessionExecuteCommand noRconWorld k cmd
                                (filter (\<lambda>(k, v). \<not> IsIdle (clock io0) v) sessions0, s2)) =
                           Inl (SessionNotFound k))"
    by blast
  from gone one have "fst (SessionExecuteCommand noRconWorld ''s1'' ''list''
        (filter (\<lambda>(k, v). \<not> IsIdle (clock io0) v) sessions0, s')) = Inl (SessionNotFound ''s1'')"
    by (metis prod.collapse fst_conv snd_conv)
  with run idle show ?thesis by (simp add: sessions0_def)
qed

section \<open>Reading the log once\<close>

lemma splitLine_line:
  "CHR 0x0A \<notin> set l \<Longrightarrow> splitLine (l @ CHR 0x0A # rest) = Some (l @ [CHR 0x0A], rest)"
  by (induction l) auto

lemma splitLine_fragment: "CHR 0x0A \<notin> set frag \<Longrightarrow> splitLine frag = None"
  by (induction frag) auto

lemma TrimRight_line: "CHR 0x0A \<notin> set msg \<Longrightarrow> TrimRight (msg @ [CHR 0x0A]) = msg"
proof -
  assume a: "CHR 0x0A \<notin> set msg"
  have "dropWhile (\<lambda>c. c = CHR 0x0A) (rev msg) = rev msg"
    using a by (cases "rev msg") (auto simp: rev_eq_Cons_iff)
  then show ?thesis by (simp add: TrimRight_def)
qed

lemma IndexByte_first:
  "c \<notin> set ts \<Longrightarrow> IndexByte (ts @ c # rest) c = int (length ts)"
  by (induction ts) (auto simp: IndexByte_def)

lemma parseLogLine_stamped:
  assumes "wellStamped P (ts, msg)"
  shows "\<exists>t. P ts = Some t \<and> parseLogLine P (stamped (ts, msg)) = (msg, t, True)"
proof -
  from assms obtain t where t: "P ts = Some t" and ne: "ts \<noteq> []" and sp: "CHR '' '' \<notin> set ts"
    and lf: "CHR 0x0A \<notin> set msg"
    by (auto simp: wellStamped_def)
  from IndexByte_first [OF sp] have ix: "IndexByte (stamped (ts, msg)) CHR '' '' = int (length ts)"
    by (simp add: stamped_def)
  with ne t TrimRight_line [OF lf] show ?thesis
    by (simp add: parseLogLine_def Let_def stamped_def)
qed

lemma ReadString_stamped:
  assumes "wellStamped P (ts, msg)" and "pending r = stamped (ts, msg) @ rest"
  shows "ReadString r = ((stamped (ts, msg), None), r\<lparr>pending := rest\<rparr>)"
proof -
  from assms(1) have "CHR 0x0A \<notin> set (ts @ CHR '' '' # msg)"
    by (auto simp: wellStamped_def)
  from splitLine_line [OF this, of rest] assms(2) show ?thesis
    by (simp add: ReadString_def stamped_def)
qed

lemma readEntries_stamped:
  assumes "\<forall>x\<in>set tls. wellStamped P x" and "CHR 0x0A \<notin> set frag"
    and "pending r = concat (map stamped tls) @ frag"
  shows "readEntries P r acc =
           (acc @ map snd tls,
            if (if closed r then afterClose r else ending r) = EOF then None
            else Some (ReadLineFailed (errorText (if closed r then afterClose r else ending r))))"
  using assms
proof (induction tls arbitrary: r acc)
  case Nil
  then have "ReadString r = ((frag, Some (if closed r then afterClose r else ending r)), r\<lparr>pending := []\<rparr>)"
    by (simp add: ReadString_def splitLine_fragment)
  then show ?case by (subst readEntries.simps) simp
next
  case (Cons x tls)
  obtain ts msg where x: "x = (ts, msg)" by (cases x)
  with Cons.prems have ws: "wellStamped P (ts, msg)" by simp
  from Cons.prems(3) x have pr: "pending r = stamped (ts, msg) @ (concat (map stamped tls) @ frag)"
    by simp
  note rs = ReadString_stamped [OF ws pr]
  from parseLogLine_stamped [OF ws] obtain t where
    pl: "parseLogLine P (stamped (ts, msg)) = (msg, t, True)" by blast
  have ne: "stamped (ts, msg) \<noteq> []" by (simp add: stamped_def)
  let ?r' = "r\<lparr>pending := concat (map stamped tls) @ frag\<rparr>"
  from Cons.prems have "\<forall>x\<in>set tls. wellStamped P x" by simp
  from Cons.IH [OF this Cons.prems(2), of ?r' "acc @ [msg]"]
  have "readEntries P ?r' (acc @ [msg]) =
          (acc @ msg # map snd tls,
           if (if closed r then afterClose r else ending r) = EOF then None
           else Some (ReadLineFailed (errorText (if closed r then afterClose r else ending r))))"
    by simp
  moreover from rs pl ne have "readEntries P r acc = readEntries P ?r' (acc @ [msg])"
    by (subst readEntries.simps) simp
  ultimately show ?case using x by simp
qed

text \<open>
  C6. The pod information is at hand and the log request, which carries the
  \<^verbatim>\<open>TailLines\<close> of the options, opens a stream that holds the stamped lines \<open>tls\<close> and
  after them bytes without a line feed, possibly none. Then \<^verbatim>\<open>FetchLogs\<close> without a
  callback returns the messages of the lines, in order, without time stamp and without
  line feed: as many entries as lines. It returns no error when the stream ends with the
  end-of-file mark and the read error, next to the entries read so far, when it ends with
  another error. The bytes after the last line feed are not an entry.
\<close>

theorem FetchLogs_oneshot:
  assumes "refreshReply be (refreshCalls io) = None"
    and "openStream be (streamCalls io) (podLogOptions dc options False) = Inr rd"
    and "\<not> closed rd"
    and "pending rd = concat (map stamped tls) @ frag"
    and "\<forall>x\<in>set tls. wellStamped P x" and "CHR 0x0A \<notin> set frag"
  shows "fst (FetchLogs P be dc options io) =
           (map snd tls,
            if ending rd = EOF then None else Some (ReadLineFailed (errorText (ending rd)))) \<and>
         length (fst (fst (FetchLogs P be dc options io))) = length tls \<and>
         (\<forall>entry\<in>set (fst (fst (FetchLogs P be dc options io))). CHR 0x0A \<notin> set entry)"
proof -
  from assms(1,2) have "fst (FetchLogs P be dc options io) = readEntries P rd []"
    by (simp add: FetchLogs_def refreshPodInfo_def getStream_def Stream_def Let_def)
  with readEntries_stamped [OF assms(5,6,4), of "[]"] assms(3)
  have res: "fst (FetchLogs P be dc options io) =
           (map snd tls,
            if ending rd = EOF then None else Some (ReadLineFailed (errorText (ending rd))))"
    by simp
  moreover from assms(5) have "\<forall>entry\<in>set (map snd tls). CHR 0x0A \<notin> set entry"
    by (auto simp: wellStamped_def)
  ultimately show ?thesis by simp
qed

theorem FetchLogs_oneshot_witness:
  "fst (FetchLogs parseDigits fiftyBackend ''server'' tail50 log_io0) =
     (replicate 50 ''[Server thread/INFO]: Done'', None) \<and>
   length (fst (fst (FetchLogs parseDigits fiftyBackend ''server'' tail50 log_io0))) = 50"
proof -
  let ?tls = "replicate 50 (''1700000000'', ''[Server thread/INFO]: Done'')"
  have a: "refreshReply fiftyBackend (refreshCalls log_io0) = None"
    by (simp add: fiftyBackend_def)
  have b: "openStream fiftyBackend (streamCalls log_io0) (podLogOptions ''server'' tail50 False) = Inr fiftyLines"
    by (simp add: fiftyBackend_def podLogOptions_def tail50_def)
  have c: "\<not> closed fiftyLines" by (simp add: fiftyLines_def)
  have d: "pending fiftyLines = concat (map stamped ?tls) @ []"
    by (simp add: fiftyLines_def)
  have p: "parseDigits ''1700000000'' \<noteq> None" by (simp add: parseDigits_def)
  have e: "\<forall>x\<in>set ?tls. wellStamped parseDigits x"
    using p by (simp add: wellStamped_def)
  have f: "CHR 0x0A \<notin> set []" by simp
  from FetchLogs_oneshot [OF a b c d e f] show ?thesis
    by (simp add: fiftyLines_def)
qed

section \<open>Catch-up after a reconnect\<close>

lemma rawLines_split:
  "splitLine s = Some (l, rest) \<Longrightarrow> rawLines acc s = (acc @ l) # rawLines [] rest"
  by (induction s arbitrary: acc l rest) (auto split: if_splits option.splits)

lemma rawLines_rest:
  "splitLine s = None \<Longrightarrow> rawLines acc s = (if acc @ s = [] then [] else [acc @ s])"
  by (induction s arbitrary: acc) (auto split: if_splits option.splits)

lemma splitLine_nonempty: "splitLine s = Some (l, rest) \<Longrightarrow> l \<noteq> []"
  by (cases s) (auto split: if_splits option.splits)

lemma forwarded_append [simp]: "forwarded (a @ b) = forwarded a @ forwarded b"
  by (simp add: forwarded_def)

lemma forwarded_simps [simp]:
  "forwarded [] = []" "forwarded (Lines ls # cbs) = ls @ forwarded cbs"
  "forwarded (Status msg # cbs) = forwarded cbs"
  by (simp_all add: forwarded_def)

text \<open>
  One round of the catch-up. \<open>x\<close> is what the round adds to the lines forwarded or held:
  the content of the line or nothing.
\<close>

lemma catchUpLine_round:
  assumes "catchUpLine P bs line failed (missed, batch, latest, io) = (missed', batch', latest', io')"
    and "cursor \<le> latest" and "0 \<le> latest" and "0 \<le> batch" and "missed = [] \<longrightarrow> batch = 0"
  shows "cursor \<le> latest' \<and> 0 \<le> latest' \<and> 0 \<le> batch' \<and> (missed' = [] \<longrightarrow> batch' = 0) \<and>
         (failed \<longrightarrow> missed' = []) \<and> events io' = events io \<and>
         max latest' batch' = (if line = [] then max latest batch
                               else latestOf P (max latest batch) [line]) \<and>
         (\<exists>cbs x. delivered io' = delivered io @ cbs \<and> forwarded cbs @ missed' = missed @ x \<and>
                  subseq x (map (\<lambda>l. fst (parseLogLine P l)) (filter (passes P cursor) (if line = [] then [] else [line]))))"
proof -
  define kept where "kept =
     (if line \<noteq> [] then
        (case parseLogLine P line of
           (content, ts, ok) \<Rightarrow>
             if ok \<and> latest < ts
             then (missed @ [content], if batch < ts then ts else batch)
             else if \<not> ok then (missed @ [content], batch)
             else (missed, batch))
      else (missed, batch))"
  obtain missed1 batch1 where k: "kept = (missed1, batch1)" by (cases kept)
  define M where "M = (if line = [] then max latest batch else latestOf P (max latest batch) [line])"
  have first: "0 \<le> batch1 \<and> (missed1 = [] \<longrightarrow> batch1 = 0) \<and> max latest batch1 = M \<and>
      (\<exists>x. missed1 = missed @ x \<and>
           subseq x (map (\<lambda>l. fst (parseLogLine P l))
                      (filter (passes P cursor) (if line = [] then [] else [line]))))"
  proof (cases "line = []")
    case True
    with k assms show ?thesis by (simp add: kept_def M_def)
  next
    case False
    obtain content ts ok where p: "parseLogLine P line = (content, ts, ok)" by (metis prod_cases3)
    show ?thesis
    proof (cases "ok \<and> latest < ts")
      case True
      with assms(2) have pass: "passes P cursor line" by (simp add: passes_def p)
      from True False p k have m1: "missed1 = missed @ [content]"
        and b1: "batch1 = (if batch < ts then ts else batch)"
        by (simp_all add: kept_def)
      from True assms(3,4) b1 have "0 \<le> batch1" by simp
      moreover from m1 have "missed1 \<noteq> []" by simp
      moreover from True b1 False have "max latest batch1 = M"
        by (simp add: M_def latestOf_def p max_def)
      moreover from m1 pass False p have "\<exists>x. missed1 = missed @ x \<and>
           subseq x (map (\<lambda>l. fst (parseLogLine P l))
                      (filter (passes P cursor) (if line = [] then [] else [line])))"
        by simp
      ultimately show ?thesis by simp
    next
      case nf: False
      show ?thesis
      proof (cases ok)
        case True
        with nf have le: "ts \<le> latest" by simp
        from True nf False p k have m1: "missed1 = missed" and b1: "batch1 = batch"
          by (simp_all add: kept_def)
        from True le False have "max latest batch = M"
          by (simp add: M_def latestOf_def p max_def)
        with m1 b1 assms show ?thesis by simp
      next
        case nok: False
        then have pass: "passes P cursor line" by (simp add: passes_def p)
        from nok False p k have m1: "missed1 = missed @ [content]" and b1: "batch1 = batch"
          by (simp_all add: kept_def)
        from nok False have "max latest batch = M"
          by (simp add: M_def latestOf_def p)
        moreover from m1 pass False p have "\<exists>x. missed1 = missed @ x \<and>
           subseq x (map (\<lambda>l. fst (parseLogLine P l))
                      (filter (passes P cursor) (if line = [] then [] else [line])))"
          by simp
        ultimately show ?thesis using m1 b1 assms by simp
      qed
    qed
  qed
  then obtain x where b0: "0 \<le> batch1" and e1: "missed1 = [] \<longrightarrow> batch1 = 0"
    and mx: "max latest batch1 = M" and x: "missed1 = missed @ x"
    and sub: "subseq x (map (\<lambda>l. fst (parseLogLine P l))
                      (filter (passes P cursor) (if line = [] then [] else [line])))"
    by blast
  have res: "(missed', batch', latest', io') =
      (if int (length missed1) \<ge> bs \<or> (failed \<and> length missed1 > 0)
       then ([], 0, if latest < batch1 then batch1 else latest, call (Lines missed1) io)
       else (missed1, batch1, latest, io))"
    using assms(1) k by (simp add: catchUpLine_def kept_def)
  show ?thesis
  proof (cases "int (length missed1) \<ge> bs \<or> (failed \<and> length missed1 > 0)")
    case True
    with res have r: "missed' = []" "batch' = 0" "latest' = max latest batch1"
      "io' = call (Lines missed1) io"
      by (simp_all add: max_def)
    from r(4) x have "delivered io' = delivered io @ [Lines missed1] \<and>
        forwarded [Lines missed1] @ missed' = missed @ x" using r(1) by (simp add: call_def)
    with sub have "\<exists>cbs x. delivered io' = delivered io @ cbs \<and> forwarded cbs @ missed' = missed @ x \<and>
        subseq x (map (\<lambda>l. fst (parseLogLine P l))
                    (filter (passes P cursor) (if line = [] then [] else [line])))"
      by blast
    moreover have "cursor \<le> latest' \<and> 0 \<le> latest' \<and> 0 \<le> batch' \<and>
        (missed' = [] \<longrightarrow> batch' = 0) \<and> (failed \<longrightarrow> missed' = []) \<and> events io' = events io \<and>
        max latest' batch' = M"
    proof -
      from r(3) mx have lm: "latest' = M" by simp
      from r(3) have ge: "latest \<le> latest'" by simp
      with assms(2,3) have "cursor \<le> latest'" "0 \<le> latest'" by simp_all
      moreover from this(2) lm r(2) have "max latest' batch' = M" by simp
      moreover from r(4) have "events io' = events io" by (simp add: call_def)
      ultimately show ?thesis using r(1,2) by simp
    qed
    ultimately show ?thesis unfolding M_def by blast
  next
    case False
    with res have r: "missed' = missed1" "batch' = batch1" "latest' = latest" "io' = io"
      by (auto split: if_splits)
    from r x have "delivered io' = delivered io @ [] \<and> forwarded [] @ missed' = missed @ x"
      by simp
    with sub have "\<exists>cbs x. delivered io' = delivered io @ cbs \<and> forwarded cbs @ missed' = missed @ x \<and>
        subseq x (map (\<lambda>l. fst (parseLogLine P l))
                    (filter (passes P cursor) (if line = [] then [] else [line])))"
      by blast
    moreover from r False assms(2,3) b0 e1 mx have "cursor \<le> latest' \<and> 0 \<le> latest' \<and> 0 \<le> batch' \<and>
        (missed' = [] \<longrightarrow> batch' = 0) \<and> (failed \<longrightarrow> missed' = []) \<and> events io' = events io \<and>
        max latest' batch' = M"
      by auto
    ultimately show ?thesis unfolding M_def by blast
  qed
qed

lemma latestOf_Cons: "latestOf P m (l # ls) = latestOf P (latestOf P m [l]) ls"
  by (simp add: latestOf_def)

lemma latestOf_Nil [simp]: "latestOf P m [] = m"
  by (simp add: latestOf_def)

lemma ReadString_cases:
  "ReadString r = ((line, err), r') \<Longrightarrow>
   (err = None \<and> splitLine (pending r) = Some (line, pending r') \<and> r' = r\<lparr>pending := pending r'\<rparr>) \<or>
   (err = Some (if closed r then afterClose r else ending r) \<and> splitLine (pending r) = None \<and>
    line = pending r)"
  by (auto simp: ReadString_def split: option.splits)

lemma catchUpLoop_next:
  "ReadString r = ((line, None), r') \<Longrightarrow>
   catchUpLoop P bs r acc = catchUpLoop P bs r' (catchUpLine P bs line False acc)"
  by (subst catchUpLoop.simps) simp

lemma catchUpLoop_last:
  "ReadString r = ((line, Some e), r') \<Longrightarrow>
   catchUpLine P bs line True acc = (missed1, batch1, latest1, io1) \<Longrightarrow>
   catchUpLoop P bs r acc =
     (latest1, if e \<noteq> EOF then call (Status (CatchUpReadError (errorText e))) io1 else io1)"
  by (subst catchUpLoop.simps) simp

lemma catchUpLoop_run:
  assumes "catchUpLoop P bs r (missed, batch, latest, io) = (latest', io')"
    and "cursor \<le> latest" and "0 \<le> latest" and "0 \<le> batch" and "missed = [] \<longrightarrow> batch = 0"
  shows "events io' = events io \<and>
         latest' = latestOf P (max latest batch) (rawLines [] (pending r)) \<and>
         (\<exists>cbs fw. delivered io' = delivered io @ cbs \<and> forwarded cbs = missed @ fw \<and>
             subseq fw (map (\<lambda>l. fst (parseLogLine P l))
                          (filter (passes P cursor) (rawLines [] (pending r)))))"
  using assms
proof (induction "length (pending r)" arbitrary: r missed batch latest io rule: less_induct)
  case less
  obtain line err r' where rs: "ReadString r = ((line, err), r')" by (metis surj_pair)
  obtain missed1 batch1 latest1 io1 where
    cl: "catchUpLine P bs line (err \<noteq> None) (missed, batch, latest, io) = (missed1, batch1, latest1, io1)"
    by (metis prod_cases4)
  note round = catchUpLine_round [OF cl less.prems(2-5)]
  from round have inv1: "cursor \<le> latest1" "0 \<le> latest1" "0 \<le> batch1"
      "missed1 = [] \<longrightarrow> batch1 = 0" and fin: "err \<noteq> None \<longrightarrow> missed1 = []"
    and ev1: "events io1 = events io"
    and mx: "max latest1 batch1 = (if line = [] then max latest batch
                                   else latestOf P (max latest batch) [line])"
    by simp_all
  from round obtain cbs0 x where
    d0: "delivered io1 = delivered io @ cbs0" and f0: "forwarded cbs0 @ missed1 = missed @ x"
    and s0: "subseq x (map (\<lambda>l. fst (parseLogLine P l))
                        (filter (passes P cursor) (if line = [] then [] else [line])))"
    by blast
  show ?case
  proof (cases err)
    case None
    with ReadString_cases [OF rs] have sp: "splitLine (pending r) = Some (line, pending r')"
      by simp
    from splitLine_nonempty [OF sp] have ne: "line \<noteq> []" .
    from rawLines_split [OF sp, of "[]"] have rl: "rawLines [] (pending r) = line # rawLines [] (pending r')"
      by simp
    from splitLine_shorter [OF sp] have sh: "length (pending r') < length (pending r)" .
    from rs None have rs': "ReadString r = ((line, None), r')" by simp
    from cl None have cl': "catchUpLine P bs line False (missed, batch, latest, io) = (missed1, batch1, latest1, io1)"
      by simp
    from catchUpLoop_next [OF rs', of P bs "(missed, batch, latest, io)"] cl' less.prems(1)
    have run: "catchUpLoop P bs r' (missed1, batch1, latest1, io1) = (latest', io')"
      by simp
    note ih = less.hyps [OF sh run inv1]
    from ih have ev: "events io' = events io1"
      and lt: "latest' = latestOf P (max latest1 batch1) (rawLines [] (pending r'))"
      by simp_all
    from ih obtain cbs1 fw1 where
      d1: "delivered io' = delivered io1 @ cbs1" and f1: "forwarded cbs1 = missed1 @ fw1"
      and s1: "subseq fw1 (map (\<lambda>l. fst (parseLogLine P l))
                             (filter (passes P cursor) (rawLines [] (pending r'))))"
      by blast
    have A: "events io' = events io" using ev ev1 by simp
    have "latestOf P (max latest batch) (line # rawLines [] (pending r')) =
            latestOf P (latestOf P (max latest batch) [line]) (rawLines [] (pending r'))"
      by (rule latestOf_Cons)
    with lt mx ne rl have B: "latest' = latestOf P (max latest batch) (rawLines [] (pending r))"
      by simp
    have C: "delivered io' = delivered io @ (cbs0 @ cbs1)" using d0 d1 by simp
    have D: "forwarded (cbs0 @ cbs1) = missed @ (x @ fw1)" using f0 f1 by simp
    from s0 ne have s0': "subseq x (map (\<lambda>l. fst (parseLogLine P l)) (filter (passes P cursor) [line]))"
      by simp
    have eq: "map (\<lambda>l. fst (parseLogLine P l)) (filter (passes P cursor) (rawLines [] (pending r))) =
            map (\<lambda>l. fst (parseLogLine P l)) (filter (passes P cursor) [line]) @
            map (\<lambda>l. fst (parseLogLine P l)) (filter (passes P cursor) (rawLines [] (pending r')))"
      by (simp add: rl)
    have E: "subseq (x @ fw1) (map (\<lambda>l. fst (parseLogLine P l))
                              (filter (passes P cursor) (rawLines [] (pending r))))"
      unfolding eq by (rule list_emb_append_mono [OF s0' s1])
    from A B C D E show ?thesis by blast
  next
    case (Some e)
    with ReadString_cases [OF rs] have sp: "splitLine (pending r) = None" and ln: "line = pending r"
      by simp_all
    from rawLines_rest [OF sp, of "[]"] ln
    have rl: "rawLines [] (pending r) = (if line = [] then [] else [line])" by simp
    from Some fin inv1 have m1: "missed1 = []" "batch1 = 0" by simp_all
    from m1(2) inv1(2) have "max latest1 batch1 = latest1" by simp
    with mx rl have l1: "latest1 = latestOf P (max latest batch) (rawLines [] (pending r))"
      by (simp split: if_splits)
    from rs Some have rs': "ReadString r = ((line, Some e), r')" by simp
    from cl Some have cl': "catchUpLine P bs line True (missed, batch, latest, io) = (missed1, batch1, latest1, io1)"
      by simp
    from catchUpLoop_last [OF rs' cl'] less.prems(1)
    have res: "latest' = latest1"
      "io' = (if e \<noteq> EOF then call (Status (CatchUpReadError (errorText e))) io1 else io1)"
      by simp_all
    have A: "events io' = events io" using res(2) ev1 by (simp add: call_def)
    have B: "latest' = latestOf P (max latest batch) (rawLines [] (pending r))"
      using res(1) l1 by simp
    have "\<exists>st. delivered io' = delivered io @ (cbs0 @ st) \<and> forwarded st = []"
    proof (cases "e = EOF")
      case True
      with res(2) d0 have "delivered io' = delivered io @ (cbs0 @ []) \<and> forwarded [] = []" by simp
      then show ?thesis by blast
    next
      case False
      with res(2) d0 have "delivered io' = delivered io @ (cbs0 @ [Status (CatchUpReadError (errorText e))]) \<and>
          forwarded [Status (CatchUpReadError (errorText e))] = []" by (simp add: call_def)
      then show ?thesis by blast
    qed
    then obtain st where C: "delivered io' = delivered io @ (cbs0 @ st)" and st: "forwarded st = []"
      by blast
    from st f0 m1 have D: "forwarded (cbs0 @ st) = missed @ x" by simp
    from s0 rl have E: "subseq x (map (\<lambda>l. fst (parseLogLine P l))
                             (filter (passes P cursor) (rawLines [] (pending r))))" by simp
    from A B C D E show ?thesis by blast
  qed
qed

lemma latestOf_ge: "m \<le> latestOf P m ls"
proof (induction ls arbitrary: m)
  case Nil
  show ?case by simp
next
  case (Cons l ls)
  have "m \<le> latestOf P m [l]"
    by (cases "parseLogLine P l") (simp add: latestOf_def)
  also have "\<dots> \<le> latestOf P (latestOf P m [l]) ls" by (rule Cons.IH)
  also have "\<dots> = latestOf P m (l # ls)" by (rule latestOf_Cons [symmetric])
  finally show ?case .
qed

lemma refresh_before_reconnect:
  assumes "io1 = (case refreshPodInfo be io of
                   (Some updateErr, io') \<Rightarrow> call (Status (RefreshBeforeReconnectFailed updateErr)) io'
                 | (None, io') \<Rightarrow> io')"
  shows "streamCalls io1 = streamCalls io \<and> events io1 = events io \<and>
         (\<exists>st. delivered io1 = delivered io @ st \<and> forwarded st = [])"
proof (cases "refreshReply be (refreshCalls io)")
  case None
  with assms have "delivered io1 = delivered io @ [] \<and> forwarded [] = []"
    by (simp add: refreshPodInfo_def)
  moreover from None assms have "streamCalls io1 = streamCalls io \<and> events io1 = events io"
    by (simp add: refreshPodInfo_def)
  ultimately show ?thesis by blast
next
  case (Some e)
  with assms have "delivered io1 = delivered io @ [Status (RefreshBeforeReconnectFailed e)] \<and>
      forwarded [Status (RefreshBeforeReconnectFailed e)] = []"
    by (simp add: refreshPodInfo_def call_def)
  moreover from Some assms have "streamCalls io1 = streamCalls io \<and> events io1 = events io"
    by (simp add: refreshPodInfo_def call_def)
  ultimately show ?thesis by blast
qed

lemma getStream_first:
  assumes "openStream be (streamCalls io) opts = Inr rd"
  shows "getStream be opts io =
           (Inr (streamCalls io, rd), logEvent (Opened (streamCalls io) opts) (io\<lparr>streamCalls := Suc (streamCalls io)\<rparr>))"
  using assms by (simp add: getStream_def Stream_def Let_def)

lemma Stream_io:
  assumes "Stream be opts io = (res, io')"
  shows "delivered io' = delivered io \<and>
         (case res of Inr (h, rd) \<Rightarrow> events io' = events io @ [Opened h opts]
                    | Inl _ \<Rightarrow> events io' = events io)"
  using assms by (auto simp: Stream_def Let_def logEvent_def split: sum.splits)

lemma getStream_io:
  assumes "getStream be opts io = (res, io')"
  shows "delivered io' = delivered io \<and>
         (case res of Inr (h, rd) \<Rightarrow> events io' = events io @ [Opened h opts]
                    | Inl _ \<Rightarrow> events io' = events io)"
proof -
  obtain r1 io1 where s1: "Stream be opts io = (r1, io1)" by (metis surj_pair)
  note a = Stream_io [OF s1]
  show ?thesis
  proof (cases r1)
    case (Inr st)
    with s1 assms have "res = Inr st" "io' = io1" by (simp_all add: getStream_def)
    with a Inr show ?thesis by simp
  next
    case (Inl msg)
    obtain u io2 where rf: "refreshPodInfo be io1 = (u, io2)" by (metis surj_pair)
    then have io2: "delivered io2 = delivered io1" "events io2 = events io1"
      by (auto simp: refreshPodInfo_def)
    show ?thesis
    proof (cases u)
      case (Some e)
      with Inl s1 rf assms have "res = Inl (StreamAndUpdateFailed msg e)" "io' = io2"
        by (simp_all add: getStream_def)
      with a io2 Inl show ?thesis by simp
    next
      case None
      obtain r3 io3 where s3: "Stream be opts io2 = (r3, io3)" by (metis surj_pair)
      note b = Stream_io [OF s3]
      show ?thesis
      proof (cases r3)
        case (Inr st)
        with None Inl s1 rf s3 assms have "res = Inr st" "io' = io3" by (simp_all add: getStream_def)
        with a b io2 Inl Inr show ?thesis by simp
      next
        case l3: (Inl msg')
        with None Inl s1 rf s3 assms have "res = Inl (StreamStillFailing msg')" "io' = io3"
          by (simp_all add: getStream_def)
        with a b io2 Inl l3 show ?thesis by simp
      qed
    qed
  qed
qed

text \<open>
  C1, as the code has it. A reconnect is made with a cursor after Go's zero time, and the
  catch-up query opens the stream \<open>rd\<close> at its first request. Then the lines that the
  reconnect hands to the callback are, in order, among the lines of the catch-up stream
  that pass the cursor: those with a time stamp strictly after it and those without a
  time stamp. The time stamp that the reconnect returns to the read loop is the latest of
  the cursor and of all time stamps in the catch-up stream, and a follow stream that it
  opens was asked for from one nanosecond after that time stamp. Nothing is said here
  about the lines that the read loop takes from the follow stream: it hands them on
  without a test of their time stamps.
\<close>

theorem tryReconnect_catch_up:
  assumes "0 < lastTimestamp"
    and "openStream be (streamCalls io) (catchUpOpts plo lastTimestamp) = Inr rd"
    and "tryReconnect P be plo options bs lastTimestamp io = ((res, latest), io')"
  shows "latest = latestOf P lastTimestamp (rawLines [] (pending rd)) \<and> lastTimestamp \<le> latest \<and>
         (\<exists>cbs. delivered io' = delivered io @ cbs \<and>
                subseq (forwarded cbs)
                  (map (\<lambda>l. fst (parseLogLine P l))
                     (filter (passes P lastTimestamp) (rawLines [] (pending rd))))) \<and>
         (\<forall>h rd'. res = Inr (h, rd') \<longrightarrow>
            last (events io') = Opened h (followOpts plo options latest) \<and>
            SinceTime (followOpts plo options latest) = Some (latest + Nanosecond))"
proof -
  define io1 where "io1 = (case refreshPodInfo be io of
                   (Some updateErr, io') \<Rightarrow> call (Status (RefreshBeforeReconnectFailed updateErr)) io'
                 | (None, io') \<Rightarrow> io')"
  from refresh_before_reconnect [OF io1_def] obtain st where
    sc: "streamCalls io1 = streamCalls io" and d1: "delivered io1 = delivered io @ st"
    and f1: "forwarded st = []"
    by blast
  define ioA where "ioA = logEvent (Opened (streamCalls io1) (catchUpOpts plo lastTimestamp))
                            (io1\<lparr>streamCalls := Suc (streamCalls io1)\<rparr>)"
  from assms(2) sc have gs: "getStream be (catchUpOpts plo lastTimestamp) io1 = (Inr (streamCalls io1, rd), ioA)"
    by (simp add: getStream_first ioA_def)
  have dA: "delivered ioA = delivered io1" by (simp add: ioA_def logEvent_def)
  obtain l ioB where cu: "catchUpLoop P bs rd ([], 0, lastTimestamp, ioA) = (l, ioB)"
    by (metis surj_pair)
  from assms(1) have pre: "lastTimestamp \<le> lastTimestamp" "0 \<le> lastTimestamp" "(0::int) \<le> 0"
    "([]::string list) = [] \<longrightarrow> (0::int) = 0" by simp_all
  note run = catchUpLoop_run [OF cu pre]
  from run assms(1) have l: "l = latestOf P lastTimestamp (rawLines [] (pending rd))" by simp
  from run obtain cbs fw where dB: "delivered ioB = delivered ioA @ cbs" and fw: "forwarded cbs = [] @ fw"
    and sub: "subseq fw (map (\<lambda>l. fst (parseLogLine P l))
                          (filter (passes P lastTimestamp) (rawLines [] (pending rd))))"
    by blast
  define ioC where "ioC = logEvent (Closed (streamCalls io1)) ioB"
  have dC: "delivered ioC = delivered ioB" by (simp add: ioC_def logEvent_def)
  obtain r3 io3 where g3: "getStream be (followOpts plo options l) ioC = (r3, io3)"
    by (metis surj_pair)
  from assms(1,3) gs cu g3 have res: "latest = l" "io' = io3"
    "res = (case r3 of Inl err \<Rightarrow> Inl (FollowReconnectFailed err) | Inr st \<Rightarrow> Inr st)"
    by (auto simp: tryReconnect_def Let_def io1_def [symmetric] ioC_def split: sum.splits)
  note g = getStream_io [OF g3]
  from l res(1) have A: "latest = latestOf P lastTimestamp (rawLines [] (pending rd))" by simp
  from A latestOf_ge [of lastTimestamp P] have B: "lastTimestamp \<le> latest" by simp
  from g res(2) dC dB dA d1 have "delivered io' = delivered io @ (st @ cbs)" by simp
  moreover from f1 fw sub have "subseq (forwarded (st @ cbs))
                  (map (\<lambda>l. fst (parseLogLine P l))
                     (filter (passes P lastTimestamp) (rawLines [] (pending rd))))" by simp
  ultimately have C: "\<exists>cbs. delivered io' = delivered io @ cbs \<and>
                subseq (forwarded cbs)
                  (map (\<lambda>l. fst (parseLogLine P l))
                     (filter (passes P lastTimestamp) (rawLines [] (pending rd))))" by blast
  have D: "\<forall>h rd'. res = Inr (h, rd') \<longrightarrow>
            last (events io') = Opened h (followOpts plo options latest) \<and>
            SinceTime (followOpts plo options latest) = Some (latest + Nanosecond)"
  proof (intro allI impI)
    fix h rd' assume "res = Inr (h, rd')"
    with res(3) have "r3 = Inr (h, rd')" by (cases r3) simp_all
    with g res(1,2) have "last (events io') = Opened h (followOpts plo options latest)" by simp
    moreover from B assms(1) have "SinceTime (followOpts plo options latest) = Some (latest + Nanosecond)"
      by (simp add: followOpts_def)
    ultimately show "last (events io') = Opened h (followOpts plo options latest) \<and>
            SinceTime (followOpts plo options latest) = Some (latest + Nanosecond)" by simp
  qed
  from A B C D show ?thesis by blast
qed

lemma caughtUp_latest:
  "latestOf parseDigits 1700000000500000000 (rawLines [] (pending caughtUp)) = 1700000000700000000"
  by code_simp

theorem tryReconnect_catch_up_witness:
  "snd (fst (tryReconnect parseDigits secondGranular (podLogOptions ''server'' followAll True)
               followAll 10 1700000000500000000 log_io0)) = 1700000000700000000"
proof -
  have a: "(0::int) < 1700000000500000000" by simp
  have b: "openStream secondGranular (streamCalls log_io0)
             (catchUpOpts (podLogOptions ''server'' followAll True) 1700000000500000000) = Inr caughtUp"
    by (simp add: secondGranular_def serverLog_def catchUpOpts_def caughtUp_def Second_def
        Nanosecond_def)
  have c: "tryReconnect parseDigits secondGranular (podLogOptions ''server'' followAll True)
               followAll 10 1700000000500000000 log_io0 =
           ((fst (fst (tryReconnect parseDigits secondGranular (podLogOptions ''server'' followAll True)
               followAll 10 1700000000500000000 log_io0)),
             snd (fst (tryReconnect parseDigits secondGranular (podLogOptions ''server'' followAll True)
               followAll 10 1700000000500000000 log_io0))),
            snd (tryReconnect parseDigits secondGranular (podLogOptions ''server'' followAll True)
               followAll 10 1700000000500000000 log_io0))"
    by simp
  from tryReconnect_catch_up [OF a b c] caughtUp_latest show ?thesis by simp
qed

section \<open>Runs of the read loop\<close>

text \<open>A run of one more round goes on from the state that the run so far has reached.\<close>

lemma followLoop_Suc:
  "followLoop m P be plo opts bs mw st0 = Running st \<Longrightarrow>
   followLoop (Suc m) P be plo opts bs mw st0 =
     (case followStep P be plo opts bs mw st of
        Continue st' \<Rightarrow> Running st' | Returned st' \<Rightarrow> Finished st' | Panicked st' \<Rightarrow> Crashed st')"
proof (induction m arbitrary: st0)
  case 0
  then show ?case by (simp split: step.splits)
next
  case (Suc m)
  from Suc.prems obtain st1 where
    s: "followStep P be plo opts bs mw st0 = Continue st1"
    and r: "followLoop m P be plo opts bs mw st1 = Running st"
    by (auto split: step.splits)
  from Suc.IH [OF r] s show ?case by simp
qed

lemma FetchLogsFollow_Suc:
  assumes "FetchLogsFollow m P be dc opts io = Inr (Running st)"
    and "followStep P be (podLogOptions dc opts True) opts (effectiveBatchSize opts)
           (effectiveMaxWait opts) st = r"
  shows "FetchLogsFollow (Suc m) P be dc opts io =
           Inr (case r of Continue st' \<Rightarrow> Running st' | Returned st' \<Rightarrow> Finished st'
                        | Panicked st' \<Rightarrow> Crashed st')"
proof (cases "startFollow be dc opts io")
  case (Inl e)
  with assms(1) show ?thesis by (simp add: FetchLogsFollow_def)
next
  case (Inr st0)
  with assms(1) have "followLoop m P be (podLogOptions dc opts True) opts (effectiveBatchSize opts)
                 (effectiveMaxWait opts) st0 = Running st" by (simp add: FetchLogsFollow_def)
  from followLoop_Suc [OF this] Inr assms(2) show ?thesis by (simp add: FetchLogsFollow_def)
qed

lemma resend_run2:
  "FetchLogsFollow 2 parseDigits secondGranular ''server'' followEach log_io0 = Inr (Running drained)"
  by code_simp

lemma resend_step3:
  "followStep parseDigits secondGranular firstRequest followEach 1 Second drained = Continue reconnected"
  by code_simp

lemma resend_step4:
  "followStep parseDigits secondGranular firstRequest followEach 1 Second reconnected = Continue redelivered"
  by code_simp

lemma resend_settings:
  "podLogOptions ''server'' followEach True = firstRequest"
  "effectiveBatchSize followEach = 1" "effectiveMaxWait followEach = Second"
  by (simp_all add: podLogOptions_def followEach_def firstRequest_def effectiveBatchSize_def
      effectiveMaxWait_def)

text \<open>
  C1 as stated fails. The backend resolves the start time of a query to whole seconds,
  and the log holds the lines a and b of one second. The read loop delivers a and b; the
  stream ends; the reconnect with the cursor at the time stamp of b forwards nothing and
  reopens the follow query; the new follow stream holds both lines again, and the read
  loop delivers a once more, although its time stamp lies before the cursor.
\<close>

theorem follow_redelivers_counterexample:
  "FetchLogsFollow 4 parseDigits secondGranular ''server'' followEach log_io0 = Inr (Running redelivered) \<and>
   forwarded (delivered (fio redelivered)) = [''a'', ''b'', ''a''] \<and>
   parseLogLine parseDigits (stamped (''1700000000500000000'', ''a'')) = (''a'', 1700000000500000000, True) \<and>
   lastLogTimestamp reconnected = 1700000000700000000"
proof -
  have r3: "FetchLogsFollow (Suc 2) parseDigits secondGranular ''server'' followEach log_io0 =
              Inr (Running reconnected)"
    using FetchLogsFollow_Suc [OF resend_run2 refl] by (simp add: resend_settings resend_step3)
  have r4: "FetchLogsFollow (Suc (Suc 2)) parseDigits secondGranular ''server'' followEach log_io0 =
              Inr (Running redelivered)"
    using FetchLogsFollow_Suc [OF r3 refl] by (simp add: resend_settings resend_step4)
  have n: "Suc (Suc 2) = 4" by simp
  have a: "forwarded (delivered (fio redelivered)) = [''a'', ''b'', ''a'']" by code_simp
  have b: "parseLogLine parseDigits (stamped (''1700000000500000000'', ''a'')) =
             (''a'', 1700000000500000000, True)" by code_simp
  have c: "lastLogTimestamp reconnected = 1700000000700000000" by code_simp
  from r4 n a b c show ?thesis by simp
qed

section \<open>Backoff and retry of the read loop\<close>

lemma catchUpLine_events:
  "catchUpLine P bs line failed (missed, batch, latest, io) = (missed', batch', latest', io') \<Longrightarrow>
   events io' = events io"
  by (auto simp: catchUpLine_def call_def Let_def split: prod.splits if_splits)

lemma catchUpLoop_events:
  "catchUpLoop P bs r (missed, batch, latest, io) = (latest', io') \<Longrightarrow> events io' = events io"
proof (induction "length (pending r)" arbitrary: r missed batch latest io rule: less_induct)
  case less
  obtain line err r' where rs: "ReadString r = ((line, err), r')" by (metis surj_pair)
  obtain missed1 batch1 latest1 io1 where
    cl: "catchUpLine P bs line (err \<noteq> None) (missed, batch, latest, io) = (missed1, batch1, latest1, io1)"
    by (metis prod_cases4)
  note ev1 = catchUpLine_events [OF cl]
  show ?case
  proof (cases err)
    case None
    with ReadString_cases [OF rs] have sp: "splitLine (pending r) = Some (line, pending r')" by simp
    from rs None have rs': "ReadString r = ((line, None), r')" by simp
    from cl None have cl': "catchUpLine P bs line False (missed, batch, latest, io) = (missed1, batch1, latest1, io1)"
      by simp
    from catchUpLoop_next [OF rs', of P bs "(missed, batch, latest, io)"] cl' less.prems
    have run: "catchUpLoop P bs r' (missed1, batch1, latest1, io1) = (latest', io')" by simp
    from less.hyps [OF splitLine_shorter [OF sp] run] ev1 show ?thesis by simp
  next
    case (Some e)
    from rs Some have rs': "ReadString r = ((line, Some e), r')" by simp
    from cl Some have cl': "catchUpLine P bs line True (missed, batch, latest, io) = (missed1, batch1, latest1, io1)"
      by simp
    from catchUpLoop_last [OF rs' cl'] less.prems ev1 show ?thesis
      by (auto simp: call_def split: if_splits)
  qed
qed

text \<open>A reconnect opens and closes streams; it never waits.\<close>

lemma tryReconnect_events:
  assumes "tryReconnect P be plo options bs lastTimestamp io = (x, io')"
  shows "\<exists>evs. events io' = events io @ evs \<and> (\<forall>d. BackoffWait d \<notin> set evs)"
proof -
  define io1 where "io1 = (case refreshPodInfo be io of
                   (Some updateErr, io') \<Rightarrow> call (Status (RefreshBeforeReconnectFailed updateErr)) io'
                 | (None, io') \<Rightarrow> io')"
  from refresh_before_reconnect [OF io1_def] have e1: "events io1 = events io" by simp
  define mid where "mid =
            (if lastTimestamp \<noteq> 0 then
               (case getStream be (catchUpOpts plo lastTimestamp) io1 of
                  (Inr (h, rd), io') \<Rightarrow>
                    (case catchUpLoop P bs rd ([], 0, lastTimestamp, io') of
                       (latest, io'') \<Rightarrow> (latest, logEvent (Closed h) io''))
                | (Inl catchUpErr, io') \<Rightarrow> (lastTimestamp, call (Status (CatchUpFailed catchUpErr)) io'))
             else (lastTimestamp, io1))"
  obtain l io2 where mid: "mid = (l, io2)" by (cases mid)
  have e2: "\<exists>evs. events io2 = events io1 @ evs \<and> (\<forall>d. BackoffWait d \<notin> set evs)"
  proof (cases "lastTimestamp = 0")
    case True
    with mid have "io2 = io1" by (simp add: mid_def)
    then show ?thesis by simp
  next
    case False
    obtain r ioA where g: "getStream be (catchUpOpts plo lastTimestamp) io1 = (r, ioA)"
      by (metis surj_pair)
    note gio = getStream_io [OF g]
    show ?thesis
    proof (cases r)
      case (Inl e)
      with False g mid have "io2 = call (Status (CatchUpFailed e)) ioA" by (simp add: mid_def)
      with gio Inl show ?thesis by (simp add: call_def)
    next
      case (Inr hr)
      obtain h rd where hr: "hr = (h, rd)" by (cases hr)
      obtain l' ioB where cu: "catchUpLoop P bs rd ([], 0, lastTimestamp, ioA) = (l', ioB)"
        by (metis surj_pair)
      from False g mid Inr hr cu have "io2 = logEvent (Closed h) ioB" by (simp add: mid_def)
      with catchUpLoop_events [OF cu] gio Inr hr
      have "events io2 = events io1 @ [Opened h (catchUpOpts plo lastTimestamp), Closed h]"
        by (simp add: logEvent_def)
      then show ?thesis by simp
    qed
  qed
  obtain r3 io3 where g3: "getStream be (followOpts plo options l) io2 = (r3, io3)"
    by (metis surj_pair)
  from assms mid g3 have "io' = io3"
    by (auto simp: tryReconnect_def Let_def io1_def [symmetric] mid_def [symmetric] split: sum.splits)
  moreover from getStream_io [OF g3]
  have "\<exists>evs. events io3 = events io2 @ evs \<and> (\<forall>d. BackoffWait d \<notin> set evs)"
    by (cases r3) auto
  ultimately show ?thesis using e1 e2 by auto
qed

lemma retryOrFail_exhausted:
  assumes "isRetryableError err" and "err \<noteq> Canceled" and "followMaxRetries \<le> retryCount st"
  shows "\<exists>st'. retryOrFail P be plo opts bs err st = Returned st' \<and>
           delivered (fio st') =
             delivered (fio st) @ [Status (RetriesExhausted (retryCount st) (errorText err))] \<and>
           (\<forall>d. BackoffWait d \<in> set (events (fio st')) \<longrightarrow> BackoffWait d \<in> set (events (fio st)))"
  using assms
  by (cases "currentStream st")
     (auto simp: retryOrFail_def finish_def say_def call_def logEvent_def)

lemma retryOrFail_attempt:
  assumes "isRetryableError err" and "err \<noteq> Canceled"
    and "retryCount st < followMaxRetries" and "currentStream st = Some h"
    and "wait be (waits (fio st)) = NoSignal"
  shows "\<exists>st' evs. retryOrFail P be plo opts bs err st = Continue st' \<and>
           events (fio st') =
             events (fio st) @ Closed h # BackoffWait (followBackoff (retryCount st + 1)) # evs \<and>
           (\<forall>d. BackoffWait d \<notin> set evs) \<and>
           (if currentStream st' = None then retryCount st' = retryCount st + 1
            else retryCount st' = 0)"
proof -
  define st1 where "st1 = say (Reconnecting (retryCount st + 1) followMaxRetries (errorText err))
                            (st\<lparr>retryCount := retryCount st + 1\<rparr>)"
  define io2 where "io2 = logEvent (BackoffWait (followBackoff (retryCount st1)))
                            (logEvent (Closed h) (fio st1))"
  define st2 where "st2 = st1\<lparr>currentStream := None,
                               currentReader := (currentReader st1)\<lparr>closed := True\<rparr>,
                               fio := io2\<lparr>waits := Suc (waits io2)\<rparr>\<rparr>"
  have rc1: "retryCount st1 = retryCount st + 1" and cs1: "currentStream st1 = Some h"
    using assms(4) by (simp_all add: st1_def say_def)
  have w: "waits io2 = waits (fio st)"
    by (simp add: io2_def st1_def say_def call_def logEvent_def)
  have e2: "events (fio st2) =
              events (fio st) @ [Closed h, BackoffWait (followBackoff (retryCount st + 1))]"
    by (simp add: st2_def io2_def rc1) (simp add: st1_def say_def call_def logEvent_def)
  have rc2: "retryCount st2 = retryCount st + 1" and cs2: "currentStream st2 = None"
    by (simp_all add: st2_def rc1)
  obtain r upd io3 where tr: "tryReconnect P be plo opts bs (lastLogTimestamp st2) (fio st2) = ((r, upd), io3)"
    by (metis surj_pair)
  from tryReconnect_events [OF tr] obtain evs where
    e3: "events io3 = events (fio st2) @ evs" and nw: "\<forall>d. BackoffWait d \<notin> set evs"
    by blast
  have unfold: "retryOrFail P be plo opts bs err st =
      (case r of
         Inl reconnectErr \<Rightarrow>
           Continue (say (ReconnectFailed (retryCount st2) followMaxRetries reconnectErr)
                       (st2\<lparr>fio := io3\<rparr>))
       | Inr (h', rd') \<Rightarrow>
           let st3 = say Reconnected
                       (st2\<lparr>currentStream := Some h', currentReader := rd',
                            lastLogTimestamp := upd, retryCount := 0, fio := io3\<rparr>)
           in (case Now be (fio st3) of
                 (t, io4) \<Rightarrow> Continue (st3\<lparr>lastCallbackTime := t, fio := io4\<rparr>)))"
    using assms(1,2,3,5) cs1 w tr
    by (simp add: retryOrFail_def Let_def st1_def [symmetric] io2_def [symmetric]
        st2_def split: sum.splits prod.splits)
  show ?thesis
  proof (cases r)
    case (Inl reconnectErr)
    let ?st' = "say (ReconnectFailed (retryCount st2) followMaxRetries reconnectErr) (st2\<lparr>fio := io3\<rparr>)"
    from unfold Inl have "retryOrFail P be plo opts bs err st = Continue ?st'" by simp
    moreover from e3 e2 have "events (fio ?st') =
        events (fio st) @ Closed h # BackoffWait (followBackoff (retryCount st + 1)) # evs"
      by (simp add: say_def call_def)
    moreover from rc2 cs2 have "currentStream ?st' = None" "retryCount ?st' = retryCount st + 1"
      by (simp_all add: say_def)
    ultimately show ?thesis using nw by (intro exI [of _ ?st'] exI [of _ evs]) simp
  next
    case (Inr hr)
    obtain h' rd' where hr: "hr = (h', rd')" by (cases hr)
    define st3 where "st3 = say Reconnected
                       (st2\<lparr>currentStream := Some h', currentReader := rd',
                            lastLogTimestamp := upd, retryCount := 0, fio := io3\<rparr>)"
    obtain t io4 where now: "Now be (fio st3) = (t, io4)" by (metis surj_pair)
    let ?st' = "st3\<lparr>lastCallbackTime := t, fio := io4\<rparr>"
    from unfold Inr hr now have "retryOrFail P be plo opts bs err st = Continue ?st'"
      by (simp add: Let_def st3_def [symmetric])
    moreover from now have "events io4 = events (fio st3)" by (auto simp: Now_def)
    with e3 e2 have "events (fio ?st') =
        events (fio st) @ Closed h # BackoffWait (followBackoff (retryCount st + 1)) # evs"
      by (simp add: st3_def say_def call_def)
    moreover have "currentStream ?st' = Some h'" "retryCount ?st' = 0"
      by (simp_all add: st3_def say_def)
    ultimately show ?thesis using nw by (intro exI [of _ ?st'] exI [of _ evs]) simp
  qed
qed

lemma readStep_success:
  assumes "ReadString (currentReader st) = ((line, None), r')"
  shows "\<exists>st'. readStep P be plo opts bs mw st = Continue st' \<and> retryCount st' = 0"
  using assms by (simp add: readStep_def Let_def)

lemma followBackoff_formula:
  "0 \<le> k \<Longrightarrow> followBackoff (k + 1) = min (Second * 2 ^ nat k) (30 * Second)"
  by (simp add: followBackoff_def followRetryDelay_def followMaxRetryDelay_def)

text \<open>
  C7, as the code has it. A read error that may be retried, met in a round of the read
  loop: with the counter at \<^verbatim>\<open>maxRetries\<close> (5) or more the task delivers one last
  callback and returns, and waits no more; with the counter \<open>k\<close> below it and a stream at
  hand, the task closes the stream, waits \<open>min (1s * 2 ^ k, 30s)\<close>, which is the wait of
  attempt \<open>k + 1\<close>, and makes one reconnect attempt, after which the counter is \<open>k + 1\<close> if
  the attempt failed and zero as soon as it succeeded, before any line is read from the
  new stream. A read without an error sets the counter to zero as well. The cases are
  those of the code of one round, for any state; which of them a run reaches is the
  matter of \<open>follow_counter_bound\<close> below.
\<close>

theorem follow_retry_round:
  assumes "isRetryableError err" and "err \<noteq> Canceled"
  shows "(followMaxRetries \<le> retryCount st \<longrightarrow>
            (\<exists>st'. retryOrFail P be plo opts bs err st = Returned st' \<and>
                   delivered (fio st') =
                     delivered (fio st) @ [Status (RetriesExhausted (retryCount st) (errorText err))] \<and>
                   (\<forall>d. BackoffWait d \<in> set (events (fio st')) \<longrightarrow>
                        BackoffWait d \<in> set (events (fio st))))) \<and>
         (0 \<le> retryCount st \<and> retryCount st < followMaxRetries \<and> currentStream st = Some h \<and>
          wait be (waits (fio st)) = NoSignal \<longrightarrow>
            (\<exists>st' evs. retryOrFail P be plo opts bs err st = Continue st' \<and>
                events (fio st') =
                  events (fio st) @ Closed h #
                    BackoffWait (min (Second * 2 ^ nat (retryCount st)) (30 * Second)) # evs \<and>
                (\<forall>d. BackoffWait d \<notin> set evs) \<and>
                (if currentStream st' = None then retryCount st' = retryCount st + 1
                 else retryCount st' = 0))) \<and>
         (\<forall>line r'. ReadString (currentReader st) = ((line, None), r') \<longrightarrow>
            (\<exists>st'. readStep P be plo opts bs mw st = Continue st' \<and> retryCount st' = 0))"
proof (intro conjI impI allI)
  assume "followMaxRetries \<le> retryCount st"
  from retryOrFail_exhausted [OF assms this]
  show "\<exists>st'. retryOrFail P be plo opts bs err st = Returned st' \<and>
                   delivered (fio st') =
                     delivered (fio st) @ [Status (RetriesExhausted (retryCount st) (errorText err))] \<and>
                   (\<forall>d. BackoffWait d \<in> set (events (fio st')) \<longrightarrow>
                        BackoffWait d \<in> set (events (fio st)))" .
next
  assume a: "0 \<le> retryCount st \<and> retryCount st < followMaxRetries \<and> currentStream st = Some h \<and>
          wait be (waits (fio st)) = NoSignal"
  then have b: "retryCount st < followMaxRetries" "currentStream st = Some h"
    "wait be (waits (fio st)) = NoSignal" "0 \<le> retryCount st" by simp_all
  from retryOrFail_attempt [OF assms b(1,2,3), of P plo opts bs] followBackoff_formula [OF b(4)]
  show "\<exists>st' evs. retryOrFail P be plo opts bs err st = Continue st' \<and>
                events (fio st') =
                  events (fio st) @ Closed h #
                    BackoffWait (min (Second * 2 ^ nat (retryCount st)) (30 * Second)) # evs \<and>
                (\<forall>d. BackoffWait d \<notin> set evs) \<and>
                (if currentStream st' = None then retryCount st' = retryCount st + 1
                 else retryCount st' = 0)" by simp
next
  fix line r' assume "ReadString (currentReader st) = ((line, None), r')"
  from readStep_success [OF this]
  show "\<exists>st'. readStep P be plo opts bs mw st = Continue st' \<and> retryCount st' = 0" .
qed

lemma retry_inputs:
  "isRetryableError (OtherError ''connection reset by peer'')"
  "followMaxRetries \<le> retryCount (drained\<lparr>retryCount := 5\<rparr>)"
  "0 \<le> retryCount (drained\<lparr>retryCount := 3\<rparr>) \<and>
   retryCount (drained\<lparr>retryCount := 3\<rparr>) < followMaxRetries \<and>
   currentStream (drained\<lparr>retryCount := 3\<rparr>) = Some 0 \<and>
   wait secondGranular (waits (fio (drained\<lparr>retryCount := 3\<rparr>))) = NoSignal"
  "ReadString (currentReader reconnected) =
     ((''1700000000500000000 a\<newline>'', None),
      \<lparr>pending = ''1700000000700000000 b\<newline>'', ending = EOF,
       afterClose = OtherError ''http2: response body closed'', closed = False\<rparr>)"
  by code_simp+

theorem follow_retry_round_witness:
  "(\<exists>st'. retryOrFail parseDigits secondGranular firstRequest followEach 1
            (OtherError ''connection reset by peer'') (drained\<lparr>retryCount := 5\<rparr>) = Returned st' \<and>
          delivered (fio st') =
            delivered (fio drained) @ [Status (RetriesExhausted 5 ''connection reset by peer'')]) \<and>
   (\<exists>st' evs. retryOrFail parseDigits secondGranular firstRequest followEach 1
            (OtherError ''connection reset by peer'') (drained\<lparr>retryCount := 3\<rparr>) = Continue st' \<and>
          events (fio st') = events (fio drained) @ Closed 0 # BackoffWait (8 * Second) # evs) \<and>
   (\<exists>st'. readStep parseDigits secondGranular firstRequest followEach 1 Second reconnected =
            Continue st' \<and> retryCount st' = 0)"
proof -
  have n: "OtherError ''connection reset by peer'' \<noteq> Canceled" by simp
  note r = retry_inputs(1)
  have a: "\<exists>st'. retryOrFail parseDigits secondGranular firstRequest followEach 1
            (OtherError ''connection reset by peer'') (drained\<lparr>retryCount := 5\<rparr>) = Returned st' \<and>
          delivered (fio st') =
            delivered (fio drained) @ [Status (RetriesExhausted 5 ''connection reset by peer'')]"
    using follow_retry_round [OF r n, where st = "drained\<lparr>retryCount := 5\<rparr>"
        and P = parseDigits and be = secondGranular and plo = firstRequest and opts = followEach
        and bs = 1 and mw = Second and h = 0] retry_inputs(2)
    by auto
  have e: "min (Second * 2 ^ nat (retryCount (drained\<lparr>retryCount := 3\<rparr>))) (30 * Second) = 8 * Second"
    by (simp add: Second_def Millisecond_def Nanosecond_def)
  have b: "\<exists>st' evs. retryOrFail parseDigits secondGranular firstRequest followEach 1
            (OtherError ''connection reset by peer'') (drained\<lparr>retryCount := 3\<rparr>) = Continue st' \<and>
          events (fio st') = events (fio drained) @ Closed 0 # BackoffWait (8 * Second) # evs"
    using follow_retry_round [OF r n, where st = "drained\<lparr>retryCount := 3\<rparr>"
        and P = parseDigits and be = secondGranular and plo = firstRequest and opts = followEach
        and bs = 1 and mw = Second and h = 0] retry_inputs(3)
    unfolding e by auto
  have c: "\<exists>st'. readStep parseDigits secondGranular firstRequest followEach 1 Second reconnected =
            Continue st' \<and> retryCount st' = 0"
    using follow_retry_round [OF r n, where st = reconnected
        and P = parseDigits and be = secondGranular and plo = firstRequest and opts = followEach
        and bs = 1 and mw = Second and h = 0] retry_inputs(4)
    by blast
  from a b c show ?thesis by blast
qed

lemma ending_run1:
  "FetchLogsFollow 1 parseDigits endingBackend ''server'' followEach log_io0 = Inr (Running endedOnce)"
  by code_simp

lemma ending_step2:
  "followStep parseDigits endingBackend firstRequest followEach 1 Second endedOnce = Continue endedTwice"
  by code_simp

text \<open>
  C7 as stated fails in its second part. Every stream of the backend ends at once. The
  first round meets the end of the stream, counts attempt 1, waits one second and
  reconnects; the counter is zero after that round, and no line has been read. The second
  round meets the end of the new stream, counts attempt 1 again and waits one second
  again, where a counter that is reset only by a read would make it attempt 2 with a wait
  of two seconds.
\<close>

theorem follow_reset_counterexample:
  "FetchLogsFollow 1 parseDigits endingBackend ''server'' followEach log_io0 = Inr (Running endedOnce) \<and>
   retryCount endedOnce = 0 \<and>
   forwarded (delivered (fio endedOnce)) = [] \<and>
   FetchLogsFollow 2 parseDigits endingBackend ''server'' followEach log_io0 = Inr (Running endedTwice) \<and>
   delivered (fio endedTwice) =
     [Status (Reconnecting 1 5 ''unexpected EOF, attempting reconnect''), Status Reconnected,
      Status (Reconnecting 1 5 ''unexpected EOF, attempting reconnect''), Status Reconnected] \<and>
   backoffs (events (fio endedTwice)) = [1 * Second, 1 * Second]"
proof -
  have r2: "FetchLogsFollow (Suc 1) parseDigits endingBackend ''server'' followEach log_io0 =
              Inr (Running endedTwice)"
    using FetchLogsFollow_Suc [OF ending_run1 refl] by (simp add: resend_settings ending_step2)
  have n: "Suc 1 = 2" by simp
  have a: "retryCount endedOnce = 0" by code_simp
  have b: "forwarded (delivered (fio endedOnce)) = []" by code_simp
  have c: "delivered (fio endedTwice) =
     [Status (Reconnecting 1 5 ''unexpected EOF, attempting reconnect''), Status Reconnected,
      Status (Reconnecting 1 5 ''unexpected EOF, attempting reconnect''), Status Reconnected]"
    by code_simp
  have d: "backoffs (events (fio endedTwice)) = [1 * Second, 1 * Second]" by code_simp
  from ending_run1 r2 [unfolded n] a b c d show ?thesis by simp
qed

section \<open>The read loop after a reconnect attempt that failed\<close>

lemma flushIfDue_fields:
  "currentStream (flushIfDue be bs mw failed st) = currentStream st"
  "retryCount (flushIfDue be bs mw failed st) = retryCount st"
  "currentReader (flushIfDue be bs mw failed st) = currentReader st"
  by (simp_all add: flushIfDue_def doFlush_def split: prod.splits)

lemma finish_ends: "finish st \<noteq> Continue st'"
  by (simp add: finish_def split: option.splits)

text \<open>
  Without a stream, the branch for a read error never goes on to another round: it calls
  \<^verbatim>\<open>Close\<close> on the nil stream when the error may be retried, and returns otherwise.
\<close>

lemma retryOrFail_nil_stream:
  assumes "currentStream st = None"
  shows "retryOrFail P be plo opts bs err st \<noteq> Continue st'"
    and "isRetryableError err \<Longrightarrow> err \<noteq> Canceled \<Longrightarrow> retryCount st < followMaxRetries \<Longrightarrow>
         retryOrFail P be plo opts bs err st =
           Panicked (say (Reconnecting (retryCount st + 1) followMaxRetries (errorText err))
                       (st\<lparr>retryCount := retryCount st + 1\<rparr>))"
  using assms by (simp_all add: retryOrFail_def Let_def finish_def say_def)

lemma retryOrFail_roundStart:
  assumes "currentStream st = Some h" and "retryCount st = 0"
    and "pending (currentReader st) = []"
    and "retryOrFail P be plo opts bs err st = Continue st'"
  shows "roundStart st'"
proof -
  have r: "isRetryableError err" "err \<noteq> Canceled"
    using assms(4) by (auto simp: retryOrFail_def finish_ends split: if_splits)
  define st1 where "st1 = say (Reconnecting (retryCount st + 1) followMaxRetries (errorText err))
                            (st\<lparr>retryCount := retryCount st + 1\<rparr>)"
  define io2 where "io2 = logEvent (BackoffWait (followBackoff (retryCount st1)))
                            (logEvent (Closed h) (fio st1))"
  define st2 where "st2 = st1\<lparr>currentStream := None,
                               currentReader := (currentReader st1)\<lparr>closed := True\<rparr>,
                               fio := io2\<lparr>waits := Suc (waits io2)\<rparr>\<rparr>"
  have cs1: "currentStream st1 = Some h" using assms(1) by (simp add: st1_def say_def)
  have f2: "currentStream st2 = None" "retryCount st2 = 1" "pending (currentReader st2) = []"
    using assms(2,3) by (simp_all add: st2_def st1_def say_def)
  obtain r upd io3 where
    tr: "tryReconnect P be plo opts bs (lastLogTimestamp st2) (fio st2) = ((r, upd), io3)"
    by (metis surj_pair)
  have lt: "retryCount st < followMaxRetries" using assms(2) by (simp add: followMaxRetries_def)
  have w: "wait be (waits io2) = NoSignal"
    using assms(4) r lt cs1
    by (cases "wait be (waits io2)")
       (simp_all add: retryOrFail_def Let_def st1_def [symmetric] io2_def [symmetric] finish_ends)
  have unfold: "retryOrFail P be plo opts bs err st =
      (case r of
         Inl reconnectErr \<Rightarrow>
           Continue (say (ReconnectFailed (retryCount st2) followMaxRetries reconnectErr)
                       (st2\<lparr>fio := io3\<rparr>))
       | Inr (h', rd') \<Rightarrow>
           let st3 = say Reconnected
                       (st2\<lparr>currentStream := Some h', currentReader := rd',
                            lastLogTimestamp := upd, retryCount := 0, fio := io3\<rparr>)
           in (case Now be (fio st3) of
                 (t, io4) \<Rightarrow> Continue (st3\<lparr>lastCallbackTime := t, fio := io4\<rparr>)))"
    using r lt cs1 w tr
    by (simp add: retryOrFail_def Let_def st1_def [symmetric] io2_def [symmetric]
        st2_def split: sum.splits prod.splits)
  show ?thesis
  proof (cases r)
    case (Inl reconnectErr)
    with unfold assms(4) have "st' = say (ReconnectFailed (retryCount st2) followMaxRetries reconnectErr)
                                     (st2\<lparr>fio := io3\<rparr>)" by simp
    with f2 show ?thesis by (simp add: roundStart_def say_def)
  next
    case (Inr hr)
    obtain h' rd' where hr: "hr = (h', rd')" by (cases hr)
    define st3 where "st3 = say Reconnected
                       (st2\<lparr>currentStream := Some h', currentReader := rd',
                            lastLogTimestamp := upd, retryCount := 0, fio := io3\<rparr>)"
    obtain t io4 where now: "Now be (fio st3) = (t, io4)" by (metis surj_pair)
    from unfold Inr hr now assms(4) have "st' = st3\<lparr>lastCallbackTime := t, fio := io4\<rparr>"
      by (simp add: Let_def st3_def [symmetric])
    then show ?thesis by (simp add: roundStart_def st3_def say_def)
  qed
qed

lemma handleReadError_roundStart:
  assumes "roundStart st" and "pending (currentReader st) = []"
    and "handleReadError P be plo opts bs err st = Continue st'"
  shows "roundStart st'"
proof -
  obtain err' io' where
    c: "retryOrFail P be plo opts bs err' (st\<lparr>fio := io'\<rparr>) = Continue st'"
    using assms(3)
    by (cases "err = EOF")
       (auto simp: handleReadError_def finish_ends split: prod.splits bool.splits if_splits
          intro: that [where io' = "fio st"])
  show ?thesis
  proof (cases "currentStream st")
    case None
    then have "currentStream (st\<lparr>fio := io'\<rparr>) = None" by simp
    from retryOrFail_nil_stream(1) [OF this] c show ?thesis by blast
  next
    case (Some h)
    with assms(1) have a: "retryCount (st\<lparr>fio := io'\<rparr>) = 0" by (simp add: roundStart_def)
    from Some have b: "currentStream (st\<lparr>fio := io'\<rparr>) = Some h" by simp
    from assms(2) have d: "pending (currentReader (st\<lparr>fio := io'\<rparr>)) = []" by simp
    from b a d c show ?thesis by (rule retryOrFail_roundStart)
  qed
qed

lemma ReadString_drained:
  "ReadString r = ((line, Some err), r') \<Longrightarrow> pending r' = []"
  "pending r = [] \<Longrightarrow> snd (fst (ReadString r)) \<noteq> None"
  by (auto simp: ReadString_def split: option.splits)

lemma readStep_roundStart:
  assumes "roundStart st" and "readStep P be plo opts bs mw st = Continue st'"
  shows "roundStart st'"
proof -
  obtain line readErr r' where rs: "ReadString (currentReader st) = ((line, readErr), r')"
    by (metis surj_pair)
  define st1 where "st1 = st\<lparr>currentReader := r'\<rparr>"
  define st2 where "st2 = (if line \<noteq> [] then
                       (case parseLogLine P line of
                          (content, ts, ok) \<Rightarrow>
                            st1\<lparr>buffer := buffer st1 @ [content],
                                lastLogTimestamp :=
                                  (if ok \<and> lastLogTimestamp st1 < ts then ts
                                   else lastLogTimestamp st1)\<rparr>)
                     else st1)"
  define st3 where "st3 = flushIfDue be bs mw (readErr \<noteq> None) st2"
  have f2: "currentStream st2 = currentStream st" "retryCount st2 = retryCount st"
    "currentReader st2 = r'"
    by (simp_all add: st2_def st1_def split: prod.splits)
  have f3: "currentStream st3 = currentStream st" "retryCount st3 = retryCount st"
    "currentReader st3 = r'"
    by (simp_all add: st3_def flushIfDue_fields f2)
  have step: "readStep P be plo opts bs mw st =
                (case readErr of
                   None \<Rightarrow> Continue (st3\<lparr>retryCount := 0\<rparr>)
                 | Some err \<Rightarrow> handleReadError P be plo opts bs err st3)"
    unfolding st3_def st2_def st1_def
    by (cases readErr) (simp_all add: readStep_def rs Let_def)
  show ?thesis
  proof (cases readErr)
    case None
    with step assms(2) have st': "st' = st3\<lparr>retryCount := 0\<rparr>" by simp
    show ?thesis
    proof (cases "currentStream st")
      case None
      with assms(1) have "pending (currentReader st) = []" by (simp add: roundStart_def)
      from ReadString_drained(2) [OF this] rs \<open>readErr = None\<close> show ?thesis by simp
    next
      case (Some h)
      with st' f3 show ?thesis by (simp add: roundStart_def)
    qed
  next
    case (Some err)
    with step assms(2) have h: "handleReadError P be plo opts bs err st3 = Continue st'" by simp
    from rs Some have "pending r' = []" by (auto dest: ReadString_drained(1))
    with f3 have p: "pending (currentReader st3) = []" by simp
    from assms(1) f3 p have "roundStart st3"
      by (cases "currentStream st") (simp_all add: roundStart_def)
    from handleReadError_roundStart [OF this p h] show ?thesis .
  qed
qed

lemma followStep_roundStart:
  assumes "roundStart st" and "followStep P be plo opts bs mw st = Continue st'"
  shows "roundStart st'"
proof -
  from assms(2) obtain io1 where
    r: "readStep P be plo opts bs mw (st\<lparr>fio := io1\<rparr>) = Continue st'"
    by (auto simp: followStep_def Let_def finish_ends split: signal.splits prod.splits bool.splits)
  from assms(1) have "roundStart (st\<lparr>fio := io1\<rparr>)"
    by (cases "currentStream st") (simp_all add: roundStart_def)
  from readStep_roundStart [OF this r] show ?thesis .
qed

lemma followLoop_roundStart:
  "roundStart st0 \<Longrightarrow> followLoop n P be plo opts bs mw st0 = Running st \<Longrightarrow> roundStart st"
proof (induction n arbitrary: st0)
  case 0
  then show ?case by simp
next
  case (Suc n)
  from Suc.prems(2) obtain st1 where
    s: "followStep P be plo opts bs mw st0 = Continue st1"
    and l: "followLoop n P be plo opts bs mw st1 = Running st"
    by (auto split: step.splits)
  from Suc.IH [OF followStep_roundStart [OF Suc.prems(1) s] l] show ?case .
qed

lemma startFollow_roundStart:
  "startFollow be dc opts io = Inr st \<Longrightarrow> roundStart st"
  by (auto simp: startFollow_def roundStart_def split: prod.splits option.splits sum.splits)

text \<open>
  At the start of every round of a run the counter is at most one, and it is zero when
  there is a stream: each reconnect attempt of a run is attempt 1 or ends the run, and no
  run reaches the branch for an exhausted counter.
\<close>

lemma follow_counter_bound:
  assumes "FetchLogsFollow n P be dc opts io = Inr (Running st)"
  shows "roundStart st" and "retryCount st \<le> 1"
proof -
  from assms obtain st0 where s: "startFollow be dc opts io = Inr st0"
    and l: "followLoop n P be (podLogOptions dc opts True) opts (effectiveBatchSize opts)
              (effectiveMaxWait opts) st0 = Running st"
    by (auto simp: FetchLogsFollow_def split: sum.splits)
  from followLoop_roundStart [OF startFollow_roundStart [OF s] l] show "roundStart st" .
  then show "retryCount st \<le> 1" by (auto simp: roundStart_def split: option.splits)
qed

lemma lost_run1:
  "FetchLogsFollow 1 parseDigits lostBackend ''server'' followEach log_io0 = Inr (Running lineDelivered)"
  by code_simp

lemma lost_step2:
  "followStep parseDigits lostBackend firstRequest followEach 1 Second lineDelivered = Continue refused"
  by code_simp

lemma lost_step3:
  "followStep parseDigits lostBackend firstRequest followEach 1 Second refused = Panicked dereferenced"
  by code_simp

text \<open>
  C10 fails in the code. The first stream holds one line and ends; every later request
  for a stream is refused, and a read on the closed stream fails with
  \<^verbatim>\<open>http2: response body closed\<close>. Round 1 delivers the line. Round 2 meets the end of
  the stream, closes it, sets \<^verbatim>\<open>currentStream\<close> to nil, waits and fails to reconnect.
  Round 3 reads from the reader of the closed stream, takes the error for one that may be
  retried, counts attempt 2 and calls \<^verbatim>\<open>Close\<close> on the nil stream.
\<close>

theorem follow_nil_stream_dereference:
  "FetchLogsFollow 2 parseDigits lostBackend ''server'' followEach log_io0 = Inr (Running refused) \<and>
   currentStream refused = None \<and>
   FetchLogsFollow 3 parseDigits lostBackend ''server'' followEach log_io0 = Inr (Crashed dereferenced)"
proof -
  have r2: "FetchLogsFollow (Suc 1) parseDigits lostBackend ''server'' followEach log_io0 =
              Inr (Running refused)"
    using FetchLogsFollow_Suc [OF lost_run1 refl] by (simp add: resend_settings lost_step2)
  have r3: "FetchLogsFollow (Suc (Suc 1)) parseDigits lostBackend ''server'' followEach log_io0 =
              Inr (Crashed dereferenced)"
    using FetchLogsFollow_Suc [OF r2 refl] by (simp add: resend_settings lost_step3)
  have n: "Suc 1 = 2" "Suc (Suc 1) = 3" by simp_all
  have c: "currentStream refused = None" by code_simp
  from r2 [unfolded n] r3 [unfolded n] c show ?thesis by simp
qed

end
